theory Spec2Isabelle
  imports Main "HOL-Library.Word"
begin

unbundle bit_operations_syntax

section \<open>Machine types and constants of mm/ksm.c\<close>

text \<open>
  The engine is modelled for an LP64 kernel: \<open>u32\<close> and \<open>unsigned int\<close> are 32-bit
  words, \<open>u64\<close> and \<open>unsigned long\<close> are 64-bit words.  Hash strengths and loop
  indices are C \<open>int\<close>s that only ever hold values between 0 and
  \<open>HASH_STRENGTH_MAX\<close>; on that range every conversion between \<open>int\<close>, \<open>u32\<close> and
  \<open>unsigned long\<close> is the identity, so they are modelled as HOL integers.
\<close>

type_synonym u32 = "32 word"
type_synonym u64 = "64 word"

text \<open>
  Modelled from the spec: \<open>PAGE_SIZE\<close> comes from the architecture headers, which are not
  part of the source tree under study; the x86 value of 4 KiB is used, so that
  \<open>PAGE_WORDS = page_size / 4 = 1024\<close>.
\<close>

definition PAGE_SIZE :: nat where
  "PAGE_SIZE = 4096"

definition HASH_STRENGTH_FULL :: int where
  "HASH_STRENGTH_FULL = int (PAGE_SIZE div 4)"

definition HASH_STRENGTH_MAX :: int where
  "HASH_STRENGTH_MAX = HASH_STRENGTH_FULL + 10"

definition shiftl :: nat where
  "shiftl = 8"

definition shiftr :: nat where
  "shiftr = 12"

section \<open>The random sampling hash\<close>

text \<open>
  A mapped page (\<open>u32 *key\<close>) and the table \<open>random_nums\<close> are memory read at a word
  offset, hence functions from offsets to words.

  \<open>hash_mix\<close> is the body of the macro \<open>HASH_FROM_TO\<close>, \<open>hash_unmix\<close> the body of
  \<open>HASH_FROM_DOWN_TO\<close>; the two loops are the recursions below, \<open>index\<close> being the
  loop variable.  \<open>HASH_FROM_DOWN_TO(from, to)\<close> starts at \<open>index = from - 1\<close>.
\<close>

definition hash_mix :: "(nat \<Rightarrow> u32) \<Rightarrow> (nat \<Rightarrow> u32) \<Rightarrow> int \<Rightarrow> u32 \<Rightarrow> u32" where
  "hash_mix random_nums key index hash =
     (let pos = unat (random_nums (nat index));
          hash = hash + key pos;
          hash = hash + push_bit shiftl hash
      in hash XOR drop_bit shiftr hash)"

definition hash_unmix :: "(nat \<Rightarrow> u32) \<Rightarrow> (nat \<Rightarrow> u32) \<Rightarrow> int \<Rightarrow> u32 \<Rightarrow> u32" where
  "hash_unmix random_nums key index hash =
     (let hash = hash XOR drop_bit shiftr hash;
          hash = hash XOR drop_bit (shiftr * 2) hash;
          hash = hash - push_bit shiftl hash;
          hash = hash + push_bit (shiftl * 2) hash;
          pos = unat (random_nums (nat index))
      in hash - key pos)"

function HASH_FROM_TO ::
  "(nat \<Rightarrow> u32) \<Rightarrow> (nat \<Rightarrow> u32) \<Rightarrow> int \<Rightarrow> int \<Rightarrow> u32 \<Rightarrow> u32" where
  "HASH_FROM_TO random_nums key index to hash =
     (if index < to
      then HASH_FROM_TO random_nums key (index + 1) to (hash_mix random_nums key index hash)
      else hash)"
  by pat_completeness auto
termination
  by (relation "measure (\<lambda>(random_nums, key, index, to, hash). nat (to - index))") auto

function HASH_FROM_DOWN_TO ::
  "(nat \<Rightarrow> u32) \<Rightarrow> (nat \<Rightarrow> u32) \<Rightarrow> int \<Rightarrow> int \<Rightarrow> u32 \<Rightarrow> u32" where
  "HASH_FROM_DOWN_TO random_nums key index to hash =
     (if index \<ge> to
      then HASH_FROM_DOWN_TO random_nums key (index - 1) to (hash_unmix random_nums key index hash)
      else hash)"
  by pat_completeness auto
termination
  by (relation "measure (\<lambda>(random_nums, key, index, to, hash). nat (index + 1 - to))") auto

declare HASH_FROM_TO.simps [simp del]
declare HASH_FROM_DOWN_TO.simps [simp del]

definition random_sample_hash :: "(nat \<Rightarrow> u32) \<Rightarrow> (nat \<Rightarrow> u32) \<Rightarrow> int \<Rightarrow> u32" where
  "random_sample_hash random_nums key hash_strength =
     (let hash = 0xdeadbeef;
          loop = hash_strength;
          loop = (if loop > HASH_STRENGTH_FULL then HASH_STRENGTH_FULL else loop);
          hash = HASH_FROM_TO random_nums key 0 loop hash
      in if hash_strength > HASH_STRENGTH_FULL
         then HASH_FROM_TO random_nums key 0 (hash_strength - HASH_STRENGTH_FULL) hash
         else hash)"

definition delta_hash ::
  "(nat \<Rightarrow> u32) \<Rightarrow> (nat \<Rightarrow> u32) \<Rightarrow> int \<Rightarrow> int \<Rightarrow> u32 \<Rightarrow> u32" where
  "delta_hash random_nums key from to hash =
     (if to > from then
        (if from \<ge> HASH_STRENGTH_FULL then
           HASH_FROM_TO random_nums key (from - HASH_STRENGTH_FULL) (to - HASH_STRENGTH_FULL) hash
         else if to \<le> HASH_STRENGTH_FULL then
           HASH_FROM_TO random_nums key from to hash
         else
           HASH_FROM_TO random_nums key 0 (to - HASH_STRENGTH_FULL)
             (HASH_FROM_TO random_nums key from HASH_STRENGTH_FULL hash))
      else
        (if from \<le> HASH_STRENGTH_FULL then
           HASH_FROM_DOWN_TO random_nums key (from - 1) to hash
         else if to \<ge> HASH_STRENGTH_FULL then
           HASH_FROM_DOWN_TO random_nums key (from - HASH_STRENGTH_FULL - 1)
             (to - HASH_STRENGTH_FULL) hash
         else
           HASH_FROM_DOWN_TO random_nums key (HASH_STRENGTH_FULL - 1) to
             (HASH_FROM_DOWN_TO random_nums key (from - HASH_STRENGTH_FULL - 1) 0 hash)))"

section \<open>Failure of the kernel as a value\<close>

text \<open>
  A \<open>BUG_ON\<close> that fires, a division by zero and an access outside an allocated array
  stop the kernel.  Every modelled function that can reach one of them returns a sum: the
  failure on the left, the result on the right.
\<close>

datatype error = BUG | DIVIDE_ERROR | OUT_OF_BOUNDS | NULL_POINTER | USE_AFTER_FREE

definition ebind :: "error + 'a \<Rightarrow> ('a \<Rightarrow> error + 'b) \<Rightarrow> error + 'b" where
  "ebind m f = (case m of Inl e \<Rightarrow> Inl e | Inr x \<Rightarrow> f x)"

definition BUG_ON :: "bool \<Rightarrow> 'a \<Rightarrow> error + 'a" where
  "BUG_ON c s = (if c then Inl BUG else Inr s)"

text \<open>\<open>for (i = lo; i < hi; i++) body\<close>, for a body that leaves the bound alone.\<close>

function for_loop :: "nat \<Rightarrow> nat \<Rightarrow> (nat \<Rightarrow> 'a \<Rightarrow> error + 'a) \<Rightarrow> 'a \<Rightarrow> error + 'a" where
  "for_loop i hi body s =
     (if i < hi
      then (case body i s of Inl e \<Rightarrow> Inl e | Inr s' \<Rightarrow> for_loop (i + 1) hi body s')
      else Inr s)"
  by pat_completeness auto
termination
  by (relation "measure (\<lambda>(i, hi, body, s). hi - i)") auto

declare for_loop.simps [simp del]

text \<open>Walking a list of objects (\<open>list_for_each_entry\<close>) with a body that may fail.\<close>

fun for_each :: "'b list \<Rightarrow> ('b \<Rightarrow> 'a \<Rightarrow> error + 'a) \<Rightarrow> 'a \<Rightarrow> error + 'a" where
  "for_each [] body s = Inr s"
| "for_each (x # xs) body s =
     (case body x s of Inl e \<Rightarrow> Inl e | Inr s' \<Rightarrow> for_each xs body s')"

section \<open>The data model\<close>

text \<open>
  Pointers to kernel objects are identifiers; each kind of object lives in a store of its
  own, a function from identifiers to records.

  Modelled from the spec: the structures \<open>vma_slot\<close>, \<open>scan_rung\<close>, \<open>rmap_item\<close>,
  \<open>tree_node\<close>, \<open>stable_node\<close> and \<open>node_vma\<close> are declared in
  \<open>include/linux/ksm.h\<close>, which is not part of the source tree under study.  The records
  below have the fields that \<open>mm/ksm.c\<close> reads and writes, typed as the data model of the
  specification describes them.  A field name that two structures share carries a prefix
  in all but one of them.
\<close>

type_synonym page_id = nat
type_synonym slot_id = nat
type_synonym item_id = nat
type_synonym tnode_id = nat
type_synonym snode_id = nat
type_synonym nvma_id = nat

text \<open>
  A red-black tree of embedded \<open>rb_node\<close>s is kept as the binary tree of the objects that
  embed the nodes.  Colours and the rotations of \<open>rb_insert_color\<close> and \<open>rb_erase\<close> are
  left out: they rearrange the tree without changing which objects it holds or their
  order.
\<close>

datatype rb_root = RB_NULL | RB_NODE rb_root nat rb_root

record vma_slot =
  pages :: u64
  pages_scanned :: u64
  last_scanned :: u64
  pages_to_scan :: u64
  pages_merged :: u64
  pages_cowed :: u64
  dedup_ratio :: u64
  ksm_index :: int
  rung :: nat
  slot_scanned :: bool
  fully_scanned :: bool

text \<open>
  \<open>vma_list\<close> is the list of slots linked through their \<open>ksm_list\<close>, first element
  first.  \<open>current_scan\<close> points at the \<open>ksm_list\<close> of a slot, or at the list head
  \<open>&rung->vma_list\<close> itself, which is \<open>None\<close>.
\<close>

record scan_rung =
  vma_list :: "slot_id list"
  current_scan :: "slot_id option"
  scan_ratio :: u64
  vma_num :: u64
  fully_scanned_slots :: u64
  rung_pages_to_scan :: u64
  round_finished :: bool

record rmap_item =
  slot :: slot_id
  address :: u64
  page :: page_id
  hash_max :: u32
  append_round :: u64
  tree_node :: "tnode_id option"
  head :: "nvma_id option"

record tree_node =
  hash :: u32
  count :: u64
  sub_root :: rb_root

record stable_node =
  kpfn :: page_id
  node_hash_max :: u32
  node_tree_node :: "tnode_id option"
  hlist :: "nvma_id list"

text \<open>
  The sort key of a \<open>node_vma\<close> is the address of its slot (\<open>stable_tree_append\<close>
  compares \<open>node_vma->key\<close> with \<open>(unsigned long)rmap_item->slot\<close> and only ever
  assigns \<open>node_vma->slot\<close>), so no separate field is kept for it.
\<close>

record node_vma =
  nv_head :: snode_id
  nv_slot :: slot_id
  last_update :: u64
  rmap_hlist :: "item_id list"

text \<open>
  Modelled from the spec: \<open>page->mapping\<close> of the host's \<open>struct page\<close>, with the
  predicates \<open>PageAnon\<close>, \<open>PageKsm\<close>, \<open>page_stable_node\<close> and the setter
  \<open>set_page_stable_node\<close> of \<open>include/linux/ksm.h\<close> and \<open>include/linux/mm.h\<close>.  A ksm
  page carries the address of its stable node together with the flags
  \<open>PAGE_MAPPING_ANON | PAGE_MAPPING_KSM\<close>; the host resets the field when it frees the
  page.
\<close>

datatype page_mapping = MAPPING_NULL | MAPPING_FILE | MAPPING_ANON | MAPPING_KSM "snode_id option"

datatype rshash_states = RSHASH_STILL | RSHASH_TRYUP | RSHASH_TRYDOWN | RSHASH_NEW | RSHASH_PRE_STILL

datatype rshash_direct = GO_UP | GO_DOWN | OBSCURE | STILL

text \<open>The anonymous structure behind the variable \<open>rshash_state\<close>.\<close>

record rshash_state_t =
  state :: rshash_states
  pre_direct :: rshash_direct
  below_count :: "8 word"
  lookup_window_index :: "8 word"
  stable_benefit :: u64
  turn_point_down :: u64
  turn_benefit_down :: u64
  turn_point_up :: u64
  turn_benefit_up :: u64
  stable_point :: u64

text \<open>
  The global variables of \<open>mm/ksm.c\<close>, the object stores and, of the host, the contents
  and the \<open>mapping\<close> field of every page.  \<open>root_stable_tree\<close> and
  \<open>stable_tree_node_list\<close> stand for \<open>*root_stable_treep\<close> and
  \<open>*stable_tree_node_listp\<close>.  \<open>next_object\<close> is the address that the next successful
  \<open>kmem_cache_alloc\<close> returns.
\<close>

record ksm_state =
  ksm_scan_round :: u64
  ksm_pages_scanned :: u64
  ksm_pages_scanned_last :: u64
  ksm_pages_shared :: u64
  ksm_pages_sharing :: u64
  ksm_pages_unshared :: u64
  ksm_thrash_threshold :: u32
  ksm_inter_vma_table :: "nat \<Rightarrow> u32"
  ksm_vma_table :: "nat \<Rightarrow> slot_id option"
  ksm_vma_table_num :: u64
  ksm_vma_table_index_end :: u64
  ksm_scan_ladder :: "scan_rung list"
  ksm_vma_slot_num :: u64
  root_unstable_tree :: rb_root
  unstable_tree_node_list :: "tnode_id list"
  root_stable_tree :: rb_root
  stable_tree_node_list :: "tnode_id list"
  stable_node_list :: "snode_id list"
  random_nums :: "nat \<Rightarrow> u32"
  hash_strength :: u64
  rshash_pos :: u64
  rshash_neg :: u64
  memcmp_cost :: u64
  hash_strength_delta :: u64
  rshash_neg_cont_zero :: u64
  rshash_cont_obscure :: u64
  rshash_state :: rshash_state_t
  slots :: "slot_id \<Rightarrow> vma_slot"
  rmap_items :: "item_id \<Rightarrow> rmap_item"
  tree_nodes :: "tnode_id \<Rightarrow> tree_node"
  stable_nodes :: "snode_id \<Rightarrow> stable_node"
  node_vmas :: "nvma_id \<Rightarrow> node_vma"
  page_data :: "page_id \<Rightarrow> nat \<Rightarrow> u32"
  page_mapping :: "page_id \<Rightarrow> page_mapping"
  next_object :: nat

definition KSM_DEDUP_RATIO_SCALE :: u64 where
  "KSM_DEDUP_RATIO_SCALE = 100"

definition KSM_SCAN_RATIO_MAX :: u64 where
  "KSM_SCAN_RATIO_MAX = 125"

definition KSM_DUP_VMA_MAX :: nat where
  "KSM_DUP_VMA_MAX = 2048"

definition ksm_vma_table_size :: nat where
  "ksm_vma_table_size = 2048"

text \<open>
  The number of \<open>unsigned int\<close> counters that \<open>ksm_init\<close> allocates for
  \<open>ksm_inter_vma_table\<close>: \<open>allocsize / sizeof(unsigned int)\<close>.
\<close>

definition ksm_inter_vma_table_len :: nat where
  "ksm_inter_vma_table_len = KSM_DUP_VMA_MAX * KSM_DUP_VMA_MAX div 2"

section \<open>The inter-vma duplication table\<close>

text \<open>Array accesses check the index against the allocated length.\<close>

definition vma_table_read :: "ksm_state \<Rightarrow> nat \<Rightarrow> error + slot_id option" where
  "vma_table_read s i =
     (if i < ksm_vma_table_size then Inr (ksm_vma_table s i) else Inl OUT_OF_BOUNDS)"

definition vma_table_write :: "nat \<Rightarrow> slot_id option \<Rightarrow> ksm_state \<Rightarrow> error + ksm_state" where
  "vma_table_write i v s =
     (if i < ksm_vma_table_size
      then Inr (s\<lparr>ksm_vma_table := (ksm_vma_table s)(i := v)\<rparr>)
      else Inl OUT_OF_BOUNDS)"

definition inter_vma_table_read :: "ksm_state \<Rightarrow> nat \<Rightarrow> error + u32" where
  "inter_vma_table_read s i =
     (if i < ksm_inter_vma_table_len then Inr (ksm_inter_vma_table s i) else Inl OUT_OF_BOUNDS)"

definition inter_vma_table_write :: "nat \<Rightarrow> u32 \<Rightarrow> ksm_state \<Rightarrow> error + ksm_state" where
  "inter_vma_table_write i v s =
     (if i < ksm_inter_vma_table_len
      then Inr (s\<lparr>ksm_inter_vma_table := (ksm_inter_vma_table s)(i := v)\<rparr>)
      else Inl OUT_OF_BOUNDS)"

text \<open>
  The search loop of \<open>enter_inter_vma_table\<close>:
  \<open>for (i = 0; i <= ksm_vma_table_size; i++) if (!ksm_vma_table[i]) break;\<close>
\<close>

function first_free_index :: "ksm_state \<Rightarrow> nat \<Rightarrow> error + nat" where
  "first_free_index s i =
     (if i \<le> ksm_vma_table_size
      then (case vma_table_read s i of
              Inl e \<Rightarrow> Inl e
            | Inr None \<Rightarrow> Inr i
            | Inr (Some other) \<Rightarrow> first_free_index s (i + 1))
      else Inr i)"
  by pat_completeness auto
termination
  by (relation "measure (\<lambda>(s, i). ksm_vma_table_size + 1 - i)") auto

declare first_free_index.simps [simp del]

definition enter_inter_vma_table :: "slot_id \<Rightarrow> ksm_state \<Rightarrow> error + ksm_state" where
  "enter_inter_vma_table sl s =
     ebind (first_free_index s 0) (\<lambda>i.
     ebind (vma_table_read s i) (\<lambda>entry.
     ebind (BUG_ON (entry \<noteq> None) s) (\<lambda>s.
     ebind (vma_table_write i (Some sl)
              (s\<lparr>slots := (slots s)(sl := (slots s sl)\<lparr>ksm_index := int i\<rparr>)\<rparr>)) (\<lambda>s.
     ebind (BUG_ON (of_nat i > ksm_vma_table_index_end s)
              (s\<lparr>ksm_vma_table_num := ksm_vma_table_num s + 1\<rparr>)) (\<lambda>s.
     let s = (if of_nat i = ksm_vma_table_index_end s
              then s\<lparr>ksm_vma_table_index_end := ksm_vma_table_index_end s + 1\<rparr>
              else s)
     in BUG_ON (ksm_vma_table_index_end s > of_nat (ksm_vma_table_size - 1)) s)))))"

text \<open>
  \<open>intertab_vma_offset\<close> computes on \<open>int\<close> and returns \<open>unsigned int\<close>; its callers
  use the result as an array index.
\<close>

definition intertab_vma_offset :: "int \<Rightarrow> int \<Rightarrow> nat" where
  "intertab_vma_offset i j =
     (let (i, j) = (if i < j then (j, i) else (i, j))
      in unat (word_of_int (i * (i + 1) div 2 + j) :: u32))"

definition inc_vma_intertab_pair :: "slot_id \<Rightarrow> slot_id \<Rightarrow> ksm_state \<Rightarrow> error + ksm_state" where
  "inc_vma_intertab_pair slot1 slot2 s =
     ebind (if ksm_index (slots s slot1) = -1 then enter_inter_vma_table slot1 s else Inr s) (\<lambda>s.
     ebind (if ksm_index (slots s slot2) = -1 then enter_inter_vma_table slot2 s else Inr s) (\<lambda>s.
     let offset = intertab_vma_offset (ksm_index (slots s slot1)) (ksm_index (slots s slot2))
     in ebind (inter_vma_table_read s offset) (\<lambda>v.
        ebind (inter_vma_table_write offset (v + 1) s) (\<lambda>s.
        BUG_ON (v + 1 = 0) s))))"

definition dec_vma_intertab_pair :: "slot_id \<Rightarrow> slot_id \<Rightarrow> ksm_state \<Rightarrow> error + ksm_state" where
  "dec_vma_intertab_pair slot1 slot2 s =
     ebind (BUG_ON (ksm_index (slots s slot1) = -1 \<or> ksm_index (slots s slot2) = -1) s) (\<lambda>s.
     let offset = intertab_vma_offset (ksm_index (slots s slot1)) (ksm_index (slots s slot2))
     in ebind (inter_vma_table_read s offset) (\<lambda>v.
        ebind (BUG_ON (v = 0) s) (\<lambda>s.
        inter_vma_table_write offset (v - 1) s)))"

definition ksm_intertab_clear :: "slot_id \<Rightarrow> ksm_state \<Rightarrow> error + ksm_state" where
  "ksm_intertab_clear sl s =
     (let idx = ksm_index (slots s sl);
          clear = (\<lambda>i s. inter_vma_table_write (intertab_vma_offset idx (int i)) 0 s)
      in ebind (for_loop 0 (nat (idx + 1)) clear s) (\<lambda>s.
         for_loop (nat (idx + 1)) (unat (ksm_vma_table_index_end s)) clear s))"

section \<open>The host memory manager\<close>

text \<open>
  The page tables, the page and semaphore locks, the reference counts and the slab
  allocator belong to the host.  What they answer during one step of the scanner is a
  parameter of the model, a record of functions:
  \<^item> \<open>get_page_unless_zero\<close>: the reference count of the page was not zero;
  \<^item> \<open>ksm_test_exit\<close>: the address space of the slot's area is exiting;
  \<^item> \<open>trylock_page\<close>: the page lock was free;
  \<^item> \<open>write_protect_page\<close>, \<open>replace_page\<close>, \<open>restore_ksm_page_pte\<close>: these functions
    of \<open>mm/ksm.c\<close> walk and rewrite the page tables of the host and report whether they
    succeeded (they return 0); the model takes that report and keeps no page tables;
  \<^item> \<open>mmap_sem_trylock\<close>: \<open>try_down_read_slot_mmap_sem\<close> returned 0;
  \<^item> \<open>page_mapped_at\<close>: the page cached in the rmap item still belongs to the item's
    area at the item's address (the last test of \<open>get_mergeable_page_lock_mmap\<close>);
  \<^item> \<open>pte_write_protected\<close>: \<open>page_check_address\<close> found the page table entry of the
    rmap item and the entry is not writable (the two tests of \<open>try_merge_with_stable\<close>);
  \<^item> \<open>kmem_cache_alloc\<close>: the allocation that would return the given address succeeds.
\<close>

record host =
  get_page_unless_zero :: "page_id \<Rightarrow> bool"
  ksm_test_exit :: "slot_id \<Rightarrow> bool"
  trylock_page :: "page_id \<Rightarrow> bool"
  write_protect_page :: "slot_id \<Rightarrow> page_id \<Rightarrow> bool"
  replace_page :: "slot_id \<Rightarrow> page_id \<Rightarrow> page_id \<Rightarrow> bool"
  restore_ksm_page_pte :: "item_id \<Rightarrow> bool"
  mmap_sem_trylock :: "slot_id \<Rightarrow> bool"
  page_mapped_at :: "item_id \<Rightarrow> bool"
  pte_write_protected :: "item_id \<Rightarrow> page_id \<Rightarrow> bool"
  kmem_cache_alloc :: "nat \<Rightarrow> bool"

definition PageAnon :: "ksm_state \<Rightarrow> page_id \<Rightarrow> bool" where
  "PageAnon s p = (case page_mapping s p of MAPPING_ANON \<Rightarrow> True | MAPPING_KSM n \<Rightarrow> True | _ \<Rightarrow> False)"

definition PageKsm :: "ksm_state \<Rightarrow> page_id \<Rightarrow> bool" where
  "PageKsm s p = (case page_mapping s p of MAPPING_KSM n \<Rightarrow> True | _ \<Rightarrow> False)"

definition page_stable_node :: "ksm_state \<Rightarrow> page_id \<Rightarrow> snode_id option" where
  "page_stable_node s p = (case page_mapping s p of MAPPING_KSM n \<Rightarrow> n | _ \<Rightarrow> None)"

definition set_page_stable_node :: "page_id \<Rightarrow> snode_id option \<Rightarrow> ksm_state \<Rightarrow> ksm_state" where
  "set_page_stable_node p n s = s\<lparr>page_mapping := (page_mapping s)(p := MAPPING_KSM n)\<rparr>"

section \<open>Flags, error codes and tree primitives\<close>

definition UNSTABLE_FLAG :: u64 where
  "UNSTABLE_FLAG = 1"

definition STABLE_FLAG :: u64 where
  "STABLE_FLAG = 2"

definition PAGE_MASK :: u64 where
  "PAGE_MASK = NOT (of_nat PAGE_SIZE - 1)"

definition MERGE_ERR_PGERR :: int where
  "MERGE_ERR_PGERR = 1"

definition MERGE_ERR_COLLI :: int where
  "MERGE_ERR_COLLI = 2"

definition MERGE_ERR_CHANGED :: int where
  "MERGE_ERR_CHANGED = 3"

definition EBUSY :: int where
  "EBUSY = 16"

definition EINVAL :: int where
  "EINVAL = 22"

definition hash_cmp :: "u32 \<Rightarrow> u32 \<Rightarrow> int" where
  "hash_cmp new_val node_val =
     (if new_val > node_val then 1 else if new_val < node_val then -1 else 0)"

text \<open>
  The descent \<open>while (node) { cmp = hash_cmp(val, key of node); ... }\<close> that all
  searches share: it stops at the object whose key equals \<open>val\<close>, or falls off the tree.
\<close>

fun rb_search :: "(nat \<Rightarrow> u32) \<Rightarrow> u32 \<Rightarrow> rb_root \<Rightarrow> nat option" where
  "rb_search keyf val RB_NULL = None"
| "rb_search keyf val (RB_NODE l x r) =
     (let cmp = hash_cmp val (keyf x)
      in if cmp < 0 then rb_search keyf val l
         else if cmp > 0 then rb_search keyf val r
         else Some x)"

text \<open>
  \<open>rb_link_node\<close> at the empty link where the same descent fell off the tree, followed by
  \<open>rb_insert_color\<close>.  The caller has checked that no object with an equal key is on
  the path.
\<close>

fun rb_insert :: "(nat \<Rightarrow> u32) \<Rightarrow> u32 \<Rightarrow> nat \<Rightarrow> rb_root \<Rightarrow> rb_root" where
  "rb_insert keyf val new RB_NULL = RB_NODE RB_NULL new RB_NULL"
| "rb_insert keyf val new (RB_NODE l x r) =
     (if hash_cmp val (keyf x) < 0 then RB_NODE (rb_insert keyf val new l) x r
      else RB_NODE l x (rb_insert keyf val new r))"

text \<open>
  \<open>rb_link_node(new, parent, &parent->rb_left)\<close> or \<open>&parent->rb_right\<close>: the child
  link of the object \<open>parent\<close> is overwritten.
\<close>

fun rb_link_child :: "nat \<Rightarrow> bool \<Rightarrow> nat \<Rightarrow> rb_root \<Rightarrow> rb_root" where
  "rb_link_child parent left new RB_NULL = RB_NULL"
| "rb_link_child parent left new (RB_NODE l x r) =
     (if x = parent
      then (if left then RB_NODE (RB_NODE RB_NULL new RB_NULL) x r
            else RB_NODE l x (RB_NODE RB_NULL new RB_NULL))
      else RB_NODE (rb_link_child parent left new l) x (rb_link_child parent left new r))"

fun rb_leftmost :: "rb_root \<Rightarrow> nat option" where
  "rb_leftmost RB_NULL = None"
| "rb_leftmost (RB_NODE RB_NULL x r) = Some x"
| "rb_leftmost (RB_NODE l x r) = rb_leftmost l"

fun rb_drop_leftmost :: "rb_root \<Rightarrow> rb_root" where
  "rb_drop_leftmost RB_NULL = RB_NULL"
| "rb_drop_leftmost (RB_NODE RB_NULL x r) = r"
| "rb_drop_leftmost (RB_NODE l x r) = RB_NODE (rb_drop_leftmost l) x r"

text \<open>\<open>rb_erase\<close> takes the object out and keeps the others in order.\<close>

fun rb_erase :: "nat \<Rightarrow> rb_root \<Rightarrow> rb_root" where
  "rb_erase node RB_NULL = RB_NULL"
| "rb_erase node (RB_NODE l x r) =
     (if x = node
      then (case rb_leftmost r of
              None \<Rightarrow> l
            | Some m \<Rightarrow> RB_NODE l m (rb_drop_leftmost r))
      else RB_NODE (rb_erase node l) x (rb_erase node r))"

text \<open>\<open>rb_entry(root->rb_node, ...)\<close>: the object at the root.\<close>

definition rb_root_entry :: "rb_root \<Rightarrow> nat option" where
  "rb_root_entry t = (case t of RB_NULL \<Rightarrow> None | RB_NODE l x r \<Rightarrow> Some x)"

text \<open>
  \<open>free_tree_node\<close> unlinks the node from the list that holds it, one of the two below.
\<close>

definition free_tree_node :: "tnode_id \<Rightarrow> ksm_state \<Rightarrow> ksm_state" where
  "free_tree_node t s =
     s\<lparr>unstable_tree_node_list := remove1 t (unstable_tree_node_list s),
       stable_tree_node_list := remove1 t (stable_tree_node_list s)\<rparr>"

definition free_stable_node :: "snode_id \<Rightarrow> ksm_state \<Rightarrow> ksm_state" where
  "free_stable_node n s = s\<lparr>stable_node_list := remove1 n (stable_node_list s)\<rparr>"

section \<open>Removing from the stable and the unstable tree\<close>

text \<open>
  The inner loop of \<open>remove_node_from_stable_tree\<close> over the rmap items of one
  \<open>node_vma\<close>, and the outer loop over the \<open>node_vma\<close>s of the stable node.
  \<open>drop_anon_vma\<close> only touches the host's \<open>anon_vma\<close>.
\<close>

fun drop_rmap_items :: "item_id list \<Rightarrow> ksm_state \<Rightarrow> ksm_state" where
  "drop_rmap_items [] s = s"
| "drop_rmap_items (it # its) s =
     drop_rmap_items its
       (s\<lparr>ksm_pages_sharing := ksm_pages_sharing s - 1,
          rmap_items := (rmap_items s)
            (it := (rmap_items s it)\<lparr>address := address (rmap_items s it) AND PAGE_MASK\<rparr>)\<rparr>)"

fun drop_node_vmas :: "nvma_id list \<Rightarrow> ksm_state \<Rightarrow> ksm_state" where
  "drop_node_vmas [] s = s"
| "drop_node_vmas (nv # nvs) s =
     drop_node_vmas nvs (drop_rmap_items (rmap_hlist (node_vmas s nv)) s)"

definition remove_node_from_stable_tree ::
  "snode_id \<Rightarrow> bool \<Rightarrow> bool \<Rightarrow> ksm_state \<Rightarrow> ksm_state" where
  "remove_node_from_stable_tree sn unlink_rb remove_tree_node s =
     (let s = (if hlist (stable_nodes s sn) \<noteq> []
               then (let s = drop_node_vmas (hlist (stable_nodes s sn)) s
                     in s\<lparr>ksm_pages_shared := ksm_pages_shared s - 1,
                          ksm_pages_sharing := ksm_pages_sharing s + 1\<rparr>)
               else s);
          s = (case node_tree_node (stable_nodes s sn) of
                 Some t \<Rightarrow>
                   if unlink_rb
                   then (let sub = rb_erase sn (sub_root (tree_nodes s t));
                             s = s\<lparr>tree_nodes := (tree_nodes s)
                                    (t := (tree_nodes s t)\<lparr>sub_root := sub\<rparr>)\<rparr>
                         in if sub = RB_NULL \<and> remove_tree_node
                            then free_tree_node t
                                   (s\<lparr>root_stable_tree := rb_erase t (root_stable_tree s)\<rparr>)
                            else s\<lparr>tree_nodes := (tree_nodes s)
                                    (t := (tree_nodes s t)\<lparr>count := count (tree_nodes s t) - 1\<rparr>)\<rparr>)
                   else s
               | None \<Rightarrow> s)
      in free_stable_node sn s)"

text \<open>
  \<open>get_ksm_page\<close>: the keyhole check.  The page is returned when its \<open>mapping\<close> still
  names the stable node and a reference could be taken; otherwise the stale node is
  removed and the result is \<open>NULL\<close>.
\<close>

definition get_ksm_page ::
  "host \<Rightarrow> snode_id \<Rightarrow> bool \<Rightarrow> bool \<Rightarrow> ksm_state \<Rightarrow> page_id option \<times> ksm_state" where
  "get_ksm_page h sn unlink_rb remove_tree_node s =
     (let p = kpfn (stable_nodes s sn)
      in if page_mapping s p = MAPPING_KSM (Some sn) \<and> get_page_unless_zero h p
         then (Some p, s)
         else (None, remove_node_from_stable_tree sn unlink_rb remove_tree_node s))"

definition remove_rmap_item_from_tree :: "host \<Rightarrow> item_id \<Rightarrow> ksm_state \<Rightarrow> error + ksm_state" where
  "remove_rmap_item_from_tree h it s =
     (let clean = (\<lambda>s. s\<lparr>rmap_items := (rmap_items s)
                     (it := (rmap_items s it)
                        \<lparr>address := address (rmap_items s it) AND PAGE_MASK, hash_max := 0\<rparr>)\<rparr>)
      in if address (rmap_items s it) AND STABLE_FLAG \<noteq> 0 then
           (case head (rmap_items s it) of
              None \<Rightarrow> Inl NULL_POINTER
            | Some nv \<Rightarrow>
                let sn = nv_head (node_vmas s nv)
                in (case get_ksm_page h sn True True s of
                      (None, s) \<Rightarrow> Inr s
                    | (Some p, s) \<Rightarrow>
                        let rest = remove1 it (rmap_hlist (node_vmas s nv));
                            s = s\<lparr>node_vmas := (node_vmas s)
                                   (nv := (node_vmas s nv)\<lparr>rmap_hlist := rest\<rparr>)\<rparr>;
                            s = (if rest = []
                                 then s\<lparr>stable_nodes := (stable_nodes s)
                                        (sn := (stable_nodes s sn)
                                           \<lparr>hlist := remove1 nv (hlist (stable_nodes s sn))\<rparr>)\<rparr>
                                 else s);
                            s = (if hlist (stable_nodes s sn) = []
                                 then s\<lparr>ksm_pages_shared := ksm_pages_shared s - 1\<rparr>
                                 else s\<lparr>ksm_pages_sharing := ksm_pages_sharing s - 1\<rparr>)
                        in Inr (clean s)))
         else if address (rmap_items s it) AND UNSTABLE_FLAG \<noteq> 0 then
           (if append_round (rmap_items s it) = ksm_scan_round s
            then (case tree_node (rmap_items s it) of
                    None \<Rightarrow> Inl NULL_POINTER
                  | Some t \<Rightarrow>
                      let sub = rb_erase it (sub_root (tree_nodes s t));
                          s = s\<lparr>tree_nodes := (tree_nodes s)
                                 (t := (tree_nodes s t)\<lparr>sub_root := sub\<rparr>)\<rparr>;
                          s = (if sub = RB_NULL
                               then free_tree_node t
                                      (s\<lparr>root_unstable_tree := rb_erase t (root_unstable_tree s)\<rparr>)
                               else s\<lparr>tree_nodes := (tree_nodes s)
                                      (t := (tree_nodes s t)\<lparr>count := count (tree_nodes s t) - 1\<rparr>)\<rparr>)
                      in Inr (clean (s\<lparr>ksm_pages_unshared := ksm_pages_unshared s - 1\<rparr>)))
            else Inr (clean (s\<lparr>ksm_pages_unshared := ksm_pages_unshared s - 1\<rparr>)))
         else Inr (clean s))"

section \<open>Hashing and comparing pages with cost accounting\<close>

definition page_hash :: "page_id \<Rightarrow> u64 \<Rightarrow> bool \<Rightarrow> ksm_state \<Rightarrow> error + (u32 \<times> ksm_state)" where
  "page_hash pg strength cost_accounting s =
     (let val = random_sample_hash (random_nums s) (page_data s pg) (uint strength)
      in if cost_accounting
         then (let tmp = rshash_pos s;
                   s = s\<lparr>rshash_pos := rshash_pos s + (word_of_int HASH_STRENGTH_FULL - strength)\<rparr>
               in ebind (BUG_ON (tmp > rshash_pos s) s) (\<lambda>s. Inr (val, s)))
         else Inr (val, s))"

text \<open>
  \<open>pages_identical\<close> is \<open>!memcmp_pages(page1, page2, 0)\<close>: the two pages hold the same
  \<open>PAGE_SIZE\<close> bytes.  \<open>memcmp_pages\<close> returns whether \<open>memcmp\<close> was non-zero.
\<close>

definition pages_identical :: "ksm_state \<Rightarrow> page_id \<Rightarrow> page_id \<Rightarrow> bool" where
  "pages_identical s page1 page2 =
     (\<forall>i < PAGE_SIZE div 4. page_data s page1 i = page_data s page2 i)"

definition memcmp_pages ::
  "page_id \<Rightarrow> page_id \<Rightarrow> bool \<Rightarrow> ksm_state \<Rightarrow> bool \<times> ksm_state" where
  "memcmp_pages page1 page2 cost_accounting s =
     (\<not> pages_identical s page1 page2,
      if cost_accounting then s\<lparr>rshash_neg := rshash_neg s + memcmp_cost s\<rparr> else s)"

definition page_hash_max :: "page_id \<Rightarrow> u32 \<Rightarrow> ksm_state \<Rightarrow> u32 \<times> ksm_state" where
  "page_hash_max pg hash_old s =
     (let hm = delta_hash (random_nums s) (page_data s pg) (uint (hash_strength s))
                 HASH_STRENGTH_MAX hash_old;
          hm = (if hm = 0 then 1 else hm)
      in (hm, s\<lparr>rshash_neg := rshash_neg s + (word_of_int HASH_STRENGTH_MAX - hash_strength s)\<rparr>))"

definition rmap_item_hash_max :: "item_id \<Rightarrow> u32 \<Rightarrow> ksm_state \<Rightarrow> u32 \<times> ksm_state" where
  "rmap_item_hash_max it hsh s =
     (if hash_max (rmap_items s it) = 0
      then (let (hm, s) = page_hash_max (page (rmap_items s it)) hsh s
            in (hm, s\<lparr>rmap_items := (rmap_items s)(it := (rmap_items s it)\<lparr>hash_max := hm\<rparr>)\<rparr>))
      else (hash_max (rmap_items s it), s))"

definition stable_node_hash_max :: "snode_id \<Rightarrow> page_id \<Rightarrow> u32 \<Rightarrow> ksm_state \<Rightarrow> ksm_state" where
  "stable_node_hash_max sn pg hsh s =
     (if node_hash_max (stable_nodes s sn) = 0
      then (let (hm, s) = page_hash_max pg hsh s
            in s\<lparr>stable_nodes := (stable_nodes s)
                   (sn := (stable_nodes s sn)\<lparr>node_hash_max := hm\<rparr>)\<rparr>)
      else s)"

definition check_collision :: "item_id \<Rightarrow> u32 \<Rightarrow> ksm_state \<Rightarrow> error + (int \<times> ksm_state)" where
  "check_collision it hsh s =
     (let pg = page (rmap_items s it)
      in if hash_max (rmap_items s it) \<noteq> 0 then
           (let tmp = rshash_neg s;
                s = s\<lparr>rshash_neg := rshash_neg s + memcmp_cost s\<rparr>;
                s = s\<lparr>rshash_neg := rshash_neg s + (word_of_int HASH_STRENGTH_MAX - hash_strength s)\<rparr>
            in ebind (BUG_ON (tmp > rshash_neg s) s) (\<lambda>s.
               let (hm, s) = page_hash_max pg hsh s
               in Inr (if hash_max (rmap_items s it) = hm then MERGE_ERR_COLLI
                       else MERGE_ERR_CHANGED, s)))
         else
           (let tmp = rshash_neg s;
                s = s\<lparr>rshash_neg := rshash_neg s + (memcmp_cost s + hash_strength s)\<rparr>
            in ebind (BUG_ON (tmp > rshash_neg s) s) (\<lambda>s.
               ebind (page_hash pg (hash_strength s) False s) (\<lambda>(val, s).
               Inr (if val = hsh then MERGE_ERR_COLLI else MERGE_ERR_CHANGED, s)))))"

section \<open>Merging a page with a ksm page, and two pages with each other\<close>

text \<open>
  \<open>try_to_merge_with_ksm_page\<close> is only called with a \<open>kpage\<close> that is not \<open>NULL\<close>; its
  branch for \<open>!kpage\<close> lies behind the test \<open>PageKsm(kpage)\<close> and is left out.  Locking
  and \<open>mlock\<close> bookkeeping change no variable of the engine.
\<close>

definition try_to_merge_with_ksm_page ::
  "host \<Rightarrow> item_id \<Rightarrow> page_id \<Rightarrow> u32 \<Rightarrow> ksm_state \<Rightarrow> error + (int \<times> ksm_state)" where
  "try_to_merge_with_ksm_page h it kpage hsh s =
     (let sl = slot (rmap_items s it);
          pg = page (rmap_items s it)
      in if ksm_test_exit h sl then Inr (MERGE_ERR_PGERR, s)
         else if pg = kpage then Inr (0, s)
         else if \<not> PageAnon s pg \<or> \<not> PageKsm s kpage then Inr (MERGE_ERR_PGERR, s)
         else if \<not> trylock_page h pg then Inr (MERGE_ERR_PGERR, s)
         else if write_protect_page h sl pg then
           (if pages_identical s pg kpage
            then Inr (if replace_page h sl pg kpage then 0 else MERGE_ERR_PGERR, s)
            else check_collision it hsh s)
         else Inr (MERGE_ERR_PGERR, s))"

definition try_to_merge_two_pages ::
  "host \<Rightarrow> item_id \<Rightarrow> item_id \<Rightarrow> u32 \<Rightarrow> ksm_state \<Rightarrow> error + (int \<times> ksm_state)" where
  "try_to_merge_two_pages h it tree_it hsh s =
     (let vma1 = slot (rmap_items s it);
          vma2 = slot (rmap_items s tree_it);
          pg = page (rmap_items s it);
          tree_page = page (rmap_items s tree_it);
          restore_out = (\<lambda>err saved_mapping s.
             Inr (err, if restore_ksm_page_pte h it
                       then s\<lparr>page_mapping := (page_mapping s)(pg := saved_mapping)\<rparr>
                       else s))
      in if pg = tree_page then Inr (MERGE_ERR_PGERR, s)
         else if \<not> PageAnon s pg \<or> \<not> PageAnon s tree_page then Inr (MERGE_ERR_PGERR, s)
         else if \<not> trylock_page h pg then Inr (MERGE_ERR_PGERR, s)
         else if \<not> write_protect_page h vma1 pg then Inr (MERGE_ERR_PGERR, s)
         else
           (let saved_mapping = page_mapping s pg;
                s = set_page_stable_node pg None s
            in if \<not> trylock_page h tree_page then restore_out MERGE_ERR_PGERR saved_mapping s
               else if \<not> write_protect_page h vma2 tree_page
               then restore_out MERGE_ERR_PGERR saved_mapping s
               else if pages_identical s pg tree_page then
                 (if replace_page h vma2 tree_page pg then Inr (0, s)
                  else restore_out MERGE_ERR_PGERR saved_mapping s)
               else
                 ebind (page_hash pg (hash_strength s) False s) (\<lambda>(val1, s).
                 ebind (page_hash tree_page (hash_strength s) False s) (\<lambda>(val2, s).
                 if val1 = val2
                 then restore_out MERGE_ERR_COLLI saved_mapping
                        (s\<lparr>rshash_neg := rshash_neg s + (memcmp_cost s + hash_strength s * 2)\<rparr>)
                 else restore_out MERGE_ERR_CHANGED saved_mapping s))))"

section \<open>Searching the stable tree\<close>

definition stable_tree_search ::
  "host \<Rightarrow> item_id \<Rightarrow> u32 \<Rightarrow> ksm_state \<Rightarrow> error + (page_id option \<times> ksm_state)" where
  "stable_tree_search h it hsh s =
     (let pg = page (rmap_items s it)
      in case page_stable_node s pg of
           Some sn \<Rightarrow> Inr (Some pg, s)
         | None \<Rightarrow>
            (case rb_search (\<lambda>t. hash (tree_nodes s t)) hsh (root_stable_tree s) of
               None \<Rightarrow> Inr (None, s)
             | Some t \<Rightarrow>
                 if count (tree_nodes s t) = 1 then
                   (case rb_root_entry (sub_root (tree_nodes s t)) of
                      None \<Rightarrow> Inl BUG
                    | Some sn \<Rightarrow> Inr (get_ksm_page h sn True True s))
                 else if sub_root (tree_nodes s t) = RB_NULL then Inl BUG
                 else
                   (let (hm, s) = rmap_item_hash_max it hsh s
                    in case rb_search (\<lambda>n. node_hash_max (stable_nodes s n)) hm
                              (sub_root (tree_nodes s t)) of
                         None \<Rightarrow> Inr (None, s)
                       | Some sn \<Rightarrow> Inr (get_ksm_page h sn True True s))))"

section \<open>Inserting into the stable tree\<close>

definition try_merge_with_stable ::
  "host \<Rightarrow> ksm_state \<Rightarrow> item_id \<Rightarrow> item_id \<Rightarrow> page_id \<Rightarrow> page_id \<Rightarrow> bool \<times> bool" where
  "try_merge_with_stable h s item1 item2 oldpage tree_page =
     (if oldpage = tree_page then (True, True)
      else if \<not> PageAnon s oldpage \<or> \<not> PageKsm s oldpage then (False, False)
      else if \<not> pte_write_protected h item1 oldpage then (False, False)
      else if \<not> pte_write_protected h item2 oldpage then (True, False)
      else (True, True))"

text \<open>
  \<open>alloc_tree_node\<close> returns a zeroed node, linked at the head of the given list
  (\<open>True\<close>: the list of the stable tree, \<open>False\<close>: the list of the unstable tree), or
  \<open>NULL\<close>.
\<close>

definition alloc_tree_node :: "host \<Rightarrow> bool \<Rightarrow> ksm_state \<Rightarrow> tnode_id option \<times> ksm_state" where
  "alloc_tree_node h for_stable s =
     (let t = next_object s
      in if kmem_cache_alloc h t
         then (Some t,
               (if for_stable then s\<lparr>stable_tree_node_list := t # stable_tree_node_list s\<rparr>
                else s\<lparr>unstable_tree_node_list := t # unstable_tree_node_list s\<rparr>)
               \<lparr>tree_nodes := (tree_nodes s)(t := \<lparr>hash = 0, count = 0, sub_root = RB_NULL\<rparr>),
                next_object := t + 1\<rparr>)
         else (None, s))"

definition new_stable_node ::
  "host \<Rightarrow> tnode_id \<Rightarrow> page_id \<Rightarrow> u32 \<Rightarrow> ksm_state \<Rightarrow> snode_id option \<times> ksm_state" where
  "new_stable_node h t kpage hm s =
     (let n = next_object s
      in if kmem_cache_alloc h n
         then (Some n,
               set_page_stable_node kpage (Some n)
                 (s\<lparr>stable_node_list := n # stable_node_list s,
                    stable_nodes := (stable_nodes s)
                      (n := \<lparr>kpfn = kpage, node_hash_max = hm, node_tree_node = Some t, hlist = []\<rparr>),
                    next_object := n + 1\<rparr>))
         else (None, s))"

text \<open>The common tail of the insert functions: link the new stable node, count it.\<close>

definition link_stable_node ::
  "tnode_id \<Rightarrow> rb_root \<Rightarrow> ksm_state \<Rightarrow> ksm_state" where
  "link_stable_node t sub s =
     s\<lparr>tree_nodes := (tree_nodes s)
          (t := (tree_nodes s t)\<lparr>sub_root := sub, count := count (tree_nodes s t) + 1\<rparr>)\<rparr>"

definition first_level_insert ::
  "host \<Rightarrow> tnode_id \<Rightarrow> item_id \<Rightarrow> item_id \<Rightarrow> page_id \<Rightarrow> u32 \<Rightarrow> ksm_state
     \<Rightarrow> error + (snode_id option \<times> bool \<times> bool \<times> ksm_state)" where
  "first_level_insert h t it tree_it kpage hsh s =
     (case rb_root_entry (sub_root (tree_nodes s t)) of
        None \<Rightarrow> Inl NULL_POINTER
      | Some sn \<Rightarrow>
         (case get_ksm_page h sn True False s of
            (Some tree_page, s) \<Rightarrow>
              (let (differ, s) = memcmp_pages kpage tree_page True s
               in if \<not> differ then
                    (let (success1, success2) = try_merge_with_stable h s it tree_it kpage tree_page
                     in if \<not> success1 \<and> \<not> success2 then Inr (None, success1, success2, s)
                        else Inr (Some sn, success1, success2, s))
                  else
                    (let s = stable_node_hash_max sn tree_page (hash (tree_nodes s t)) s;
                         (hm, s) = rmap_item_hash_max it hsh s;
                         cmp = hash_cmp hm (node_hash_max (stable_nodes s sn))
                     in if cmp = 0 then Inr (None, False, False, s)
                        else (case new_stable_node h t kpage hm s of
                                (None, s) \<Rightarrow> Inr (None, False, False, s)
                              | (Some new_snode, s) \<Rightarrow>
                                  Inr (Some new_snode, True, True,
                                       link_stable_node t
                                         (rb_link_child sn (cmp < 0) new_snode
                                            (sub_root (tree_nodes s t))) s))))
          | (None, s) \<Rightarrow>
              (case new_stable_node h t kpage 0 s of
                 (None, s) \<Rightarrow> Inr (None, False, False, s)
               | (Some new_snode, s) \<Rightarrow>
                   Inr (Some new_snode, True, True,
                        link_stable_node t (RB_NODE RB_NULL new_snode RB_NULL) s))))"

fun rb_size :: "rb_root \<Rightarrow> nat" where
  "rb_size RB_NULL = 0"
| "rb_size (RB_NODE l x r) = rb_size l + 1 + rb_size r"

text \<open>
  \<open>stable_subtree_insert\<close>.  \<open>research\<close> tells whether the descent starts at the label
  \<open>research\<close> (with its \<open>BUG_ON\<close>) or at the reset of \<open>parent\<close> and \<open>new\<close> in the branch
  that reuses the tree node (the item caches its \<open>hash_max\<close>, so computing it again at
  the restart changes nothing).  A descent starts again only after \<open>get_ksm_page\<close> removed
  a stale stable node.  Should that node still be linked below the tree node, the C code
  would reach the freed node again; the model stops with \<open>USE_AFTER_FREE\<close>.
\<close>

function stable_subtree_insert ::
  "host \<Rightarrow> bool \<Rightarrow> tnode_id \<Rightarrow> item_id \<Rightarrow> item_id \<Rightarrow> page_id \<Rightarrow> u32 \<Rightarrow> ksm_state
     \<Rightarrow> error + (snode_id option \<times> bool \<times> bool \<times> ksm_state)" where
  "stable_subtree_insert h research t it tree_it kpage hsh s =
     (if research \<and> sub_root (tree_nodes s t) = RB_NULL then Inl BUG
      else
        (case rmap_item_hash_max it hsh s of (hm, s1) \<Rightarrow>
           (case rb_search (\<lambda>n. node_hash_max (stable_nodes s1 n)) hm (sub_root (tree_nodes s1 t)) of
              None \<Rightarrow>
                (case new_stable_node h t kpage hm s1 of
                   (None, s2) \<Rightarrow> Inr (None, False, False, s2)
                 | (Some new_snode, s2) \<Rightarrow>
                     Inr (Some new_snode, True, True,
                          link_stable_node t
                            (rb_insert (\<lambda>n. node_hash_max (stable_nodes s2 n)) hm new_snode
                               (sub_root (tree_nodes s2 t))) s2))
            | Some sn \<Rightarrow>
                (case get_ksm_page h sn True False s1 of
                   (Some tree_page, s2) \<Rightarrow>
                     (case memcmp_pages kpage tree_page True s2 of (differ, s3) \<Rightarrow>
                        if \<not> differ then
                          (case try_merge_with_stable h s3 it tree_it kpage tree_page of
                             (success1, success2) \<Rightarrow>
                               if \<not> success1 \<and> \<not> success2 then Inr (None, success1, success2, s3)
                               else Inr (Some sn, success1, success2, s3))
                        else Inr (None, False, False, s3))
                 | (None, s2) \<Rightarrow>
                     if rb_size (sub_root (tree_nodes s2 t)) < rb_size (sub_root (tree_nodes s t))
                     then stable_subtree_insert h (count (tree_nodes s2 t) \<noteq> 0) t it tree_it kpage hsh s2
                     else Inl USE_AFTER_FREE))))"
  by pat_completeness auto
termination
  by (relation "measure (\<lambda>(h, research, t, it, tree_it, kpage, hsh, s).
                   rb_size (sub_root (tree_nodes s t)))") auto

declare stable_subtree_insert.simps [simp del]

definition stable_tree_insert ::
  "host \<Rightarrow> page_id \<Rightarrow> u32 \<Rightarrow> item_id \<Rightarrow> item_id \<Rightarrow> ksm_state
     \<Rightarrow> error + (snode_id option \<times> bool \<times> bool \<times> ksm_state)" where
  "stable_tree_insert h kpage hsh it tree_it s =
     (case rb_search (\<lambda>t. hash (tree_nodes s t)) hsh (root_stable_tree s) of
        Some t \<Rightarrow>
          if count (tree_nodes s t) = 1
          then first_level_insert h t it tree_it kpage hsh s
          else stable_subtree_insert h True t it tree_it kpage hsh s
      | None \<Rightarrow>
         (case alloc_tree_node h True s of
            (None, s) \<Rightarrow> Inr (None, False, False, s)
          | (Some t, s) \<Rightarrow>
             (case new_stable_node h t kpage 0 s of
                (None, s) \<Rightarrow> Inr (None, False, False, free_tree_node t s)
              | (Some sn, s) \<Rightarrow>
                  let s = s\<lparr>tree_nodes := (tree_nodes s)(t := (tree_nodes s t)\<lparr>hash := hsh\<rparr>)\<rparr>;
                      s = s\<lparr>root_stable_tree :=
                             rb_insert (\<lambda>t. hash (tree_nodes s t)) hsh t (root_stable_tree s)\<rparr>
                  in Inr (Some sn, True, True,
                          link_stable_node t (RB_NODE RB_NULL sn RB_NULL) s))))"

section \<open>Searching and inserting into the unstable tree\<close>

definition get_mergeable_page_lock_mmap :: "host \<Rightarrow> ksm_state \<Rightarrow> item_id \<Rightarrow> int" where
  "get_mergeable_page_lock_mmap h s it =
     (let sl = slot (rmap_items s it)
      in if \<not> mmap_sem_trylock h sl then - EBUSY
         else if ksm_test_exit h sl then - EINVAL
         else if \<not> get_page_unless_zero h (page (rmap_items s it)) then - EINVAL
         else if \<not> page_mapped_at h it then - EINVAL
         else 0)"

definition get_tree_rmap_item_page ::
  "host \<Rightarrow> item_id \<Rightarrow> ksm_state \<Rightarrow> error + (int \<times> ksm_state)" where
  "get_tree_rmap_item_page h tree_it s =
     (let err = get_mergeable_page_lock_mmap h s tree_it
      in if err = - EINVAL
         then ebind (remove_rmap_item_from_tree h tree_it s) (\<lambda>s. Inr (err, s))
         else Inr (err, s))"

definition unstable_tree_search_insert ::
  "host \<Rightarrow> item_id \<Rightarrow> u32 \<Rightarrow> ksm_state \<Rightarrow> error + (item_id option \<times> ksm_state)" where
  "unstable_tree_search_insert h it hsh s =
     (let get_page_out = (\<lambda>tree_it s.
            if page (rmap_items s tree_it) = page (rmap_items s it) then Inr (None, s)
            else ebind (get_tree_rmap_item_page h tree_it s) (\<lambda>(err, s).
                 if err \<noteq> 0 then Inr (None, s) else Inr (Some tree_it, s)));
          install = (\<lambda>t sub s.
            Inr (None,
                 s\<lparr>rmap_items := (rmap_items s)
                      (it := (rmap_items s it)
                         \<lparr>tree_node := Some t,
                          address := address (rmap_items s it) OR UNSTABLE_FLAG,
                          append_round := ksm_scan_round s\<rparr>),
                    tree_nodes := (tree_nodes s)(t := (tree_nodes s t)\<lparr>sub_root := sub\<rparr>),
                    ksm_pages_unshared := ksm_pages_unshared s + 1\<rparr>))
      in case rb_search (\<lambda>t. hash (tree_nodes s t)) hsh (root_unstable_tree s) of
           Some t \<Rightarrow>
             if count (tree_nodes s t) = 1 then
               (case rb_root_entry (sub_root (tree_nodes s t)) of
                  None \<Rightarrow> Inl BUG
                | Some tree_it \<Rightarrow> get_page_out tree_it s)
             else if sub_root (tree_nodes s t) = RB_NULL then Inl BUG
             else
               (let (hm, s) = rmap_item_hash_max it hsh s
                in case rb_search (\<lambda>i. hash_max (rmap_items s i)) hm (sub_root (tree_nodes s t)) of
                     Some tree_it \<Rightarrow> get_page_out tree_it s
                   | None \<Rightarrow>
                       install t (rb_insert (\<lambda>i. hash_max (rmap_items s i)) hm it
                                    (sub_root (tree_nodes s t))) s)
         | None \<Rightarrow>
            (case alloc_tree_node h False s of
               (None, s) \<Rightarrow> Inr (None, s)
             | (Some t, s) \<Rightarrow>
                 let s = s\<lparr>tree_nodes := (tree_nodes s)(t := (tree_nodes s t)\<lparr>hash := hsh\<rparr>)\<rparr>;
                     s = s\<lparr>root_unstable_tree :=
                            rb_insert (\<lambda>t. hash (tree_nodes s t)) hsh t (root_unstable_tree s)\<rparr>
                 in install t (RB_NODE RB_NULL it RB_NULL) s))"

section \<open>Appending an rmap item to a stable node\<close>

text \<open>
  The first loop of \<open>stable_tree_append\<close> over the \<open>node_vma\<close>s of the stable node.
  It returns what the C variables hold afterwards: \<open>node_vma\<close> is the entry at which
  the loop broke, or the last entry if it ran to the end (the macro
  \<open>hlist_for_each_entry\<close> only assigns its cursor inside the list); \<open>cont_p\<close> is the
  position of that entry, given as the entries that follow it, or \<open>NULL\<close> if the loop
  ran to the end.
\<close>

fun scan_node_vmas ::
  "slot_id \<Rightarrow> nvma_id list \<Rightarrow> nvma_id option \<Rightarrow> ksm_state
     \<Rightarrow> error + (nvma_id option \<times> nvma_id list option \<times> ksm_state)" where
  "scan_node_vmas sl [] node_vma s = Inr (node_vma, None, s)"
| "scan_node_vmas sl (nv # rest) node_vma s =
     (case (if last_update (node_vmas s nv) = ksm_scan_round s
            then inc_vma_intertab_pair sl (nv_slot (node_vmas s nv)) s
            else Inr s) of
        Inl e \<Rightarrow> Inl e
      | Inr s \<Rightarrow>
          if nv_slot (node_vmas s nv) \<ge> sl then Inr (Some nv, Some rest, s)
          else scan_node_vmas sl rest (Some nv) s)"

text \<open>The loop that cancels the updates when the page is an inner duplicate.\<close>

fun cancel_updates :: "slot_id \<Rightarrow> nvma_id list \<Rightarrow> ksm_state \<Rightarrow> error + ksm_state" where
  "cancel_updates sl [] s = Inr s"
| "cancel_updates sl (nv # rest) s =
     (if nv_slot (node_vmas s nv) = sl then Inr s
      else (case (if last_update (node_vmas s nv) = ksm_scan_round s
                  then dec_vma_intertab_pair sl (nv_slot (node_vmas s nv)) s
                  else Inr s) of
              Inl e \<Rightarrow> Inl e
            | Inr s \<Rightarrow> cancel_updates sl rest s))"

text \<open>The two loops \<open>hlist_for_each_entry_continue\<close> over the entries after \<open>cont_p\<close>.\<close>

definition count_following :: "slot_id \<Rightarrow> nvma_id list \<Rightarrow> ksm_state \<Rightarrow> error + ksm_state" where
  "count_following sl rest s =
     for_each rest
       (\<lambda>nv s. if last_update (node_vmas s nv) = ksm_scan_round s
                then inc_vma_intertab_pair sl (nv_slot (node_vmas s nv)) s
                else Inr s) s"

fun hlist_add_after :: "nvma_id \<Rightarrow> nvma_id \<Rightarrow> nvma_id list \<Rightarrow> nvma_id list" where
  "hlist_add_after n new [] = []"
| "hlist_add_after n new (x # xs) =
     (if x = n then x # new # xs else x # hlist_add_after n new xs)"

fun hlist_add_before :: "nvma_id \<Rightarrow> nvma_id \<Rightarrow> nvma_id list \<Rightarrow> nvma_id list" where
  "hlist_add_before new n [] = []"
| "hlist_add_before new n (x # xs) =
     (if x = n then new # x # xs else x # hlist_add_before new n xs)"

text \<open>The code from the label \<open>node_vma_ok\<close> on.\<close>

definition node_vma_ok :: "item_id \<Rightarrow> nvma_id \<Rightarrow> ksm_state \<Rightarrow> ksm_state" where
  "node_vma_ok it nv s =
     (let sl = slot (rmap_items s it)
      in s\<lparr>rmap_items := (rmap_items s)(it := (rmap_items s it)\<lparr>head := Some nv\<rparr>),
           node_vmas := (node_vmas s)
             (nv := (node_vmas s nv)
                \<lparr>rmap_hlist := it # rmap_hlist (node_vmas s nv),
                 last_update := ksm_scan_round s\<rparr>),
           slots := (slots s)(sl := (slots s sl)\<lparr>pages_merged := pages_merged (slots s sl) + 1\<rparr>)\<rparr>)"

text \<open>The code from the label \<open>node_vma_new\<close> to the label \<open>node_vma_ok\<close>.\<close>

definition node_vma_new ::
  "host \<Rightarrow> item_id \<Rightarrow> snode_id \<Rightarrow> nvma_id option \<Rightarrow> nvma_id list option \<Rightarrow> ksm_state
     \<Rightarrow> error + (nvma_id \<times> ksm_state)" where
  "node_vma_new h it sn node_vma cont_p s =
     (let sl = slot (rmap_items s it);
          new = next_object s
      in if \<not> kmem_cache_alloc h new then Inl BUG
         else
           (let s = s\<lparr>node_vmas := (node_vmas s)
                        (new := \<lparr>nv_head = sn, nv_slot = sl, last_update = 0, rmap_hlist = []\<rparr>),
                      next_object := new + 1\<rparr>;
                link = (\<lambda>f s. s\<lparr>stable_nodes := (stable_nodes s)
                                 (sn := (stable_nodes s sn)\<lparr>hlist := f (hlist (stable_nodes s sn))\<rparr>)\<rparr>)
            in case node_vma of
                 None \<Rightarrow> Inr (new, link (\<lambda>l. new # l) s)
               | Some nv \<Rightarrow>
                   if nv_slot (node_vmas s nv) \<noteq> sl then
                     (if nv_slot (node_vmas s nv) < sl
                      then Inr (new, link (hlist_add_after nv new) s)
                      else (case cont_p of
                              None \<Rightarrow> Inl NULL_POINTER
                            | Some rest \<Rightarrow>
                                ebind (count_following sl rest s) (\<lambda>s.
                                Inr (new, link (hlist_add_before new nv) s))))
                   else Inr (new, s)))"

definition stable_tree_append ::
  "host \<Rightarrow> item_id \<Rightarrow> snode_id option \<Rightarrow> ksm_state \<Rightarrow> error + ksm_state" where
  "stable_tree_append h it stable_node s =
     (case stable_node of
        None \<Rightarrow> Inl BUG
      | Some sn \<Rightarrow>
         (let sl = slot (rmap_items s it);
              s = s\<lparr>rmap_items := (rmap_items s)
                     (it := (rmap_items s it)
                        \<lparr>address := address (rmap_items s it) OR STABLE_FLAG,
                         append_round := ksm_scan_round s\<rparr>)\<rparr>
          in if hlist (stable_nodes s sn) = [] then
               ebind (node_vma_new h it sn None None
                        (s\<lparr>ksm_pages_shared := ksm_pages_shared s + 1\<rparr>)) (\<lambda>(nv, s).
               Inr (node_vma_ok it nv s))
             else
               ebind (scan_node_vmas sl (hlist (stable_nodes s sn)) None
                        (s\<lparr>ksm_pages_sharing := ksm_pages_sharing s + 1\<rparr>))
                 (\<lambda>(node_vma, cont_p, s).
                    case node_vma of
                      None \<Rightarrow>
                        ebind (node_vma_new h it sn node_vma cont_p s) (\<lambda>(nv, s).
                        Inr (node_vma_ok it nv s))
                    | Some nv \<Rightarrow>
                        if nv_slot (node_vmas s nv) = sl then
                          (if last_update (node_vmas s nv) = ksm_scan_round s
                           then ebind (cancel_updates sl (hlist (stable_nodes s sn)) s) (\<lambda>s.
                                Inr (node_vma_ok it nv s))
                           else (case cont_p of
                                   None \<Rightarrow> Inl NULL_POINTER
                                 | Some rest \<Rightarrow>
                                     ebind (count_following sl rest s) (\<lambda>s.
                                     Inr (node_vma_ok it nv s))))
                        else
                          ebind (node_vma_new h it sn node_vma cont_p s) (\<lambda>(nv, s).
                          Inr (node_vma_ok it nv s)))))"

section \<open>The merge step for one page\<close>

text \<open>
  \<open>cmp_and_merge_page\<close> in four parts.  \<open>break_cow\<close> asks the host for a write fault on
  the item's address and changes no variable of the engine; it does not appear below.
  \<^item> \<open>cmp_and_merge_page_promote\<close>: the block \<open>if (!err)\<close> after \<open>try_to_merge_two_pages\<close>,
    which moves the two merged items into the stable tree;
  \<^item> \<open>cmp_and_merge_page_collision\<close>: the block \<open>else if (err == MERGE_ERR_COLLI)\<close>, the
    collision path, which links the scanned item as a child of the item found in the
    unstable tree;
  \<^item> \<open>cmp_and_merge_page_unstable\<close>: the code from the call of
    \<open>unstable_tree_search_insert\<close> to the end of the function;
  \<^item> \<open>cmp_and_merge_page\<close>: the function from its start, ending in the part before.
\<close>

definition cmp_and_merge_page_promote ::
  "host \<Rightarrow> item_id \<Rightarrow> item_id \<Rightarrow> page_id \<Rightarrow> u32 \<Rightarrow> ksm_state \<Rightarrow> error + ksm_state" where
  "cmp_and_merge_page_promote h it tree_it kpage hsh s =
     ebind (remove_rmap_item_from_tree h tree_it s) (\<lambda>s.
     ebind (stable_tree_insert h kpage hsh it tree_it s) (\<lambda>(snode, success1, success2, s).
     ebind (if success1 then stable_tree_append h it snode s else Inr s) (\<lambda>s.
     if success2 then stable_tree_append h tree_it snode s else Inr s)))"

definition cmp_and_merge_page_collision ::
  "item_id \<Rightarrow> item_id \<Rightarrow> u32 \<Rightarrow> ksm_state \<Rightarrow> error + ksm_state" where
  "cmp_and_merge_page_collision it tree_it hsh s =
     (case tree_node (rmap_items s tree_it) of
        None \<Rightarrow> Inl NULL_POINTER
      | Some t \<Rightarrow>
          ebind (if count (tree_nodes s t) = 1
                 then Inr (snd (rmap_item_hash_max tree_it (hash (tree_nodes s t)) s))
                 else BUG_ON (hash_max (rmap_items s tree_it) = 0) s) (\<lambda>s.
          let (hm, s) = rmap_item_hash_max it hsh s;
              cmp = hash_cmp hm (hash_max (rmap_items s tree_it))
          in if cmp = 0 then Inr s
             else Inr (s\<lparr>rmap_items := (rmap_items s)
                           (it := (rmap_items s it)
                              \<lparr>tree_node := Some t,
                               address := address (rmap_items s it) OR UNSTABLE_FLAG,
                               append_round := ksm_scan_round s\<rparr>),
                         tree_nodes := (tree_nodes s)
                           (t := (tree_nodes s t)
                              \<lparr>sub_root := rb_link_child tree_it (cmp < 0) it
                                             (sub_root (tree_nodes s t))\<rparr>)\<rparr>)))"

definition cmp_and_merge_page_unstable ::
  "host \<Rightarrow> item_id \<Rightarrow> page_id \<Rightarrow> u32 \<Rightarrow> ksm_state \<Rightarrow> error + ksm_state" where
  "cmp_and_merge_page_unstable h it pg hsh s =
     ebind (unstable_tree_search_insert h it hsh s) (\<lambda>(tree_rmap_item, s).
     case tree_rmap_item of
       None \<Rightarrow> Inr s
     | Some tree_it \<Rightarrow>
         ebind (try_to_merge_two_pages h it tree_it hsh s) (\<lambda>(err, s).
         if err = 0 then cmp_and_merge_page_promote h it tree_it pg hsh s
         else if err = MERGE_ERR_COLLI then cmp_and_merge_page_collision it tree_it hsh s
         else Inr s))"

definition cmp_and_merge_page :: "host \<Rightarrow> item_id \<Rightarrow> ksm_state \<Rightarrow> error + ksm_state" where
  "cmp_and_merge_page h it s =
     ebind (remove_rmap_item_from_tree h it s) (\<lambda>s.
     let pg = page (rmap_items s it)
     in ebind (page_hash pg (hash_strength s) True s) (\<lambda>(hsh, s).
        let s = s\<lparr>ksm_pages_scanned := ksm_pages_scanned s + 1\<rparr>
        in ebind (stable_tree_search h it hsh s) (\<lambda>(kpage, s).
           case kpage of
             None \<Rightarrow> cmp_and_merge_page_unstable h it pg hsh s
           | Some kp \<Rightarrow>
               ebind (try_to_merge_with_ksm_page h it kp hsh s) (\<lambda>(err, s).
               if err = 0 then stable_tree_append h it (page_stable_node s kp) s
               else if err = MERGE_ERR_COLLI \<and> hash_max (rmap_items s it) \<noteq> 0 then Inr s
               else cmp_and_merge_page_unstable h it pg hsh s))))"

section \<open>Re-hashing the stable tree\<close>

definition stable_node_reinsert ::
  "host \<Rightarrow> snode_id \<Rightarrow> page_id \<Rightarrow> u32 \<Rightarrow> ksm_state \<Rightarrow> error + ksm_state" where
  "stable_node_reinsert h new_node pg hsh s =
     (let add_node = (\<lambda>t sub s.
            Inr (link_stable_node t sub
                   (s\<lparr>stable_nodes := (stable_nodes s)
                         (new_node := (stable_nodes s new_node)\<lparr>node_tree_node := Some t\<rparr>)\<rparr>)));
          failed = (\<lambda>s.
            Inr (s\<lparr>stable_nodes := (stable_nodes s)
                      (new_node := (stable_nodes s new_node)\<lparr>node_tree_node := None\<rparr>)\<rparr>))
      in case rb_search (\<lambda>t. hash (tree_nodes s t)) hsh (root_stable_tree s) of
           Some t \<Rightarrow>
             (let s = stable_node_hash_max new_node pg hsh s
              in if count (tree_nodes s t) = 1 then
                   (case rb_root_entry (sub_root (tree_nodes s t)) of
                      None \<Rightarrow> Inl NULL_POINTER
                    | Some sn \<Rightarrow>
                       (case get_ksm_page h sn True False s of
                          (Some tree_page, s) \<Rightarrow>
                            (let s = stable_node_hash_max sn tree_page hsh s;
                                 cmp = hash_cmp (node_hash_max (stable_nodes s new_node))
                                         (node_hash_max (stable_nodes s sn))
                             in if cmp = 0 then failed s
                                else add_node t (rb_link_child sn (cmp < 0) new_node
                                                   (sub_root (tree_nodes s t))) s)
                        | (None, s) \<Rightarrow> add_node t (RB_NODE RB_NULL new_node RB_NULL) s))
                 else if sub_root (tree_nodes s t) = RB_NULL then Inl BUG
                 else
                   (case rb_search (\<lambda>n. node_hash_max (stable_nodes s n))
                           (node_hash_max (stable_nodes s new_node)) (sub_root (tree_nodes s t)) of
                      Some sn \<Rightarrow> failed s
                    | None \<Rightarrow>
                        add_node t
                          (rb_insert (\<lambda>n. node_hash_max (stable_nodes s n))
                             (node_hash_max (stable_nodes s new_node)) new_node
                             (sub_root (tree_nodes s t))) s))
         | None \<Rightarrow>
            (case alloc_tree_node h True s of
               (None, s) \<Rightarrow> failed s
             | (Some t, s) \<Rightarrow>
                 let s = s\<lparr>tree_nodes := (tree_nodes s)(t := (tree_nodes s t)\<lparr>hash := hsh\<rparr>)\<rparr>;
                     s = s\<lparr>root_stable_tree :=
                            rb_insert (\<lambda>t. hash (tree_nodes s t)) hsh t (root_stable_tree s)\<rparr>
                 in add_node t (RB_NODE RB_NULL new_node RB_NULL) s))"

text \<open>
  \<open>stable_tree_delta_hash\<close> builds the new tree in the second root and the second list
  and makes them current at the end.  Nothing that runs in between reads or writes
  through \<open>root_stable_treep\<close> or \<open>stable_tree_node_listp\<close> (every \<open>get_ksm_page\<close> is
  called with \<open>remove_tree_node = 0\<close>), so the model makes the empty root and the empty
  list current at the start; the tree nodes of the old list are thereby freed.  The loop
  walks the stable nodes that were in \<open>stable_node_list\<close> when it started, skipping none:
  a stable node is only ever removed from that list when it is the one being visited
  or one already visited.
\<close>

definition stable_tree_delta_hash :: "host \<Rightarrow> u64 \<Rightarrow> ksm_state \<Rightarrow> error + ksm_state" where
  "stable_tree_delta_hash h prev_hash_strength s =
     for_each (stable_node_list s)
       (\<lambda>n s.
          if n \<notin> set (stable_node_list s) then Inl USE_AFTER_FREE
          else case get_ksm_page h n False False s of
            (None, s) \<Rightarrow> Inr s
          | (Some node_page, s) \<Rightarrow>
              ebind (case node_tree_node (stable_nodes s n) of
                       Some t \<Rightarrow>
                         Inr (delta_hash (random_nums s) (page_data s node_page)
                                (uint prev_hash_strength) (uint (hash_strength s))
                                (hash (tree_nodes s t)), s)
                     | None \<Rightarrow> page_hash node_page (hash_strength s) False s) (\<lambda>(hsh, s).
              stable_node_reinsert h n node_page hsh s))
       (s\<lparr>root_stable_tree := RB_NULL, stable_tree_node_list := []\<rparr>)"

section \<open>The hash strength controller\<close>

definition HASH_STRENGTH_DELTA_MAX :: u64 where
  "HASH_STRENGTH_DELTA_MAX = 5"

definition inc_hash_strength :: "u64 \<Rightarrow> ksm_state \<Rightarrow> ksm_state" where
  "inc_hash_strength delta s =
     (let s = s\<lparr>hash_strength := hash_strength s + push_bit (unat delta) 1\<rparr>
      in if hash_strength s > word_of_int HASH_STRENGTH_MAX
         then s\<lparr>hash_strength := word_of_int HASH_STRENGTH_MAX\<rparr>
         else s)"

definition dec_hash_strength :: "u64 \<Rightarrow> ksm_state \<Rightarrow> ksm_state" where
  "dec_hash_strength delta s =
     (let change = push_bit (unat delta) 1
      in if hash_strength s \<le> change + 1
         then s\<lparr>hash_strength := 1\<rparr>
         else s\<lparr>hash_strength := hash_strength s - change\<rparr>)"

definition inc_hash_strength_delta :: "ksm_state \<Rightarrow> ksm_state" where
  "inc_hash_strength_delta s =
     (let s = s\<lparr>hash_strength_delta := hash_strength_delta s + 1\<rparr>
      in if hash_strength_delta s > HASH_STRENGTH_DELTA_MAX
         then s\<lparr>hash_strength_delta := HASH_STRENGTH_DELTA_MAX\<rparr>
         else s)"

definition get_current_neg_ratio :: "ksm_state \<Rightarrow> u64" where
  "get_current_neg_ratio s =
     (if rshash_pos s = 0 \<or> rshash_neg s > rshash_pos s then 100
      else (100 * rshash_neg s) div rshash_pos s)"

definition get_current_benefit :: "ksm_state \<Rightarrow> error + u64" where
  "get_current_benefit s =
     (if rshash_neg s > rshash_pos s then Inr 0
      else if ksm_pages_scanned s - ksm_pages_scanned_last s = 0 then Inl DIVIDE_ERROR
      else Inr ((rshash_pos s - rshash_neg s)
                  div (ksm_pages_scanned s - ksm_pages_scanned_last s)))"

text \<open>
  \<open>judge_rshash_direction\<close>.  The label \<open>out\<close> ends in \<open>return STILL\<close>, whatever was
  assigned to \<open>ret\<close>.
\<close>

definition judge_rshash_direction :: "ksm_state \<Rightarrow> error + (rshash_direct \<times> ksm_state)" where
  "judge_rshash_direction s =
     (let current_neg_ratio = get_current_neg_ratio s;
          out = (\<lambda>s. Inr (STILL, s\<lparr>rshash_cont_obscure := 0\<rparr>))
      in if current_neg_ratio = 0 then
           (let s = s\<lparr>rshash_neg_cont_zero := rshash_neg_cont_zero s + 1\<rparr>
            in Inr (if rshash_neg_cont_zero s > 2 then GO_DOWN else STILL, s))
         else
           (let s = s\<lparr>rshash_neg_cont_zero := 0\<rparr>
            in if current_neg_ratio > 90 then out s
               else if ksm_scan_round s mod 1024 = 3 then out s
               else ebind (get_current_benefit s) (\<lambda>current_benefit.
                    let sb = stable_benefit (rshash_state s)
                    in if sb = 0 then out s
                       else
                         (let delta = (if current_benefit > sb then current_benefit - sb
                                       else if current_benefit < sb then sb - current_benefit
                                       else 0);
                              delta = (100 * delta) div sb
                          in if delta > 50 then
                               (let s = s\<lparr>rshash_cont_obscure := rshash_cont_obscure s + 1\<rparr>
                                in Inr (if rshash_cont_obscure s > 2 then OBSCURE else STILL, s))
                             else out s))))"

text \<open>
  \<open>rshash_adjust\<close> in two parts: \<open>rshash_switch\<close> is its \<open>switch\<close> statement over the
  state of the controller, \<open>rshash_adjust\<close> the guard in front of it and the code behind
  it.  \<open>rshash_window\<close> is \<open>if (rshash_state.lookup_window_index++ % 5 == 0)
  rshash_state.below_count = 0;\<close>.
\<close>

definition rshash_window :: "ksm_state \<Rightarrow> ksm_state" where
  "rshash_window s =
     (let idx = lookup_window_index (rshash_state s);
          s = s\<lparr>rshash_state := (rshash_state s)\<lparr>lookup_window_index := idx + 1\<rparr>\<rparr>
      in if idx mod 5 = 0
         then s\<lparr>rshash_state := (rshash_state s)\<lparr>below_count := 0\<rparr>\<rparr>
         else s)"

definition rshash_switch :: "ksm_state \<Rightarrow> error + ksm_state" where
  "rshash_switch s =
     (let rs = (\<lambda>f s. s\<lparr>rshash_state := f (rshash_state s)\<rparr>);
          step = (\<lambda>f s. inc_hash_strength_delta (f (hash_strength_delta s) s))
      in case state (rshash_state s) of
           RSHASH_STILL \<Rightarrow>
             ebind (judge_rshash_direction s) (\<lambda>(direct, s).
             case direct of
               GO_UP \<Rightarrow>
                 (let s = (if pre_direct (rshash_state s) = GO_DOWN
                           then s\<lparr>hash_strength_delta := 0\<rparr> else s);
                      s = step inc_hash_strength s
                  in ebind (get_current_benefit s) (\<lambda>b.
                     Inr (rs (\<lambda>r. r\<lparr>stable_benefit := b, pre_direct := GO_UP\<rparr>) s)))
             | GO_DOWN \<Rightarrow>
                 (let s = (if pre_direct (rshash_state s) = GO_UP
                           then s\<lparr>hash_strength_delta := 0\<rparr> else s);
                      s = step dec_hash_strength s
                  in ebind (get_current_benefit s) (\<lambda>b.
                     Inr (rs (\<lambda>r. r\<lparr>stable_benefit := b, pre_direct := GO_DOWN\<rparr>) s)))
             | OBSCURE \<Rightarrow>
                 ebind (get_current_benefit s) (\<lambda>b.
                 let s = rs (\<lambda>r. r\<lparr>stable_point := hash_strength s,
                                     turn_point_down := hash_strength s,
                                     turn_point_up := hash_strength s,
                                     turn_benefit_down := b,
                                     turn_benefit_up := b,
                                     lookup_window_index := 0,
                                     state := RSHASH_TRYDOWN\<rparr>) s
                 in Inr (step dec_hash_strength s))
             | STILL \<Rightarrow> Inr s)
         | RSHASH_TRYDOWN \<Rightarrow>
             (let s = rshash_window s
              in ebind (get_current_benefit s) (\<lambda>b.
                 let s = (if b < stable_benefit (rshash_state s)
                          then rs (\<lambda>r. r\<lparr>below_count := below_count r + 1\<rparr>) s
                          else if b > turn_benefit_down (rshash_state s)
                          then rs (\<lambda>r. r\<lparr>turn_point_down := hash_strength s,
                                           turn_benefit_down := b\<rparr>) s
                          else s)
                 in ebind (if below_count (rshash_state s) \<ge> 3 then Inr (True, s)
                           else ebind (judge_rshash_direction s) (\<lambda>(direct, s).
                                Inr (direct = GO_UP, s))) (\<lambda>(turn, s).
                    if turn then
                      (let s = s\<lparr>hash_strength := stable_point (rshash_state s),
                                 hash_strength_delta := 0\<rparr>;
                           s = step inc_hash_strength s;
                           s = rs (\<lambda>r. r\<lparr>lookup_window_index := 0, state := RSHASH_TRYUP\<rparr>) s
                       in Inr (s\<lparr>hash_strength_delta := 0\<rparr>))
                    else Inr (step dec_hash_strength s))))
         | RSHASH_TRYUP \<Rightarrow>
             (let s = rshash_window s
              in ebind (get_current_benefit s) (\<lambda>b.
                 let s = (if b < stable_benefit (rshash_state s)
                          then rs (\<lambda>r. r\<lparr>below_count := below_count r + 1\<rparr>) s
                          else if b > turn_benefit_up (rshash_state s)
                          then rs (\<lambda>r. r\<lparr>turn_point_up := hash_strength s,
                                           turn_benefit_up := b\<rparr>) s
                          else s)
                 in ebind (if below_count (rshash_state s) \<ge> 3 then Inr (True, s)
                           else ebind (judge_rshash_direction s) (\<lambda>(direct, s).
                                Inr (direct = GO_DOWN, s))) (\<lambda>(turn, s).
                    if turn then
                      (let r = rshash_state s;
                           s = s\<lparr>hash_strength :=
                                  (if turn_benefit_up r > turn_benefit_down r
                                   then turn_point_up r else turn_point_down r)\<rparr>
                       in Inr (rs (\<lambda>r. r\<lparr>state := RSHASH_PRE_STILL\<rparr>) s))
                    else Inr (step inc_hash_strength s))))
         | _ \<Rightarrow>
             ebind (get_current_benefit s) (\<lambda>b.
             Inr (rs (\<lambda>r. r\<lparr>stable_benefit := b, state := RSHASH_STILL\<rparr>)
                    (s\<lparr>hash_strength_delta := 0\<rparr>))))"

definition rshash_adjust :: "host \<Rightarrow> ksm_state \<Rightarrow> error + ksm_state" where
  "rshash_adjust h s =
     (let prev_hash_strength = hash_strength s
      in if ksm_pages_scanned s = ksm_pages_scanned_last s then Inr s
         else ebind (rshash_switch s) (\<lambda>s.
              let s = s\<lparr>rshash_neg := 0, rshash_pos := 0\<rparr>
              in if prev_hash_strength \<noteq> hash_strength s
                 then stable_tree_delta_hash h prev_hash_strength s
                 else Inr s))"

section \<open>The scan ladder\<close>

definition get_vma_random_scan_num :: "vma_slot \<Rightarrow> u64 \<Rightarrow> u64" where
  "get_vma_random_scan_num sl ratio = pages sl * ratio div KSM_SCAN_RATIO_MAX"

text \<open>\<open>slot->ksm_list.next\<close>: the slot that follows, or the list head.\<close>

fun list_next :: "slot_id list \<Rightarrow> slot_id \<Rightarrow> slot_id option" where
  "list_next [] x = None"
| "list_next [y] x = None"
| "list_next (y # z # zs) x = (if y = x then Some z else list_next (z # zs) x)"

text \<open>
  The loop of \<open>vma_rung_enter\<close> that looks for a rung on which the slot gets a non-zero
  number of pages to scan:
  \<open>while (!(pages_to_scan = get_vma_random_scan_num(slot, rung->scan_ratio))) { rung++; BUG_ON(...); }\<close>
\<close>

function enter_rung_loop :: "ksm_state \<Rightarrow> slot_id \<Rightarrow> nat \<Rightarrow> error + (nat \<times> u64)" where
  "enter_rung_loop s sl r =
     (if r \<ge> length (ksm_scan_ladder s) then Inl OUT_OF_BOUNDS
      else (let pts = get_vma_random_scan_num (slots s sl) (scan_ratio (ksm_scan_ladder s ! r))
            in if pts = 0
               then (if r + 1 > length (ksm_scan_ladder s) - 1 then Inl BUG
                     else enter_rung_loop s sl (r + 1))
               else Inr (r, pts)))"
  by pat_completeness auto
termination
  by (relation "measure (\<lambda>(s, sl, r). length (ksm_scan_ladder s) - r)") auto

declare enter_rung_loop.simps [simp del]

definition update_rung :: "nat \<Rightarrow> (scan_rung \<Rightarrow> scan_rung) \<Rightarrow> ksm_state \<Rightarrow> ksm_state" where
  "update_rung r f s = s\<lparr>ksm_scan_ladder := (ksm_scan_ladder s)[r := f (ksm_scan_ladder s ! r)]\<rparr>"

definition vma_rung_enter :: "slot_id \<Rightarrow> nat \<Rightarrow> ksm_state \<Rightarrow> error + ksm_state" where
  "vma_rung_enter sl new_rung s =
     (let old = rung (slots s sl)
      in if old \<ge> length (ksm_scan_ladder s) then Inl OUT_OF_BOUNDS
         else ebind (BUG_ON (sl \<notin> set (vma_list (ksm_scan_ladder s ! old))) s) (\<lambda>s.
           let full = fully_scanned (slots s sl);
               s = update_rung old (\<lambda>rg.
                     let rg = (if current_scan rg = Some sl
                               then rg\<lparr>current_scan := list_next (vma_list rg) sl\<rparr> else rg);
                         rg = rg\<lparr>vma_list := remove1 sl (vma_list rg), vma_num := vma_num rg - 1\<rparr>;
                         rg = (if full
                               then rg\<lparr>fully_scanned_slots := fully_scanned_slots rg - 1\<rparr> else rg)
                     in if current_scan rg = None
                        then rg\<lparr>round_finished := True,
                                current_scan := (case vma_list rg of [] \<Rightarrow> None | x # xs \<Rightarrow> Some x)\<rparr>
                        else rg) s
           in ebind (BUG_ON (current_scan (ksm_scan_ladder s ! old) = None
                             \<and> vma_list (ksm_scan_ladder s ! old) \<noteq> []) s) (\<lambda>s.
              ebind (enter_rung_loop s sl new_rung) (\<lambda>(r, pts).
              let s = update_rung r (\<lambda>rg.
                        let rg = (if vma_list rg = [] then rg\<lparr>current_scan := Some sl\<rparr> else rg);
                            rg = rg\<lparr>vma_list := sl # vma_list rg, vma_num := vma_num rg + 1\<rparr>
                        in if full
                           then rg\<lparr>fully_scanned_slots := fully_scanned_slots rg + 1\<rparr> else rg) s;
                  s = s\<lparr>slots := (slots s)(sl := (slots s sl)\<lparr>rung := r, pages_to_scan := pts\<rparr>)\<rparr>
              in BUG_ON (current_scan (ksm_scan_ladder s ! r) = None
                         \<and> vma_list (ksm_scan_ladder s ! r) \<noteq> []) s))))"

definition vma_rung_up :: "slot_id \<Rightarrow> ksm_state \<Rightarrow> error + ksm_state" where
  "vma_rung_up sl s =
     (if int (rung (slots s sl)) = int (length (ksm_scan_ladder s)) - 1 then Inr s
      else vma_rung_enter sl (rung (slots s sl) + 1) s)"

definition vma_rung_down :: "slot_id \<Rightarrow> ksm_state \<Rightarrow> error + ksm_state" where
  "vma_rung_down sl s =
     (if rung (slots s sl) = 0 then Inr s
      else vma_rung_enter sl (rung (slots s sl) - 1) s)"

section \<open>The deduplication ratio of an area\<close>

text \<open>
  \<open>cal_dedup_ratio\<close> in two parts: \<open>dedup_ratio_sum\<close> is the code between the early
  return and the comment \<open>Thrashing area filtering\<close>, computing \<open>ret\<close> from the table.
\<close>

definition dedup_ratio_sum :: "ksm_state \<Rightarrow> slot_id \<Rightarrow> error + u64" where
  "dedup_ratio_sum s sl =
     (let slt = slots s sl;
          pages1 = pages slt;
          scanned1 = pages_scanned slt - last_scanned slt
      in ebind (BUG_ON (scanned1 > pages_scanned slt) (0 :: u64)) (\<lambda>dedup_num.
         ebind (for_loop 0 (unat (ksm_vma_table_index_end s))
                  (\<lambda>i dedup_num.
                     ebind (vma_table_read s i) (\<lambda>slot2.
                     case slot2 of
                       None \<Rightarrow> Inr dedup_num
                     | Some sl2 \<Rightarrow>
                         if int i = ksm_index slt \<or> pages_scanned (slots s sl2) = 0
                         then Inr dedup_num
                         else
                           (let pages2 = pages (slots s sl2);
                                scanned2 = pages_scanned (slots s sl2) - last_scanned (slots s sl2)
                            in ebind (BUG_ON (scanned2 > pages_scanned (slots s sl2)) ()) (\<lambda>u.
                               ebind (inter_vma_table_read s
                                        (intertab_vma_offset (ksm_index slt) (int i))) (\<lambda>v.
                               ebind (BUG_ON (v \<noteq> 0 \<and> (scanned1 = 0 \<or> scanned2 = 0)) ()) (\<lambda>u.
                               Inr (if v \<noteq> 0
                                    then dedup_num
                                           + ucast v * pages1 div scanned1 * pages2 div scanned2
                                    else dedup_num)))))))
                  dedup_num) (\<lambda>dedup_num.
         ebind (inter_vma_table_read s
                  (intertab_vma_offset (ksm_index slt) (ksm_index slt))) (\<lambda>v.
         ebind (BUG_ON (v \<noteq> 0 \<and> scanned1 = 0) ()) (\<lambda>u.
         let dedup_num = (if v \<noteq> 0 then dedup_num + ucast v * pages1 div scanned1
                          else dedup_num)
         in if pages1 = 0 then Inl DIVIDE_ERROR
            else Inr (dedup_num * KSM_DEDUP_RATIO_SCALE div pages1))))))"

definition cal_dedup_ratio :: "ksm_state \<Rightarrow> slot_id \<Rightarrow> error + u64" where
  "cal_dedup_ratio s sl =
     (let slt = slots s sl
      in if pages_scanned slt = 0 then Inr 0
         else ebind (dedup_ratio_sum s sl) (\<lambda>ret.
              if ksm_thrash_threshold s \<noteq> 0 then
                (if pages_merged slt = 0 then Inl DIVIDE_ERROR
                 else if pages_cowed slt * 100 div pages_merged slt
                           > ucast (ksm_thrash_threshold s)
                 then Inr 0
                 else Inr (ret * (pages_merged slt - pages_cowed slt) div pages_merged slt))
              else Inr ret))"

section \<open>The end of a scan round\<close>

text \<open>
  The four loops of \<open>round_update_ladder\<close>.  The first carries the state, the maximum
  and the sum of the ratios.  The two loops over the slots of a rung walk the list as it
  is when the loop starts: the body only ever unlinks the slot it is visiting.
\<close>

definition round_update_ladder :: "host \<Rightarrow> ksm_state \<Rightarrow> error + ksm_state" where
  "round_update_ladder h s =
     ebind (for_loop 0 (unat (ksm_vma_table_index_end s))
              (\<lambda>i (s, dedup_ratio_max, dedup_ratio_mean).
                 ebind (vma_table_read s i) (\<lambda>entry.
                 case entry of
                   None \<Rightarrow> Inr (s, dedup_ratio_max, dedup_ratio_mean)
                 | Some sl \<Rightarrow>
                     ebind (cal_dedup_ratio s sl) (\<lambda>ratio.
                     Inr (s\<lparr>slots := (slots s)(sl := (slots s sl)\<lparr>dedup_ratio := ratio\<rparr>)\<rparr>,
                          (if dedup_ratio_max < ratio then ratio else dedup_ratio_max),
                          dedup_ratio_mean + ratio))))
              (s, 0, 0)) (\<lambda>(s, dedup_ratio_max, dedup_ratio_mean).
     if ksm_vma_slot_num s = 0 then Inl DIVIDE_ERROR
     else
       (let threshold = dedup_ratio_mean div ksm_vma_slot_num s
        in ebind (for_loop 0 (unat (ksm_vma_table_index_end s))
                    (\<lambda>i s.
                       ebind (vma_table_read s i) (\<lambda>entry.
                       case entry of
                         None \<Rightarrow> Inr s
                       | Some sl \<Rightarrow>
                           ebind (if dedup_ratio (slots s sl) \<noteq> 0
                                     \<and> dedup_ratio (slots s sl) \<ge> threshold
                                  then vma_rung_up sl s else vma_rung_down sl s) (\<lambda>s.
                           ebind (ksm_intertab_clear sl s) (\<lambda>s.
                           ebind (vma_table_write i None
                                    (s\<lparr>ksm_vma_table_num := ksm_vma_table_num s - 1\<rparr>)) (\<lambda>s.
                           Inr (s\<lparr>slots := (slots s)
                                     (sl := (slots s sl)\<lparr>ksm_index := -1, slot_scanned := False,
                                                         dedup_ratio := 0\<rparr>)\<rparr>))))))
                    s) (\<lambda>s.
           ebind (for_loop 0 (length (ksm_scan_ladder s))
                    (\<lambda>i s. for_each (vma_list (ksm_scan_ladder s ! i))
                       (\<lambda>sl s.
                          ebind (if slot_scanned (slots s sl)
                                 then ebind (BUG_ON (dedup_ratio (slots s sl) \<noteq> 0) s)
                                        (vma_rung_down sl)
                                 else Inr s) (\<lambda>s.
                          Inr (s\<lparr>slots := (slots s)(sl := (slots s sl)\<lparr>dedup_ratio := 0\<rparr>)\<rparr>)))
                       s)
                    s) (\<lambda>s.
           ebind (BUG_ON (ksm_vma_table_num s \<noteq> 0) s) (\<lambda>s.
           ebind (for_loop 0 (length (ksm_scan_ladder s))
                    (\<lambda>i s.
                       ebind (for_each (vma_list (ksm_scan_ladder s ! i))
                                (\<lambda>sl s.
                                   let full = fully_scanned (slots s sl);
                                       s = s\<lparr>slots := (slots s)
                                              (sl := (slots s sl)
                                                 \<lparr>last_scanned := pages_scanned (slots s sl),
                                                  slot_scanned := False,
                                                  pages_cowed := 0,
                                                  pages_merged := 0,
                                                  fully_scanned := False\<rparr>)\<rparr>;
                                       s = (if full
                                            then update_rung i (\<lambda>rg. rg\<lparr>fully_scanned_slots :=
                                                                         fully_scanned_slots rg - 1\<rparr>) s
                                            else s)
                                   in BUG_ON (ksm_index (slots s sl) \<noteq> -1) s)
                                (update_rung i (\<lambda>rg. rg\<lparr>round_finished := False\<rparr>) s)) (\<lambda>s.
                       BUG_ON (fully_scanned_slots (ksm_scan_ladder s ! i) \<noteq> 0) s))
                    (s\<lparr>ksm_vma_table_index_end := 0\<rparr>)) (\<lambda>s.
           ebind (rshash_adjust h s) (\<lambda>s.
           Inr (s\<lparr>ksm_pages_scanned_last := ksm_pages_scanned s\<rparr>))))))))"

definition free_all_tree_nodes :: "tnode_id list \<Rightarrow> ksm_state \<Rightarrow> ksm_state" where
  "free_all_tree_nodes l s = fold free_tree_node l s"

text \<open>
  The block of \<open>ksm_do_scan\<close> that runs when the local variable \<open>round_finished\<close> is
  set, once every rung with areas on it has finished its round.
\<close>

definition ksm_do_scan_round_finished :: "host \<Rightarrow> ksm_state \<Rightarrow> error + ksm_state" where
  "ksm_do_scan_round_finished h s =
     ebind (round_update_ladder h s) (\<lambda>s.
     let s = s\<lparr>ksm_scan_round := ksm_scan_round s + 1, root_unstable_tree := RB_NULL\<rparr>
     in Inr (free_all_tree_nodes (unstable_tree_node_list s) s))"

section \<open>The state after initialisation\<close>

text \<open>
  \<open>alloc_vma_slot\<close> returns a zeroed slot with \<open>ksm_index = -1\<close>.  \<open>ksm_init\<close> builds
  the ladder for \<open>ksm_min_scan_ratio = 1\<close> and \<open>ksm_scan_ratio_delta = 5\<close>, zeroes both
  tables, and \<open>init_random_sampling\<close> fills \<open>random_nums\<close> and measures \<open>memcmp_cost\<close>;
  these two are parameters of the initial state.  The budgets of the rungs are those of
  \<open>cal_ladder_pages_to_scan\<close> for \<open>ksm_scan_batch_pages = 60000\<close>.
\<close>

definition alloc_vma_slot :: vma_slot where
  "alloc_vma_slot =
     \<lparr>pages = 0, pages_scanned = 0, last_scanned = 0, pages_to_scan = 0, pages_merged = 0,
      pages_cowed = 0, dedup_ratio = 0, ksm_index = -1, rung = 0, slot_scanned = False,
      fully_scanned = False\<rparr>"

definition init_scan_rung :: "u64 \<Rightarrow> u64 \<Rightarrow> scan_rung" where
  "init_scan_rung ratio budget =
     \<lparr>vma_list = [], current_scan = None, scan_ratio = ratio, vma_num = 0,
      fully_scanned_slots = 0, rung_pages_to_scan = budget, round_finished = False\<rparr>"

definition ksm_init :: "(nat \<Rightarrow> u32) \<Rightarrow> u64 \<Rightarrow> ksm_state" where
  "ksm_init nums cost =
     \<lparr>ksm_scan_round = 1,
      ksm_pages_scanned = 0,
      ksm_pages_scanned_last = 0,
      ksm_pages_shared = 0,
      ksm_pages_sharing = 0,
      ksm_pages_unshared = 0,
      ksm_thrash_threshold = 0,
      ksm_inter_vma_table = (\<lambda>i. 0),
      ksm_vma_table = (\<lambda>i. None),
      ksm_vma_table_num = 0,
      ksm_vma_table_index_end = 0,
      ksm_scan_ladder = [init_scan_rung 1 30, init_scan_rung 5 600,
                         init_scan_rung 25 12000, init_scan_rung 125 60000],
      ksm_vma_slot_num = 0,
      root_unstable_tree = RB_NULL,
      unstable_tree_node_list = [],
      root_stable_tree = RB_NULL,
      stable_tree_node_list = [],
      stable_node_list = [],
      random_nums = nums,
      hash_strength = word_of_int HASH_STRENGTH_FULL div 16,
      rshash_pos = 0,
      rshash_neg = 0,
      memcmp_cost = cost,
      hash_strength_delta = 0,
      rshash_neg_cont_zero = 0,
      rshash_cont_obscure = 0,
      rshash_state = \<lparr>state = RSHASH_NEW, pre_direct = GO_UP, below_count = 0,
                      lookup_window_index = 0, stable_benefit = 0, turn_point_down = 0,
                      turn_benefit_down = 0, turn_point_up = 0, turn_benefit_up = 0,
                      stable_point = 0\<rparr>,
      slots = (\<lambda>i. alloc_vma_slot),
      rmap_items = (\<lambda>i. \<lparr>slot = 0, address = 0, page = 0, hash_max = 0, append_round = 0,
                           tree_node = None, head = None\<rparr>),
      tree_nodes = (\<lambda>i. \<lparr>hash = 0, count = 0, sub_root = RB_NULL\<rparr>),
      stable_nodes = (\<lambda>i. \<lparr>kpfn = 0, node_hash_max = 0, node_tree_node = None, hlist = []\<rparr>),
      node_vmas = (\<lambda>i. \<lparr>nv_head = 0, nv_slot = 0, last_update = 0, rmap_hlist = []\<rparr>),
      page_data = (\<lambda>p i. 0),
      page_mapping = (\<lambda>p. MAPPING_NULL),
      next_object = 1\<rparr>"

section \<open>Example states\<close>

text \<open>
  One tracked area of 100 pages, 5 of them scanned, none merged, with thrash filtering
  at 10 percent.
\<close>

definition thrash_example :: ksm_state where
  "thrash_example =
     (ksm_init (\<lambda>i. 0) 0)
       \<lparr>ksm_thrash_threshold := 10,
        ksm_vma_table := (\<lambda>i. None)(0 := Some 1),
        ksm_vma_table_num := 1,
        ksm_vma_table_index_end := 1,
        ksm_vma_slot_num := 1,
        slots := (\<lambda>i. alloc_vma_slot)
          (1 := alloc_vma_slot\<lparr>pages := 100, pages_scanned := 5, ksm_index := 0\<rparr>)\<rparr>"

section \<open>Invariants of the inter-vma table\<close>

text \<open>
  \<open>intertab_ok\<close>: the index past the last used entry fits the table, every entry from
  there on is empty, and the entries and the \<open>ksm_index\<close> fields of the slots name each
  other.  \<open>intertab_live\<close>: a counter of the matrix is non-zero only for a pair of
  entries that are both in use.  Both hold after \<open>ksm_init\<close>.
\<close>

definition intertab_ok :: "ksm_state \<Rightarrow> bool" where
  "intertab_ok s \<longleftrightarrow>
     unat (ksm_vma_table_index_end s) \<le> ksm_vma_table_size - 1
     \<and> (\<forall>i. unat (ksm_vma_table_index_end s) \<le> i \<longrightarrow> ksm_vma_table s i = None)
     \<and> (\<forall>i sl. ksm_vma_table s i = Some sl \<longrightarrow> ksm_index (slots s sl) = int i)
     \<and> (\<forall>sl. ksm_index (slots s sl) \<noteq> -1 \<longrightarrow>
           0 \<le> ksm_index (slots s sl)
           \<and> ksm_vma_table s (nat (ksm_index (slots s sl))) = Some sl)"

definition intertab_live :: "ksm_state \<Rightarrow> bool" where
  "intertab_live s \<longleftrightarrow>
     (\<forall>k. ksm_inter_vma_table s k \<noteq> 0 \<longrightarrow>
        (\<exists>i j. ksm_vma_table s i \<noteq> None \<and> ksm_vma_table s j \<noteq> None
               \<and> k = intertab_vma_offset (int i) (int j)))"

text \<open>The state in which \<open>enter_inter_vma_table\<close> leaves a slot entered at index \<open>i\<close>.\<close>

definition entered :: "slot_id \<Rightarrow> nat \<Rightarrow> ksm_state \<Rightarrow> ksm_state" where
  "entered sl i s =
     s\<lparr>slots := (slots s)(sl := (slots s sl)\<lparr>ksm_index := int i\<rparr>),
       ksm_vma_table := (ksm_vma_table s)(i := Some sl),
       ksm_vma_table_num := ksm_vma_table_num s + 1,
       ksm_vma_table_index_end :=
         (if i = unat (ksm_vma_table_index_end s) then ksm_vma_table_index_end s + 1
          else ksm_vma_table_index_end s)\<rparr>"

text \<open>
  A sequence of duplicate observations: each is a call of \<open>inc_vma_intertab_pair\<close> for
  the areas of the two identical pages.
\<close>

fun observe_duplicates :: "(slot_id \<times> slot_id) list \<Rightarrow> ksm_state \<Rightarrow> error + ksm_state" where
  "observe_duplicates [] s = Inr s"
| "observe_duplicates ((slot1, slot2) # rest) s =
     (case inc_vma_intertab_pair slot1 slot2 s of
        Inl e \<Rightarrow> Inl e
      | Inr s' \<Rightarrow> observe_duplicates rest s')"

section \<open>Views of the state\<close>

text \<open>
  \<open>scheduler_view\<close>: the variables of the area table, the matrix and the ladder, with
  the areas themselves.  \<open>cost_view\<close>: the variables that the hash functions and the cost
  accounting read, apart from the two counters \<open>rshash_pos\<close> and \<open>rshash_neg\<close>.
\<close>

definition scheduler_view ::
  "ksm_state \<Rightarrow> (nat \<Rightarrow> u32) \<times> (nat \<Rightarrow> slot_id option) \<times> u64 \<times> u64 \<times> scan_rung list
     \<times> (slot_id \<Rightarrow> vma_slot) \<times> u64 \<times> u32" where
  "scheduler_view s =
     (ksm_inter_vma_table s, ksm_vma_table s, ksm_vma_table_num s, ksm_vma_table_index_end s,
      ksm_scan_ladder s, slots s, ksm_vma_slot_num s, ksm_thrash_threshold s)"

definition cost_view ::
  "ksm_state \<Rightarrow> u64 \<times> u64 \<times> (nat \<Rightarrow> u32) \<times> (page_id \<Rightarrow> nat \<Rightarrow> u32) \<times> u64" where
  "cost_view s = (hash_strength s, memcmp_cost s, random_nums s, page_data s, ksm_scan_round s)"

section \<open>Results of functions that may fail\<close>

text \<open>\<open>returns m P\<close>: if the computation \<open>m\<close> returns, its result satisfies \<open>P\<close>.\<close>

definition returns :: "error + 'a \<Rightarrow> ('a \<Rightarrow> bool) \<Rightarrow> bool" where
  "returns m P = (case m of Inl e \<Rightarrow> True | Inr x \<Rightarrow> P x)"

section \<open>Notions used to state the properties of the trees\<close>

text \<open>The objects that a tree holds.\<close>

fun rb_set :: "rb_root \<Rightarrow> nat set" where
  "rb_set RB_NULL = {}"
| "rb_set (RB_NODE l x r) = rb_set l \<union> {x} \<union> rb_set r"

text \<open>
  \<open>no_terminal_match\<close>: the two descents of \<open>unstable_tree_search_insert\<close> never reach the
  label \<open>get_page_out\<close>.  Either no tree node carries the hash, or the tree node that does
  has a \<open>count\<close> other than 1 and the descent through its sub-tree by \<open>hash_max\<close> falls off
  the tree.
\<close>

definition no_terminal_match :: "ksm_state \<Rightarrow> item_id \<Rightarrow> u32 \<Rightarrow> bool" where
  "no_terminal_match s it hsh =
     (case rb_search (\<lambda>t. hash (tree_nodes s t)) hsh (root_unstable_tree s) of
        None \<Rightarrow> True
      | Some t \<Rightarrow>
          count (tree_nodes s t) \<noteq> 1
          \<and> (let (hm, s1) = rmap_item_hash_max it hsh s
             in rb_search (\<lambda>i. hash_max (rmap_items s1 i)) hm (sub_root (tree_nodes s1 t)) = None))"

text \<open>A host on which everything succeeds, and one whose slab allocator is exhausted.\<close>

definition willing_host :: host where
  "willing_host =
     \<lparr>get_page_unless_zero = (\<lambda>p. True), ksm_test_exit = (\<lambda>sl. False),
      trylock_page = (\<lambda>p. True), write_protect_page = (\<lambda>sl p. True),
      replace_page = (\<lambda>sl p k. True), restore_ksm_page_pte = (\<lambda>it. True),
      mmap_sem_trylock = (\<lambda>sl. True), page_mapped_at = (\<lambda>it. True),
      pte_write_protected = (\<lambda>it p. True), kmem_cache_alloc = (\<lambda>a. True)\<rparr>"

definition exhausted_host :: host where
  "exhausted_host = willing_host\<lparr>kmem_cache_alloc := (\<lambda>a. False)\<rparr>"

text \<open>
  A stable tree with one tree node that holds one stable node, the ksm page 2, and an
  rmap item 1 for the anonymous page 1.  At strength 1 with a table \<open>random_nums\<close> of
  zeros the hash only samples word 0 of a page; the two pages agree there and differ in
  word 1.
\<close>

definition stable_collision_example :: ksm_state where
  "stable_collision_example =
     (ksm_init (\<lambda>i. 0) 0)
       \<lparr>hash_strength := 1,
        root_stable_tree := RB_NODE RB_NULL 1 RB_NULL,
        stable_tree_node_list := [1],
        stable_node_list := [1],
        rmap_items := (rmap_items (ksm_init (\<lambda>i. 0) 0))
          (1 := \<lparr>slot = 1, address = 0, page = 1, hash_max = 0, append_round = 0,
                 tree_node = None, head = None\<rparr>),
        tree_nodes := (tree_nodes (ksm_init (\<lambda>i. 0) 0))
          (1 := \<lparr>hash = random_sample_hash (\<lambda>i. 0) (\<lambda>i. 0) 1, count = 1,
                 sub_root = RB_NODE RB_NULL 1 RB_NULL\<rparr>),
        stable_nodes := (stable_nodes (ksm_init (\<lambda>i. 0) 0))
          (1 := \<lparr>kpfn = 2, node_hash_max = 0, node_tree_node = Some 1, hlist = []\<rparr>),
        page_data := (\<lambda>p i. if p = 2 \<and> i = 1 then 1 else 0),
        page_mapping := (\<lambda>p. if p = 2 then MAPPING_KSM (Some 1) else MAPPING_ANON),
        next_object := 2\<rparr>"

text \<open>
  \<open>beside_tables\<close>: the state with the area table, the matrix and the areas blanked out.
  Two states with the same \<open>beside_tables\<close> differ at most in those.  \<open>pos_view\<close>: the
  counter \<open>rshash_pos\<close> with the variables of \<open>cost_view\<close>.
\<close>

definition beside_tables :: "ksm_state \<Rightarrow> ksm_state" where
  "beside_tables s =
     s\<lparr>ksm_inter_vma_table := (\<lambda>k. 0), ksm_vma_table := (\<lambda>i. None), ksm_vma_table_num := 0,
       ksm_vma_table_index_end := 0, slots := (\<lambda>sl. alloc_vma_slot)\<rparr>"

definition pos_view ::
  "ksm_state \<Rightarrow> u64 \<times> u64 \<times> u64 \<times> (nat \<Rightarrow> u32) \<times> (page_id \<Rightarrow> nat \<Rightarrow> u32) \<times> u64" where
  "pos_view s = (rshash_pos s, cost_view s)"

text \<open>
  An unstable tree with one tree node for the hash 9.  Its sub-tree holds the rmap items 2
  and 3, keyed by their \<open>hash_max\<close> 3 and 7; the rmap item 1 is in no tree and has the
  \<open>hash_max\<close> 5 cached.  As everywhere in the unstable tree, the \<open>count\<close> of the tree node
  is 0.  In \<open>empty_subtree_example\<close> the sub-tree of the tree node holds nothing.
\<close>

definition unstable_example :: ksm_state where
  "unstable_example =
     (ksm_init (\<lambda>i. 0) 0)
       \<lparr>ksm_pages_unshared := 2,
        root_unstable_tree := RB_NODE RB_NULL 1 RB_NULL,
        unstable_tree_node_list := [1],
        rmap_items := (rmap_items (ksm_init (\<lambda>i. 0) 0))
          (1 := \<lparr>slot = 1, address = 4096, page = 1, hash_max = 5, append_round = 0,
                 tree_node = None, head = None\<rparr>,
           2 := \<lparr>slot = 1, address = 8193, page = 2, hash_max = 3, append_round = 1,
                 tree_node = Some 1, head = None\<rparr>,
           3 := \<lparr>slot = 1, address = 12289, page = 3, hash_max = 7, append_round = 1,
                 tree_node = Some 1, head = None\<rparr>),
        tree_nodes := (tree_nodes (ksm_init (\<lambda>i. 0) 0))
          (1 := \<lparr>hash = 9, count = 0,
                 sub_root = RB_NODE RB_NULL 2 (RB_NODE RB_NULL 3 RB_NULL)\<rparr>),
        next_object := 2\<rparr>"

definition empty_subtree_example :: ksm_state where
  "empty_subtree_example =
     unstable_example
       \<lparr>tree_nodes := (tree_nodes unstable_example)
          (1 := \<lparr>hash = 9, count = 0, sub_root = RB_NULL\<rparr>)\<rparr>"

text \<open>
  The two states in which \<open>cmp_and_merge_page\<close> leaves an rmap item that it links into the
  unstable tree, as updates of the state before the call.  \<open>scanned_page\<close> is the part
  common to both: the item has lost its old flags and its \<open>hash_max\<close>, the page has been
  hashed and counted.  \<open>linked_first\<close>: no tree node carried the hash \<open>hsh\<close>; the item
  is the only one below the new tree node.  \<open>linked_sibling\<close>: the tree node \<open>t\<close> carried
  the hash and its sub-tree was searched by \<open>hash_max\<close>; the sub-tree of \<open>t\<close> is now \<open>sub\<close>.
\<close>

definition scanned_page :: "item_id \<Rightarrow> ksm_state \<Rightarrow> ksm_state" where
  "scanned_page it s =
     s\<lparr>rmap_items := (rmap_items s)
          (it := (rmap_items s it)
             \<lparr>address := address (rmap_items s it) AND PAGE_MASK, hash_max := 0\<rparr>),
       rshash_pos := rshash_pos s + (word_of_int HASH_STRENGTH_FULL - hash_strength s),
       ksm_pages_scanned := ksm_pages_scanned s + 1\<rparr>"

definition linked_first :: "item_id \<Rightarrow> u32 \<Rightarrow> ksm_state \<Rightarrow> ksm_state" where
  "linked_first it hsh s =
     (let t = next_object s;
          s = scanned_page it s
      in s\<lparr>rmap_items := (rmap_items s)
             (it := (rmap_items s it)
                \<lparr>tree_node := Some t,
                 address := address (rmap_items s it) OR UNSTABLE_FLAG,
                 append_round := ksm_scan_round s\<rparr>),
           tree_nodes := (tree_nodes s)
             (t := \<lparr>hash = hsh, count = 0, sub_root = RB_NODE RB_NULL it RB_NULL\<rparr>),
           root_unstable_tree := RB_NODE RB_NULL t RB_NULL,
           unstable_tree_node_list := t # unstable_tree_node_list s,
           next_object := t + 1,
           ksm_pages_unshared := ksm_pages_unshared s + 1\<rparr>)"



section \<open>Delta hashing agrees with hashing from scratch\<close>

lemma unmix_add_shift:
  fixes a :: u32
  assumes "b = a + push_bit 8 a" "c = b - push_bit 8 b"
  shows "c + push_bit 16 c = a"
proof -
  have wrap: "(4294967296 :: u32) = 0"
    by simp
  have "c + push_bit 16 c = a - 4294967296 * a"
    unfolding assms by (simp add: push_bit_eq_mult algebra_simps)
  then show ?thesis
    by (simp add: wrap)
qed

lemma unmix_xor_shift:
  fixes x :: u32
  assumes "y = x XOR drop_bit 12 x" "z = y XOR drop_bit 12 y"
  shows "z XOR drop_bit 24 z = x"
  unfolding assms by (rule bit_word_eqI) (auto simp add: bit_simps)

lemma hash_unmix_mix: "hash_unmix rn key index (hash_mix rn key index h) = h"
proof -
  define k where "k = key (unat (rn (nat index)))"
  define a where "a = h + k"
  define b where "b = a + push_bit 8 a"
  define y where "y = b XOR drop_bit 12 b"
  define z where "z = y XOR drop_bit 12 y"
  define c where "c = b - push_bit 8 b"
  have zb: "z XOR drop_bit 24 z = b"
    using y_def z_def by (rule unmix_xor_shift)
  have ca: "c + push_bit 16 c = a"
    using b_def c_def by (rule unmix_add_shift)
  have e: "(12::nat) * 2 = 24" "(8::nat) * 2 = 16"
    by simp_all
  have mix: "hash_mix rn key index h = y"
    unfolding hash_mix_def Let_def shiftl_def shiftr_def y_def b_def a_def k_def
    by (rule refl)
  have "hash_unmix rn key index y
          = (z XOR drop_bit 24 z) - push_bit 8 (z XOR drop_bit 24 z)
            + push_bit 16 ((z XOR drop_bit 24 z) - push_bit 8 (z XOR drop_bit 24 z)) - k"
    unfolding hash_unmix_def Let_def shiftl_def shiftr_def e z_def k_def
    by (rule refl)
  also have "\<dots> = c + push_bit 16 c - k"
    unfolding zb c_def by (rule refl)
  also have "\<dots> = h"
    unfolding ca a_def by simp
  finally show ?thesis
    unfolding mix .
qed

lemma HASH_FROM_TO_empty: "to \<le> index \<Longrightarrow> HASH_FROM_TO rn key index to h = h"
  by (simp add: HASH_FROM_TO.simps)

lemma HASH_FROM_TO_split:
  "index \<le> mid \<Longrightarrow> mid \<le> to \<Longrightarrow>
   HASH_FROM_TO rn key index to h
     = HASH_FROM_TO rn key mid to (HASH_FROM_TO rn key index mid h)"
proof (induction rn key index mid h rule: HASH_FROM_TO.induct)
  case (1 rn key index mid hash)
  show ?case
  proof (cases "index < mid")
    case True
    have l: "HASH_FROM_TO rn key index to hash
               = HASH_FROM_TO rn key (index + 1) to (hash_mix rn key index hash)"
      using True 1(3) by (subst HASH_FROM_TO.simps) simp
    have r: "HASH_FROM_TO rn key index mid hash
               = HASH_FROM_TO rn key (index + 1) mid (hash_mix rn key index hash)"
      using True by (subst HASH_FROM_TO.simps) simp
    show ?thesis
      unfolding l r using True 1 by simp
  next
    case False
    with 1 have "index = mid" by simp
    then show ?thesis
      by (simp add: HASH_FROM_TO_empty)
  qed
qed

lemma HASH_FROM_TO_last:
  "index \<le> to \<Longrightarrow>
   HASH_FROM_TO rn key index (to + 1) h
     = hash_mix rn key to (HASH_FROM_TO rn key index to h)"
proof -
  assume le: "index \<le> to"
  have "HASH_FROM_TO rn key index (to + 1) h
          = HASH_FROM_TO rn key to (to + 1) (HASH_FROM_TO rn key index to h)"
    using le by (intro HASH_FROM_TO_split) simp_all
  also have "\<dots> = hash_mix rn key to (HASH_FROM_TO rn key index to h)"
    by (subst HASH_FROM_TO.simps) (simp add: HASH_FROM_TO_empty)
  finally show ?thesis .
qed

lemma HASH_FROM_DOWN_TO_undo:
  "to \<le> index + 1 \<Longrightarrow>
   HASH_FROM_DOWN_TO rn key index to (HASH_FROM_TO rn key to (index + 1) h)
     = HASH_FROM_TO rn key to to h"
proof (induction rn key index to "HASH_FROM_TO rn key to (index + 1) h"
       arbitrary: h rule: HASH_FROM_DOWN_TO.induct)
  case (1 rn key index to)
  show ?case
  proof (cases "to \<le> index")
    case True
    have step: "HASH_FROM_TO rn key to (index + 1) h
                  = hash_mix rn key index (HASH_FROM_TO rn key to index h)"
      using True by (rule HASH_FROM_TO_last)
    have "HASH_FROM_DOWN_TO rn key index to (HASH_FROM_TO rn key to (index + 1) h)
            = HASH_FROM_DOWN_TO rn key (index - 1) to
                (HASH_FROM_TO rn key to (index - 1 + 1) h)"
      using True by (subst HASH_FROM_DOWN_TO.simps) (simp add: step hash_unmix_mix)
    also have "\<dots> = HASH_FROM_TO rn key to to h"
      using True 1 by (simp add: step hash_unmix_mix)
    finally show ?thesis .
  next
    case False
    with 1 have "index + 1 = to" by simp
    then show ?thesis
      by (subst HASH_FROM_DOWN_TO.simps) simp
  qed
qed

lemma HASH_FROM_DOWN_TO_inverse:
  "to \<le> from \<Longrightarrow>
   HASH_FROM_DOWN_TO rn key (from - 1) to (HASH_FROM_TO rn key to from h) = h"
  using HASH_FROM_DOWN_TO_undo [of to "from - 1" rn key h]
  by (simp add: HASH_FROM_TO_empty)

lemma random_sample_hash_low:
  "s \<le> HASH_STRENGTH_FULL \<Longrightarrow>
   random_sample_hash rn key s = HASH_FROM_TO rn key 0 s 0xdeadbeef"
  by (simp add: random_sample_hash_def)

lemma random_sample_hash_high:
  "HASH_STRENGTH_FULL \<le> s \<Longrightarrow>
   random_sample_hash rn key s
     = HASH_FROM_TO rn key 0 (s - HASH_STRENGTH_FULL)
         (HASH_FROM_TO rn key 0 HASH_STRENGTH_FULL 0xdeadbeef)"
  by (cases "s = HASH_STRENGTH_FULL") (simp_all add: random_sample_hash_def HASH_FROM_TO_empty)

lemma delta_hash_extend:
  assumes "0 \<le> from" "from < to"
  shows "delta_hash rn key from to (random_sample_hash rn key from)
           = random_sample_hash rn key to"
proof -
  let ?F = "HASH_STRENGTH_FULL"
  let ?H = "HASH_FROM_TO rn key"
  consider (above) "?F \<le> from" | (below) "to \<le> ?F" | (across) "from < ?F" "?F < to"
    by linarith
  then show ?thesis
  proof cases
    case above
    then have d: "delta_hash rn key from to = ?H (from - ?F) (to - ?F)"
      using assms by (simp add: delta_hash_def fun_eq_iff)
    have s: "?H 0 (to - ?F) (?H 0 ?F 0xdeadbeef)
            = ?H (from - ?F) (to - ?F) (?H 0 (from - ?F) (?H 0 ?F 0xdeadbeef))"
      using above assms by (intro HASH_FROM_TO_split) simp_all
    have f: "?F \<le> to"
      using above assms by simp
    show ?thesis
      unfolding d random_sample_hash_high [OF above] random_sample_hash_high [OF f] s ..
  next
    case below
    then have d: "delta_hash rn key from to = ?H from to"
      using assms by (simp add: delta_hash_def fun_eq_iff)
    have s: "?H 0 to 0xdeadbeef = ?H from to (?H 0 from 0xdeadbeef)"
      using assms by (intro HASH_FROM_TO_split) simp_all
    have f: "from \<le> ?F"
      using below assms by simp
    show ?thesis
      unfolding d random_sample_hash_low [OF below] random_sample_hash_low [OF f] s ..
  next
    case across
    then have d: "delta_hash rn key from to
                    = (\<lambda>h. ?H 0 (to - ?F) (?H from ?F h))"
      using assms by (simp add: delta_hash_def fun_eq_iff)
    have s: "?H 0 ?F 0xdeadbeef = ?H from ?F (?H 0 from 0xdeadbeef)"
      using across assms by (intro HASH_FROM_TO_split) simp_all
    have f: "from \<le> ?F" and t: "?F \<le> to"
      using across by simp_all
    show ?thesis
      unfolding d random_sample_hash_low [OF f] random_sample_hash_high [OF t] s ..
  qed
qed

lemma delta_hash_reverse:
  assumes "0 \<le> to" "to \<le> from"
  shows "delta_hash rn key from to (random_sample_hash rn key from)
           = random_sample_hash rn key to"
proof -
  let ?F = "HASH_STRENGTH_FULL"
  let ?H = "HASH_FROM_TO rn key"
  let ?D = "HASH_FROM_DOWN_TO rn key"
  consider (below) "from \<le> ?F" | (above) "?F < from" "?F \<le> to" | (across) "?F < from" "to < ?F"
    by linarith
  then show ?thesis
  proof cases
    case below
    have "?H 0 from 0xdeadbeef = ?H to from (?H 0 to 0xdeadbeef)"
      using assms by (intro HASH_FROM_TO_split) simp_all
    then show ?thesis
      using below assms
      by (simp add: delta_hash_def random_sample_hash_def Let_def HASH_FROM_DOWN_TO_inverse)
  next
    case above
    have split: "?H 0 (from - ?F) (?H 0 ?F 0xdeadbeef)
            = ?H (to - ?F) (from - ?F) (?H 0 (to - ?F) (?H 0 ?F 0xdeadbeef))"
      using above assms by (intro HASH_FROM_TO_split) simp_all
    have "?D (from - ?F - 1) (to - ?F) (?H (to - ?F) (from - ?F) (?H 0 (to - ?F) (?H 0 ?F 0xdeadbeef)))
            = ?H 0 (to - ?F) (?H 0 ?F 0xdeadbeef)"
      using above assms by (intro HASH_FROM_DOWN_TO_inverse) simp
    then show ?thesis
      using above assms split
      by (simp add: delta_hash_def random_sample_hash_def Let_def HASH_FROM_TO_empty)
  next
    case across
    have loop_back: "?D (from - ?F - 1) 0 (?H 0 (from - ?F) (?H 0 ?F 0xdeadbeef)) = ?H 0 ?F 0xdeadbeef"
      using across by (intro HASH_FROM_DOWN_TO_inverse) simp
    have split: "?H 0 ?F 0xdeadbeef = ?H to ?F (?H 0 to 0xdeadbeef)"
      using across assms by (intro HASH_FROM_TO_split) simp_all
    have "?D (?F - 1) to (?H to ?F (?H 0 to 0xdeadbeef)) = ?H 0 to 0xdeadbeef"
      using across by (intro HASH_FROM_DOWN_TO_inverse) simp
    then show ?thesis
      using across assms loop_back split
      by (simp add: delta_hash_def random_sample_hash_def Let_def)
  qed
qed

text \<open>
  Claim C1.  For every page, every table \<open>random_nums\<close> and all strengths \<open>from\<close> and
  \<open>to\<close> between 1 and \<open>HASH_STRENGTH_MAX\<close>, applying \<open>delta_hash\<close> to the hash of the
  page at strength \<open>from\<close> yields exactly the hash of the page at strength \<open>to\<close>:
  whether both strengths lie below \<open>HASH_STRENGTH_FULL\<close>, both in the loop-back region
  above it, or on different sides of it, and whether the hash is extended or reversed.
\<close>

theorem delta_hash_bit_exact:
  assumes "1 \<le> from" "from \<le> HASH_STRENGTH_MAX" "1 \<le> to" "to \<le> HASH_STRENGTH_MAX"
  shows "delta_hash rn key from to (random_sample_hash rn key from)
           = random_sample_hash rn key to"
proof (cases "from < to")
  case True
  with assms show ?thesis
    by (intro delta_hash_extend) simp_all
next
  case False
  with assms show ?thesis
    by (intro delta_hash_reverse) simp_all
qed

theorem delta_hash_bit_exact_witness:
  "(1::int) \<le> 4 \<and> 4 \<le> HASH_STRENGTH_MAX \<and> (1::int) \<le> 1030 \<and> 1030 \<le> HASH_STRENGTH_MAX
   \<and> delta_hash (\<lambda>i. word_of_nat (1023 - i)) (\<lambda>i. word_of_nat (i * i)) 4 1030
        (random_sample_hash (\<lambda>i. word_of_nat (1023 - i)) (\<lambda>i. word_of_nat (i * i)) 4)
      = random_sample_hash (\<lambda>i. word_of_nat (1023 - i)) (\<lambda>i. word_of_nat (i * i)) 1030"
proof -
  have b: "(4::int) \<le> HASH_STRENGTH_MAX" "(1030::int) \<le> HASH_STRENGTH_MAX"
    by (simp_all add: HASH_STRENGTH_MAX_def HASH_STRENGTH_FULL_def PAGE_SIZE_def)
  show ?thesis
    using b delta_hash_bit_exact [of 4 1030 "\<lambda>i. word_of_nat (1023 - i)" "\<lambda>i. word_of_nat (i * i)"]
    by simp
qed

section \<open>Rules for failure values\<close>

lemma ebind_Inr [simp]: "ebind (Inr x) f = f x"
  by (simp add: ebind_def)

lemma ebind_Inl [simp]: "ebind (Inl e) f = Inl e"
  by (simp add: ebind_def)

lemma ebind_eq_Inr: "ebind m f = Inr y \<longleftrightarrow> (\<exists>x. m = Inr x \<and> f x = Inr y)"
  by (cases m) simp_all

lemma BUG_ON_eq_Inr [simp]: "BUG_ON c s = Inr s' \<longleftrightarrow> \<not> c \<and> s' = s"
  by (auto simp: BUG_ON_def)

section \<open>The thrash filter divides by the number of merged pages\<close>

lemma vma_table_read_thrash [simp]:
  "vma_table_read (s\<lparr>ksm_thrash_threshold := x\<rparr>) i = vma_table_read s i"
  by (simp add: vma_table_read_def)

lemma inter_vma_table_read_thrash [simp]:
  "inter_vma_table_read (s\<lparr>ksm_thrash_threshold := x\<rparr>) i = inter_vma_table_read s i"
  by (simp add: inter_vma_table_read_def)

lemma dedup_ratio_sum_thrash:
  "dedup_ratio_sum (s\<lparr>ksm_thrash_threshold := x\<rparr>) sl = dedup_ratio_sum s sl"
  by (simp add: dedup_ratio_sum_def Let_def cong: if_cong option.case_cong)

lemma cal_dedup_ratio_unfiltered:
  "pages_scanned (slots s sl) \<noteq> 0 \<Longrightarrow>
   cal_dedup_ratio (s\<lparr>ksm_thrash_threshold := 0\<rparr>) sl = dedup_ratio_sum s sl"
  by (cases "dedup_ratio_sum s sl") (simp_all add: cal_dedup_ratio_def dedup_ratio_sum_thrash)

lemma dedup_ratio_sum_thrash_example: "dedup_ratio_sum thrash_example 1 = Inr 0"
  by (simp add: thrash_example_def dedup_ratio_sum_def ksm_init_def alloc_vma_slot_def
      for_loop.simps vma_table_read_def inter_vma_table_read_def intertab_vma_offset_def
      ksm_vma_table_size_def ksm_inter_vma_table_len_def KSM_DUP_VMA_MAX_def BUG_ON_def
      KSM_DEDUP_RATIO_SCALE_def)

text \<open>
  Claim C10.  For an area that has been scanned (\<open>pages_scanned\<close> is not zero, so that
  \<open>cal_dedup_ratio\<close> does not return early), the computation of the deduplication ratio
  returns a value only if thrash filtering is disabled or the area has merged pages.
  With filtering enabled and \<open>pages_merged = 0\<close> the computation that would otherwise
  succeed ends in the division by \<open>pages_merged\<close>, a divide error.  Conversely, with
  filtering disabled or \<open>pages_merged\<close> not zero the filter adds no failure.
\<close>

theorem cal_dedup_ratio_thrash_division:
  assumes scanned: "pages_scanned (slots s sl) \<noteq> 0"
  shows "(cal_dedup_ratio s sl = Inr r
            \<longrightarrow> ksm_thrash_threshold s = 0 \<or> pages_merged (slots s sl) \<noteq> 0)
       \<and> (ksm_thrash_threshold s \<noteq> 0 \<and> pages_merged (slots s sl) = 0
            \<and> cal_dedup_ratio (s\<lparr>ksm_thrash_threshold := 0\<rparr>) sl = Inr r0
            \<longrightarrow> cal_dedup_ratio s sl = Inl DIVIDE_ERROR)
       \<and> ((ksm_thrash_threshold s = 0 \<or> pages_merged (slots s sl) \<noteq> 0)
            \<and> cal_dedup_ratio (s\<lparr>ksm_thrash_threshold := 0\<rparr>) sl = Inr r0
            \<longrightarrow> (\<exists>r'. cal_dedup_ratio s sl = Inr r'))"
proof (cases "dedup_ratio_sum s sl")
  case (Inl e)
  with scanned show ?thesis
    by (simp add: cal_dedup_ratio_unfiltered) (simp add: cal_dedup_ratio_def)
next
  case (Inr ret)
  with scanned show ?thesis
    by (simp add: cal_dedup_ratio_unfiltered) (auto simp add: cal_dedup_ratio_def Let_def)
qed

theorem cal_dedup_ratio_thrash_division_witness:
  "pages_scanned (slots thrash_example 1) \<noteq> 0
   \<and> ksm_thrash_threshold thrash_example \<noteq> 0
   \<and> pages_merged (slots thrash_example 1) = 0
   \<and> cal_dedup_ratio (thrash_example\<lparr>ksm_thrash_threshold := 0\<rparr>) 1 = Inr 0
   \<and> cal_dedup_ratio thrash_example 1 = Inl DIVIDE_ERROR"
proof -
  have scanned: "pages_scanned (slots thrash_example 1) \<noteq> 0"
    by (simp add: thrash_example_def)
  have filter: "ksm_thrash_threshold thrash_example \<noteq> 0"
    and merged: "pages_merged (slots thrash_example 1) = 0"
    by (simp_all add: thrash_example_def ksm_init_def alloc_vma_slot_def)
  have unfiltered: "cal_dedup_ratio (thrash_example\<lparr>ksm_thrash_threshold := 0\<rparr>) 1 = Inr 0"
    unfolding cal_dedup_ratio_unfiltered [OF scanned] by (rule dedup_ratio_sum_thrash_example)
  show ?thesis
    using scanned filter merged unfiltered
      cal_dedup_ratio_thrash_division [OF scanned, of 0 0]
    by blast
qed

section \<open>The inter-vma table stays within its bounds\<close>

lemma BUG_ON_cases: "BUG_ON c s = Inl BUG \<or> BUG_ON c s = Inr s"
  by (simp add: BUG_ON_def)

lemma BUG_ON_not_oob [simp]: "BUG_ON c s \<noteq> Inl OUT_OF_BOUNDS"
  by (simp add: BUG_ON_def)

lemma first_free_index_ok:
  assumes ok: "intertab_ok s"
  shows "j \<le> unat (ksm_vma_table_index_end s) \<Longrightarrow>
         \<exists>i. first_free_index s j = Inr i \<and> j \<le> i \<and> i \<le> unat (ksm_vma_table_index_end s)
              \<and> ksm_vma_table s i = None"
proof (induction "unat (ksm_vma_table_index_end s) - j" arbitrary: j)
  case 0
  then have j: "j = unat (ksm_vma_table_index_end s)" by simp
  with ok have "ksm_vma_table s j = None" "j < ksm_vma_table_size"
    by (auto simp: intertab_ok_def ksm_vma_table_size_def)
  then have "first_free_index s j = Inr j"
    by (subst first_free_index.simps) (simp add: vma_table_read_def)
  with j \<open>ksm_vma_table s j = None\<close> show ?case by simp
next
  case (Suc n)
  from Suc.hyps(2) Suc.prems ok have lt: "j < ksm_vma_table_size"
    by (auto simp: intertab_ok_def ksm_vma_table_size_def)
  show ?case
  proof (cases "ksm_vma_table s j")
    case None
    with lt have "first_free_index s j = Inr j"
      by (subst first_free_index.simps) (simp add: vma_table_read_def)
    with None Suc.prems show ?thesis by simp
  next
    case (Some other)
    with lt have step: "first_free_index s j = first_free_index s (j + 1)"
      by (subst first_free_index.simps) (simp add: vma_table_read_def)
    from Suc.hyps(2) have "n = unat (ksm_vma_table_index_end s) - (j + 1)"
      and "j + 1 \<le> unat (ksm_vma_table_index_end s)" by simp_all
    from Suc.hyps(1) [OF this] obtain i where
      "first_free_index s (j + 1) = Inr i" "j + 1 \<le> i" "i \<le> unat (ksm_vma_table_index_end s)"
      "ksm_vma_table s i = None" by blast
    with step show ?thesis by auto
  qed
qed

lemma tracked_index_bound:
  assumes "intertab_ok s" "ksm_index (slots s sl) \<noteq> -1"
  shows "0 \<le> ksm_index (slots s sl)"
    and "nat (ksm_index (slots s sl)) < unat (ksm_vma_table_index_end s)"
    and "ksm_index (slots s sl) < int (ksm_vma_table_size - 1)"
proof -
  from assms have a: "0 \<le> ksm_index (slots s sl)"
    and b: "ksm_vma_table s (nat (ksm_index (slots s sl))) = Some sl"
    by (auto simp: intertab_ok_def)
  show "0 \<le> ksm_index (slots s sl)" by (rule a)
  show c: "nat (ksm_index (slots s sl)) < unat (ksm_vma_table_index_end s)"
  proof (rule ccontr)
    assume "\<not> ?thesis"
    then have "unat (ksm_vma_table_index_end s) \<le> nat (ksm_index (slots s sl))" by simp
    with assms(1) have "ksm_vma_table s (nat (ksm_index (slots s sl))) = None"
      by (auto simp: intertab_ok_def)
    with b show False by simp
  qed
  from assms(1) have "unat (ksm_vma_table_index_end s) \<le> ksm_vma_table_size - 1"
    by (simp add: intertab_ok_def)
  with c a show "ksm_index (slots s sl) < int (ksm_vma_table_size - 1)" by linarith
qed

lemma index_end_word:
  assumes "unat (e :: u64) \<le> 2047" "i \<le> unat e"
  shows "(of_nat i = e) = (i = unat e)" "\<not> (of_nat i > e)"
    "unat (e + 1) = unat e + 1"
proof -
  have u: "unat (of_nat i :: u64) = i"
    using assms(2) by (rule le_unat_uoi)
  show "(of_nat i = e) = (i = unat e)"
    using u by (metis of_nat_unat ucast_id)
  show "\<not> (of_nat i > e)"
    using u assms by (simp add: word_less_nat_alt)
  show "unat (e + 1) = unat e + 1"
    using assms by (simp add: unat_word_ariths)
qed

lemma enter_inter_vma_table_result:
  assumes ok: "intertab_ok s"
  shows "\<exists>i. i \<le> unat (ksm_vma_table_index_end s) \<and> ksm_vma_table s i = None
            \<and> enter_inter_vma_table sl s =
                 (if unat (ksm_vma_table_index_end (entered sl i s)) > ksm_vma_table_size - 1
                  then Inl BUG else Inr (entered sl i s))"
proof -
  from first_free_index_ok [OF ok, of 0] obtain i where
    i: "first_free_index s 0 = Inr i" "i \<le> unat (ksm_vma_table_index_end s)"
       "ksm_vma_table s i = None" by auto
  from ok have e: "unat (ksm_vma_table_index_end s) \<le> 2047"
    by (simp add: intertab_ok_def ksm_vma_table_size_def)
  note w = index_end_word [OF e i(2)]
  from e i(2) have lt: "i < ksm_vma_table_size"
    by (simp add: ksm_vma_table_size_def)
  have "enter_inter_vma_table sl s =
          (if unat (ksm_vma_table_index_end (entered sl i s)) > ksm_vma_table_size - 1
           then Inl BUG else Inr (entered sl i s))"
    using i lt w e
    by (simp add: enter_inter_vma_table_def vma_table_read_def vma_table_write_def BUG_ON_def
        entered_def Let_def word_less_nat_alt ksm_vma_table_size_def)
  with i show ?thesis by blast
qed

lemma entered_ok:
  assumes ok: "intertab_ok s" and new: "ksm_index (slots s sl) = -1"
    and i: "i \<le> unat (ksm_vma_table_index_end s)" "ksm_vma_table s i = None"
    and fit: "unat (ksm_vma_table_index_end (entered sl i s)) \<le> ksm_vma_table_size - 1"
  shows "intertab_ok (entered sl i s)"
proof -
  from ok have e: "unat (ksm_vma_table_index_end s) \<le> 2047"
    by (simp add: intertab_ok_def ksm_vma_table_size_def)
  note w = index_end_word [OF e i(1)]
  have notin: "ksm_vma_table s j \<noteq> Some sl" for j
    using ok new by (auto simp: intertab_ok_def)
  show ?thesis
    unfolding intertab_ok_def
  proof (intro conjI allI impI)
    show "unat (ksm_vma_table_index_end (entered sl i s)) \<le> ksm_vma_table_size - 1"
      by (rule fit)
  next
    fix j assume "unat (ksm_vma_table_index_end (entered sl i s)) \<le> j"
    then show "ksm_vma_table (entered sl i s) j = None"
      using ok i w by (auto simp: entered_def intertab_ok_def split: if_splits)
  next
    fix j x assume "ksm_vma_table (entered sl i s) j = Some x"
    then show "ksm_index (slots (entered sl i s) x) = int j"
      using ok notin by (auto simp: entered_def intertab_ok_def split: if_splits)
  next
    fix x assume "ksm_index (slots (entered sl i s) x) \<noteq> - 1"
    then show "0 \<le> ksm_index (slots (entered sl i s) x)"
      using ok by (auto simp: entered_def intertab_ok_def split: if_splits)
  next
    fix x assume "ksm_index (slots (entered sl i s) x) \<noteq> - 1"
    then show "ksm_vma_table (entered sl i s) (nat (ksm_index (slots (entered sl i s) x))) = Some x"
      using ok i by (auto simp: entered_def intertab_ok_def split: if_splits)
  qed
qed

lemma intertab_vma_offset_sym: "intertab_vma_offset i j = intertab_vma_offset j i"
  by (simp add: intertab_vma_offset_def)

lemma intertab_vma_offset_bound:
  assumes "0 \<le> i" "i < 2047" "0 \<le> j" "j < 2047"
  shows "intertab_vma_offset i j < ksm_inter_vma_table_len"
proof -
  have tri: "a * (a + 1) div 2 + b < 2097152" if "0 \<le> b" "b \<le> a" "a < 2047" for a b :: int
  proof -
    from that have "a * (a + 1) \<le> 2046 * 2047"
      by (intro mult_mono) simp_all
    then have "a * (a + 1) div 2 \<le> 2046 * 2047 div 2"
      by (rule zdiv_mono1) simp
    with that show ?thesis by simp
  qed
  have nonneg: "0 \<le> a * (a + 1) div 2 + b" if "0 \<le> b" "0 \<le> a" for a b :: int
    using that by (simp add: pos_imp_zdiv_nonneg_iff)
  have val: "unat (word_of_int x :: u32) = nat x" if "0 \<le> x" "x < 2097152" for x :: int
  proof -
    from that have "take_bit 32 x = x"
      by (simp add: take_bit_int_eq_self)
    then show ?thesis
      by (simp add: unat_eq_nat_uint unsigned_of_int)
  qed
  show ?thesis
  proof (cases "i < j")
    case True
    with assms tri [of i j] nonneg [of i j] val [of "j * (j + 1) div 2 + i"] show ?thesis
      by (simp add: intertab_vma_offset_def ksm_inter_vma_table_len_def KSM_DUP_VMA_MAX_def)
  next
    case False
    with assms tri [of j i] nonneg [of j i] val [of "i * (i + 1) div 2 + j"] show ?thesis
      by (simp add: intertab_vma_offset_def ksm_inter_vma_table_len_def KSM_DUP_VMA_MAX_def)
  qed
qed

lemma entered_live:
  assumes "intertab_live s" "ksm_vma_table s i = None"
  shows "intertab_live (entered sl i s)"
  unfolding intertab_live_def
proof (intro allI impI)
  fix k assume "ksm_inter_vma_table (entered sl i s) k \<noteq> 0"
  then have "ksm_inter_vma_table s k \<noteq> 0" by (simp add: entered_def)
  with assms(1) obtain a b where
    "ksm_vma_table s a \<noteq> None" "ksm_vma_table s b \<noteq> None" "k = intertab_vma_offset (int a) (int b)"
    unfolding intertab_live_def by blast
  then show "\<exists>a b. ksm_vma_table (entered sl i s) a \<noteq> None
                 \<and> ksm_vma_table (entered sl i s) b \<noteq> None
                 \<and> k = intertab_vma_offset (int a) (int b)"
    by (intro exI [of _ a] exI [of _ b]) (simp add: entered_def)
qed

lemma ensure_entered:
  assumes ok: "intertab_ok s"
  shows "(if ksm_index (slots s sl) = -1 then enter_inter_vma_table sl s else Inr s) = Inl BUG
       \<or> (\<exists>s'. (if ksm_index (slots s sl) = -1 then enter_inter_vma_table sl s else Inr s) = Inr s'
             \<and> intertab_ok s' \<and> (intertab_live s \<longrightarrow> intertab_live s')
             \<and> ksm_index (slots s' sl) \<noteq> -1
             \<and> (\<forall>x. ksm_index (slots s x) \<noteq> -1
                    \<longrightarrow> ksm_index (slots s' x) = ksm_index (slots s x))
             \<and> ksm_inter_vma_table s' = ksm_inter_vma_table s)"
proof (cases "ksm_index (slots s sl) = -1")
  case False
  with ok show ?thesis by simp
next
  case True
  from enter_inter_vma_table_result [OF ok, of sl] obtain i where
    i: "i \<le> unat (ksm_vma_table_index_end s)" "ksm_vma_table s i = None"
    and res: "enter_inter_vma_table sl s =
                (if unat (ksm_vma_table_index_end (entered sl i s)) > ksm_vma_table_size - 1
                 then Inl BUG else Inr (entered sl i s))" by blast
  show ?thesis
  proof (cases "unat (ksm_vma_table_index_end (entered sl i s)) > ksm_vma_table_size - 1")
    case True
    with res \<open>ksm_index (slots s sl) = -1\<close> show ?thesis by simp
  next
    case False
    then have fit: "unat (ksm_vma_table_index_end (entered sl i s)) \<le> ksm_vma_table_size - 1"
      by simp
    have "intertab_ok (entered sl i s)"
      using ok True i fit by (rule entered_ok)
    moreover have "intertab_live s \<longrightarrow> intertab_live (entered sl i s)"
      using i(2) by (simp add: entered_live)
    moreover have "ksm_index (slots (entered sl i s) sl) \<noteq> -1"
      by (simp add: entered_def)
    moreover have "\<forall>x. ksm_index (slots s x) \<noteq> -1
                     \<longrightarrow> ksm_index (slots (entered sl i s) x) = ksm_index (slots s x)"
      using True by (auto simp: entered_def)
    moreover have "ksm_inter_vma_table (entered sl i s) = ksm_inter_vma_table s"
      by (simp add: entered_def)
    ultimately show ?thesis
      using res False True by simp
  qed
qed

lemma tracked_in_table:
  assumes "intertab_ok s" "ksm_index (slots s x) \<noteq> -1"
  shows "ksm_vma_table s (nat (ksm_index (slots s x))) = Some x"
  using assms by (simp add: intertab_ok_def)

lemma tracked_finite:
  assumes ok: "intertab_ok s"
  shows "finite {sl. ksm_index (slots s sl) \<noteq> -1}"
    and "card {sl. ksm_index (slots s sl) \<noteq> -1} \<le> unat (ksm_vma_table_index_end s)"
proof -
  define T where "T = {sl. ksm_index (slots s sl) \<noteq> -1}"
  define f where "f = (\<lambda>sl. nat (ksm_index (slots s sl)))"
  have tab: "ksm_vma_table s (f x) = Some x" if "x \<in> T" for x
    using that tracked_in_table [OF ok, of x] by (simp add: T_def f_def)
  have inj: "inj_on f T"
  proof (rule inj_onI)
    fix x y assume "x \<in> T" "y \<in> T" "f x = f y"
    then have "Some x = Some y"
      using tab [of x] tab [of y] by metis
    then show "x = y" by (rule option.inject [THEN iffD1])
  qed
  have sub: "f ` T \<subseteq> {..<unat (ksm_vma_table_index_end s)}"
  proof
    fix i assume "i \<in> f ` T"
    then obtain x where x: "x \<in> T" "i = f x" by blast
    from x(1) have "ksm_index (slots s x) \<noteq> -1" by (simp add: T_def)
    from tracked_index_bound(2) [OF ok this] x(2)
    show "i \<in> {..<unat (ksm_vma_table_index_end s)}"
      by (simp add: f_def)
  qed
  have "finite (f ` T)"
    using sub finite_lessThan by (rule finite_subset)
  then have fin: "finite T"
    using inj by (rule finite_imageD)
  have "card T \<le> card {..<unat (ksm_vma_table_index_end s)}"
    using inj sub by (rule card_inj_on_le) simp
  then have crd: "card T \<le> unat (ksm_vma_table_index_end s)" by simp
  from fin show "finite {sl. ksm_index (slots s sl) \<noteq> -1}" by (simp add: T_def)
  from crd show "card {sl. ksm_index (slots s sl) \<noteq> -1} \<le> unat (ksm_vma_table_index_end s)"
    by (simp add: T_def)
qed

lemma matrix_update_ok:
  "intertab_ok (s\<lparr>ksm_inter_vma_table := m\<rparr>) = intertab_ok s"
  by (simp add: intertab_ok_def)

lemma inc_vma_intertab_pair_ok:
  assumes ok: "intertab_ok s"
  shows "inc_vma_intertab_pair a b s = Inl BUG
       \<or> (\<exists>s'. inc_vma_intertab_pair a b s = Inr s' \<and> intertab_ok s'
              \<and> (intertab_live s \<longrightarrow> intertab_live s'))"
proof -
  let ?m1 = "if ksm_index (slots s a) = -1 then enter_inter_vma_table a s else Inr s"
  from ensure_entered [OF ok, of a] consider
    (bug) "?m1 = Inl BUG"
    | (fine) s1 where "?m1 = Inr s1" "intertab_ok s1" "intertab_live s \<longrightarrow> intertab_live s1"
        "ksm_index (slots s1 a) \<noteq> -1" by blast
  then show ?thesis
  proof cases
    case bug
    then show ?thesis
      by (simp add: inc_vma_intertab_pair_def)
  next
    case fine
    let ?m2 = "if ksm_index (slots s1 b) = -1 then enter_inter_vma_table b s1 else Inr s1"
    from ensure_entered [OF fine(2), of b] consider
      (bug2) "?m2 = Inl BUG"
      | (fine2) s2 where "?m2 = Inr s2" "intertab_ok s2" "intertab_live s1 \<longrightarrow> intertab_live s2"
          "ksm_index (slots s2 b) \<noteq> -1"
          "\<forall>x. ksm_index (slots s1 x) \<noteq> -1 \<longrightarrow> ksm_index (slots s2 x) = ksm_index (slots s1 x)"
        by blast
    then show ?thesis
    proof cases
      case bug2
      with fine(1) show ?thesis
        by (simp add: inc_vma_intertab_pair_def)
    next
      case fine2
      define ia where "ia = ksm_index (slots s2 a)"
      define ib where "ib = ksm_index (slots s2 b)"
      define k where "k = intertab_vma_offset ia ib"
      define v where "v = ksm_inter_vma_table s2 k"
      define s3 where "s3 = s2\<lparr>ksm_inter_vma_table := (ksm_inter_vma_table s2)(k := v + 1)\<rparr>"
      from fine(4) fine2(5) have a: "ia \<noteq> -1"
        by (simp add: ia_def)
      from fine2(4) have b: "ib \<noteq> -1"
        by (simp add: ib_def)
      from tracked_index_bound [OF fine2(2), of a] a
      have ia: "0 \<le> ia" "ia < 2047" "ksm_vma_table s2 (nat ia) = Some a"
        using fine2(2) by (auto simp: ia_def ksm_vma_table_size_def intertab_ok_def)
      from tracked_index_bound [OF fine2(2), of b] b
      have ib: "0 \<le> ib" "ib < 2047" "ksm_vma_table s2 (nat ib) = Some b"
        using fine2(2) by (auto simp: ib_def ksm_vma_table_size_def intertab_ok_def)
      have kb: "k < ksm_inter_vma_table_len"
        unfolding k_def using ia(1,2) ib(1,2) by (rule intertab_vma_offset_bound)
      have res: "inc_vma_intertab_pair a b s = BUG_ON (v + 1 = 0) s3"
        using fine(1) fine2(1) kb
        by (simp add: inc_vma_intertab_pair_def Let_def inter_vma_table_read_def
            inter_vma_table_write_def ia_def [symmetric] ib_def [symmetric] k_def [symmetric]
            v_def [symmetric] s3_def [symmetric])
      have ok3: "intertab_ok s3"
        using fine2(2) by (simp add: s3_def matrix_update_ok)
      have live3: "intertab_live s3" if live2: "intertab_live s2"
        unfolding intertab_live_def
      proof (intro allI impI)
        fix k' assume nz: "ksm_inter_vma_table s3 k' \<noteq> 0"
        show "\<exists>i j. ksm_vma_table s3 i \<noteq> None \<and> ksm_vma_table s3 j \<noteq> None
                 \<and> k' = intertab_vma_offset (int i) (int j)"
        proof (cases "k' = k")
          case True
          with ia ib show ?thesis
            by (intro exI [of _ "nat ia"] exI [of _ "nat ib"]) (simp add: s3_def k_def)
        next
          case False
          with nz have "ksm_inter_vma_table s2 k' \<noteq> 0"
            by (simp add: s3_def)
          with live2 show ?thesis
            unfolding intertab_live_def by (simp add: s3_def)
        qed
      qed
      have "intertab_live s \<longrightarrow> intertab_live s3"
        using fine(3) fine2(3) live3 by blast
      then show ?thesis
        using res ok3 by (cases "v + 1 = 0") (simp_all add: BUG_ON_def)
    qed
  qed
qed

lemma observe_duplicates_ok:
  "intertab_ok s \<Longrightarrow>
   observe_duplicates ps s = Inl BUG
   \<or> (\<exists>s'. observe_duplicates ps s = Inr s' \<and> intertab_ok s'
          \<and> (intertab_live s \<longrightarrow> intertab_live s'))"
proof (induction ps arbitrary: s)
  case Nil
  then show ?case by simp
next
  case (Cons p ps)
  obtain a b where p: "p = (a, b)" by (cases p)
  from inc_vma_intertab_pair_ok [OF Cons.prems, of a b] show ?case
  proof
    assume "inc_vma_intertab_pair a b s = Inl BUG"
    then show ?thesis by (simp add: p)
  next
    assume "\<exists>s'. inc_vma_intertab_pair a b s = Inr s' \<and> intertab_ok s'
              \<and> (intertab_live s \<longrightarrow> intertab_live s')"
    then obtain s' where s': "inc_vma_intertab_pair a b s = Inr s'" "intertab_ok s'"
      "intertab_live s \<longrightarrow> intertab_live s'"
      by blast
    from Cons.IH [OF s'(2)] s'(1) s'(3) show ?thesis
      by (auto simp add: p)
  qed
qed

lemma intertab_ok_ksm_init: "intertab_ok (ksm_init nums cost)"
  by (simp add: intertab_ok_def ksm_init_def alloc_vma_slot_def ksm_vma_table_size_def)

lemma intertab_live_ksm_init: "intertab_live (ksm_init nums cost)"
  by (simp add: intertab_live_def ksm_init_def)

text \<open>
  Claim C9.  From a state in which the table is consistent, as it is after
  initialisation, no sequence of duplicate observations reads or writes
  \<open>ksm_vma_table\<close> at an index of 2048 or more, or \<open>ksm_inter_vma_table\<close> outside the
  counters allocated for it: the run either stops at a \<open>BUG_ON\<close> or returns, never with
  an access out of bounds.  When it returns, at most \<open>KSM_DUP_VMA_MAX = 2048\<close> areas
  carry a slot-number, and every slot-number lies between 0 and 2047.
\<close>

theorem intertab_within_bounds:
  assumes ok: "intertab_ok s"
  shows "observe_duplicates ps s \<noteq> Inl OUT_OF_BOUNDS
       \<and> (\<forall>s'. observe_duplicates ps s = Inr s' \<longrightarrow>
             finite {sl. ksm_index (slots s' sl) \<noteq> -1}
             \<and> card {sl. ksm_index (slots s' sl) \<noteq> -1} \<le> KSM_DUP_VMA_MAX
             \<and> (\<forall>sl. ksm_index (slots s' sl) \<noteq> -1 \<longrightarrow>
                   0 \<le> ksm_index (slots s' sl)
                   \<and> ksm_index (slots s' sl) < int KSM_DUP_VMA_MAX))"
proof -
  from observe_duplicates_ok [OF ok, of ps] show ?thesis
  proof
    assume "observe_duplicates ps s = Inl BUG"
    then show ?thesis by simp
  next
    assume "\<exists>s'. observe_duplicates ps s = Inr s' \<and> intertab_ok s'
              \<and> (intertab_live s \<longrightarrow> intertab_live s')"
    then obtain s' where s': "observe_duplicates ps s = Inr s'" "intertab_ok s'" by blast
    from s'(2) have e: "unat (ksm_vma_table_index_end s') \<le> 2047"
      by (simp add: intertab_ok_def ksm_vma_table_size_def)
    have "card {sl. ksm_index (slots s' sl) \<noteq> -1} \<le> KSM_DUP_VMA_MAX"
      using tracked_finite(2) [OF s'(2)] e by (simp add: KSM_DUP_VMA_MAX_def)
    moreover have "0 \<le> ksm_index (slots s' sl) \<and> ksm_index (slots s' sl) < int KSM_DUP_VMA_MAX"
      if "ksm_index (slots s' sl) \<noteq> -1" for sl
      using tracked_index_bound(1,3) [OF s'(2) that]
      by (simp add: KSM_DUP_VMA_MAX_def ksm_vma_table_size_def)
    ultimately show ?thesis
      using s'(1) tracked_finite(1) [OF s'(2)] by simp
  qed
qed

lemma observe_duplicates_example:
  "\<exists>s'. observe_duplicates [(1, 2), (1, 1)] (ksm_init (\<lambda>i. 0) 0) = Inr s'"
  by (simp add: inc_vma_intertab_pair_def enter_inter_vma_table_def first_free_index.simps
      vma_table_read_def vma_table_write_def inter_vma_table_read_def inter_vma_table_write_def
      intertab_vma_offset_def ksm_init_def alloc_vma_slot_def BUG_ON_def Let_def
      ksm_vma_table_size_def ksm_inter_vma_table_len_def KSM_DUP_VMA_MAX_def)

theorem intertab_within_bounds_witness:
  "intertab_ok (ksm_init (\<lambda>i. 0) 0)
   \<and> (\<exists>s'. observe_duplicates [(1, 2), (1, 1)] (ksm_init (\<lambda>i. 0) 0) = Inr s'
          \<and> card {sl. ksm_index (slots s' sl) \<noteq> -1} \<le> KSM_DUP_VMA_MAX
          \<and> (\<forall>sl. ksm_index (slots s' sl) \<noteq> -1 \<longrightarrow>
                0 \<le> ksm_index (slots s' sl) \<and> ksm_index (slots s' sl) < int KSM_DUP_VMA_MAX))"
proof -
  have ok: "intertab_ok (ksm_init (\<lambda>i. 0) 0)"
    by (rule intertab_ok_ksm_init)
  from observe_duplicates_example obtain s' where
    run: "observe_duplicates [(1, 2), (1, 1)] (ksm_init (\<lambda>i. 0) 0) = Inr s'" by blast
  show ?thesis
    using ok run intertab_within_bounds [OF ok, of "[(1, 2), (1, 1)]"] by blast
qed

section \<open>Rules for results of functions that may fail\<close>

lemma returns_Inr [simp]: "returns (Inr x) P = P x"
  by (simp add: returns_def)

lemma returns_Inl [simp]: "returns (Inl e) P"
  by (simp add: returns_def)

lemma returns_ebind [simp]: "returns (ebind m f) P = returns m (\<lambda>x. returns (f x) P)"
  by (cases m) simp_all

lemma returns_BUG_ON [simp]: "returns (BUG_ON c s) P = (\<not> c \<longrightarrow> P s)"
  by (simp add: BUG_ON_def)

lemma returnsD: "returns m P \<Longrightarrow> m = Inr x \<Longrightarrow> P x"
  by simp

lemma returnsI: "(\<And>x. m = Inr x \<Longrightarrow> P x) \<Longrightarrow> returns m P"
  by (cases m) simp_all

lemma returns_mono: "returns m P \<Longrightarrow> (\<And>x. P x \<Longrightarrow> Q x) \<Longrightarrow> returns m Q"
  by (cases m) simp_all

lemma returns_conj: "returns m P \<Longrightarrow> returns m Q \<Longrightarrow> returns m (\<lambda>x. P x \<and> Q x)"
  by (cases m) simp_all

lemma returns_for_each:
  assumes "P s" and "\<And>x t. x \<in> set xs \<Longrightarrow> P t \<Longrightarrow> returns (body x t) P"
  shows "returns (for_each xs body s) P"
  using assms
proof (induction xs arbitrary: s)
  case Nil
  then show ?case by simp
next
  case (Cons x xs)
  have step: "returns (body x s) P"
    using Cons.prems by simp
  show ?case
  proof (cases "body x s")
    case (Inl e)
    then show ?thesis by simp
  next
    case (Inr t)
    with step have "P t" by simp
    then have "returns (for_each xs body t) P"
      using Cons.prems(2) by (intro Cons.IH) simp_all
    with Inr show ?thesis by simp
  qed
qed

lemma returns_for_loop:
  assumes "P i s" "i \<le> hi"
    and "\<And>j t. i \<le> j \<Longrightarrow> j < hi \<Longrightarrow> P j t \<Longrightarrow> returns (body j t) (P (j + 1))"
  shows "returns (for_loop i hi body s) (P hi)"
  using assms
proof (induction i hi body s rule: for_loop.induct)
  case (1 i hi body s)
  show ?case
  proof (cases "i < hi")
    case False
    with 1(2,3) show ?thesis
      by (simp add: for_loop.simps)
  next
    case True
    have step: "returns (body i s) (P (i + 1))"
      using 1(2,4) True by simp
    show ?thesis
    proof (cases "body i s")
      case (Inl e)
      with True show ?thesis by (simp add: for_loop.simps)
    next
      case (Inr t)
      with step have "P (i + 1) t" by simp
      then have "returns (for_loop (i + 1) hi body t) (P hi)"
        using True Inr 1(4) by (intro 1(1)) simp_all
      with True Inr show ?thesis by (simp add: for_loop.simps)
    qed
  qed
qed

section \<open>Installing an rmap item in the unstable tree\<close>

lemma rb_search_in_set: "rb_search keyf v t = Some x \<Longrightarrow> x \<in> rb_set t"
  by (induction t) (auto simp: Let_def split: if_splits)

lemma rb_set_rb_insert [simp]: "rb_set (rb_insert keyf v new t) = insert new (rb_set t)"
  by (induction t) auto

lemma UNSTABLE_FLAG_neq_0 [simp]: "UNSTABLE_FLAG \<noteq> 0"
  by (simp add: UNSTABLE_FLAG_def)

lemma tree_nodes_rmap_item_hash_max [simp]:
  "tree_nodes (snd (rmap_item_hash_max it hsh s)) = tree_nodes s"
  "ksm_scan_round (snd (rmap_item_hash_max it hsh s)) = ksm_scan_round s"
  "root_unstable_tree (snd (rmap_item_hash_max it hsh s)) = root_unstable_tree s"
  by (simp_all add: rmap_item_hash_max_def page_hash_max_def Let_def)

lemma rmap_item_hash_max_frame:
  "rmap_items (snd (rmap_item_hash_max it hsh s)) =
     (rmap_items s)(it := (rmap_items s it)\<lparr>hash_max := fst (rmap_item_hash_max it hsh s)\<rparr>)"
  "ksm_pages_unshared (snd (rmap_item_hash_max it hsh s)) = ksm_pages_unshared s"
  "unstable_tree_node_list (snd (rmap_item_hash_max it hsh s)) = unstable_tree_node_list s"
  "next_object (snd (rmap_item_hash_max it hsh s)) = next_object s"
  by (simp_all add: rmap_item_hash_max_def page_hash_max_def Let_def fun_eq_iff)

lemma unstable_example_fields:
  "root_unstable_tree unstable_example = RB_NODE RB_NULL 1 RB_NULL"
  "tree_nodes unstable_example 1 =
     \<lparr>hash = 9, count = 0, sub_root = RB_NODE RB_NULL 2 (RB_NODE RB_NULL 3 RB_NULL)\<rparr>"
  "hash_max (rmap_items unstable_example 1) = 5"
  "hash_max (rmap_items unstable_example 2) = 3"
  "hash_max (rmap_items unstable_example 3) = 7"
  "ksm_scan_round unstable_example = 1"
  "ksm_pages_unshared unstable_example = 2"
  "unstable_tree_node_list unstable_example = [1]"
  "rmap_items unstable_example 1 =
     \<lparr>slot = 1, address = 4096, page = 1, hash_max = 5, append_round = 0,
      tree_node = None, head = None\<rparr>"
  by (simp_all add: unstable_example_def ksm_init_def)

lemmas unstable_example_simps =
  unstable_example_fields unstable_example_fields [unfolded One_nat_def]

lemma rmap_item_hash_max_cached:
  "hash_max (rmap_items s it) \<noteq> 0 \<Longrightarrow>
   rmap_item_hash_max it hsh s = (hash_max (rmap_items s it), s)"
  by (simp add: rmap_item_hash_max_def)

text \<open>
  Claim C7, as stated, fails in two ways.  When no tree node carries the hash, the function
  first allocates a tree node, and when \<open>alloc_tree_node\<close> returns \<open>NULL\<close> it returns
  \<open>NULL\<close> itself without installing the rmap item: on the state after initialisation, with
  a slab allocator that is exhausted, the call for item 1 finds no terminal match and
  returns \<open>NULL\<close>, the state is unchanged, the unstable tree is still empty and the item
  does not carry \<open>UNSTABLE_FLAG\<close>.  And when the tree node that carries the hash has an
  empty sub-tree, the descent by \<open>hash_max\<close> finds no match either, but the function stops
  at \<open>BUG_ON(!*new)\<close> and does not return.
\<close>

theorem unstable_tree_search_insert_alloc_fails:
  "(no_terminal_match (ksm_init (\<lambda>i. 0) 0) 1 0
    \<and> unstable_tree_search_insert exhausted_host 1 0 (ksm_init (\<lambda>i. 0) 0)
        = Inr (None, ksm_init (\<lambda>i. 0) 0)
    \<and> address (rmap_items (ksm_init (\<lambda>i. 0) 0) 1) AND UNSTABLE_FLAG = 0
    \<and> root_unstable_tree (ksm_init (\<lambda>i. 0) 0) = RB_NULL)
   \<and> (no_terminal_match empty_subtree_example 1 9
      \<and> unstable_tree_search_insert willing_host 1 9 empty_subtree_example = Inl BUG)"
proof -
  have hm: "rmap_item_hash_max 1 9 empty_subtree_example = (5, empty_subtree_example)"
    using rmap_item_hash_max_cached [of empty_subtree_example 1 9]
    by (simp add: empty_subtree_example_def unstable_example_simps)
  have "no_terminal_match empty_subtree_example 1 9"
    using hm
    by (simp add: no_terminal_match_def hash_cmp_def empty_subtree_example_def
          unstable_example_simps)
  moreover have "unstable_tree_search_insert willing_host 1 9 empty_subtree_example = Inl BUG"
    by (simp add: unstable_tree_search_insert_def Let_def hash_cmp_def
          empty_subtree_example_def unstable_example_simps)
  ultimately show ?thesis
    by (simp add: no_terminal_match_def unstable_tree_search_insert_def alloc_tree_node_def
          ksm_init_def exhausted_host_def willing_host_def Let_def)
qed

text \<open>
  Claim C7, amended.  For every call of \<open>unstable_tree_search_insert\<close> that finds no
  terminal match, provided that the allocation of the tree node succeeds when no tree node
  carries the hash: the call returns \<open>NULL\<close> with the rmap item installed at the insertion
  point, unless the tree node found has an empty sub-tree, in which case the call stops at
  a \<open>BUG_ON\<close>.  Installed means:
  \<^item> the rmap item points to the tree node, carries \<open>UNSTABLE_FLAG\<close> in its address, has
    \<open>append_round\<close> equal to the current scan round (and its \<open>hash_max\<close> when the sub-tree
    was searched), and no other rmap item is changed;
  \<^item> when no tree node carried the hash, the tree node is the newly allocated one, it has
    the hash, the item is the root of its sub-tree, and it is linked into the first-level
    tree where the descent by the hash fell off the tree;
  \<^item> when a tree node carried the hash, the first-level tree is unchanged and the item is
    linked into the sub-tree of that tree node where the descent by \<open>hash_max\<close> fell off the
    tree, so that the sub-tree holds the item and everything it held before;
  \<^item> no other tree node is changed, and \<open>ksm_pages_unshared\<close> is one more than before.
\<close>

theorem unstable_tree_search_insert_installs:
  assumes nomatch: "no_terminal_match s it hsh"
    and alloc: "rb_search (\<lambda>t. hash (tree_nodes s t)) hsh (root_unstable_tree s) = None
                  \<Longrightarrow> kmem_cache_alloc h (next_object s)"
  shows "case rb_search (\<lambda>t. hash (tree_nodes s t)) hsh (root_unstable_tree s) of
           None \<Rightarrow>
             (\<exists>s'. unstable_tree_search_insert h it hsh s = Inr (None, s')
                \<and> rmap_items s' = (rmap_items s)
                     (it := (rmap_items s it)
                        \<lparr>tree_node := Some (next_object s),
                         address := address (rmap_items s it) OR UNSTABLE_FLAG,
                         append_round := ksm_scan_round s\<rparr>)
                \<and> tree_nodes s' = (tree_nodes s)
                     (next_object s :=
                        \<lparr>hash = hsh, count = 0, sub_root = RB_NODE RB_NULL it RB_NULL\<rparr>)
                \<and> root_unstable_tree s' =
                     rb_insert (\<lambda>t. hash (tree_nodes s' t)) hsh (next_object s)
                       (root_unstable_tree s)
                \<and> unstable_tree_node_list s' = next_object s # unstable_tree_node_list s
                \<and> ksm_pages_unshared s' = ksm_pages_unshared s + 1)
         | Some t \<Rightarrow>
             if sub_root (tree_nodes s t) = RB_NULL
             then unstable_tree_search_insert h it hsh s = Inl BUG
             else
               (\<exists>s'. unstable_tree_search_insert h it hsh s = Inr (None, s')
                  \<and> rmap_items s' = (rmap_items s)
                       (it := (rmap_items s it)
                          \<lparr>hash_max := fst (rmap_item_hash_max it hsh s),
                           tree_node := Some t,
                           address := address (rmap_items s it) OR UNSTABLE_FLAG,
                           append_round := ksm_scan_round s\<rparr>)
                  \<and> tree_nodes s' = (tree_nodes s)
                       (t := (tree_nodes s t)
                          \<lparr>sub_root := rb_insert (\<lambda>i. hash_max (rmap_items s' i))
                                          (hash_max (rmap_items s' it)) it
                                          (sub_root (tree_nodes s t))\<rparr>)
                  \<and> rb_set (sub_root (tree_nodes s' t))
                       = insert it (rb_set (sub_root (tree_nodes s t)))
                  \<and> root_unstable_tree s' = root_unstable_tree s
                  \<and> unstable_tree_node_list s' = unstable_tree_node_list s
                  \<and> ksm_pages_unshared s' = ksm_pages_unshared s + 1)"
proof (cases "rb_search (\<lambda>t. hash (tree_nodes s t)) hsh (root_unstable_tree s)")
  case None
  with alloc have "kmem_cache_alloc h (next_object s)" by simp
  with None show ?thesis
    by (simp add: unstable_tree_search_insert_def alloc_tree_node_def Let_def fun_eq_iff
          if_distrib [of hash] cong: if_cong)
next
  case (Some t)
  obtain hm s1 where hm: "rmap_item_hash_max it hsh s = (hm, s1)"
    by (cases "rmap_item_hash_max it hsh s")
  have s1: "tree_nodes s1 = tree_nodes s" "ksm_scan_round s1 = ksm_scan_round s"
    "root_unstable_tree s1 = root_unstable_tree s"
    "rmap_items s1 = (rmap_items s)(it := (rmap_items s it)\<lparr>hash_max := hm\<rparr>)"
    "ksm_pages_unshared s1 = ksm_pages_unshared s"
    "unstable_tree_node_list s1 = unstable_tree_node_list s"
    using tree_nodes_rmap_item_hash_max [of it hsh s] rmap_item_hash_max_frame [of it hsh s] hm
    by simp_all
  from nomatch Some hm have cnt: "count (tree_nodes s t) \<noteq> 1"
    and fall: "rb_search (\<lambda>i. hash_max (rmap_items s1 i)) hm (sub_root (tree_nodes s1 t)) = None"
    by (simp_all add: no_terminal_match_def)
  show ?thesis
  proof (cases "sub_root (tree_nodes s t) = RB_NULL")
    case True
    with Some cnt show ?thesis
      by (simp add: unstable_tree_search_insert_def Let_def)
  next
    case False
    from Some cnt False hm fall show ?thesis
      by (simp add: unstable_tree_search_insert_def Let_def s1 if_distrib [of hash_max]
            cong: if_cong)
  qed
qed

theorem unstable_tree_search_insert_installs_witness:
  "no_terminal_match unstable_example 1 9
   \<and> (\<exists>s'. unstable_tree_search_insert willing_host 1 9 unstable_example = Inr (None, s')
          \<and> rmap_items s' 1 =
               \<lparr>slot = 1, address = 4097, page = 1, hash_max = 5, append_round = 1,
                tree_node = Some 1, head = None\<rparr>
          \<and> sub_root (tree_nodes s' 1)
               = RB_NODE RB_NULL 2 (RB_NODE (RB_NODE RB_NULL 1 RB_NULL) 3 RB_NULL)
          \<and> hash (tree_nodes s' 1) = 9
          \<and> root_unstable_tree s' = RB_NODE RB_NULL 1 RB_NULL
          \<and> ksm_pages_unshared s' = 3)"
proof -
  have hm: "rmap_item_hash_max 1 9 unstable_example = (5, unstable_example)"
    using rmap_item_hash_max_cached [of unstable_example 1 9]
    by (simp add: unstable_example_simps)
  have nomatch: "no_terminal_match unstable_example 1 9"
    by (simp add: no_terminal_match_def hm hm [unfolded One_nat_def] hash_cmp_def
          unstable_example_simps)
  have search: "rb_search (\<lambda>t. hash (tree_nodes unstable_example t)) 9
                  (root_unstable_tree unstable_example) = Some 1"
    by (simp add: hash_cmp_def unstable_example_simps)
  have alloc: "kmem_cache_alloc willing_host (next_object unstable_example)"
    by (simp add: willing_host_def)
  have ne: "sub_root (tree_nodes unstable_example 1) \<noteq> RB_NULL"
    by (simp add: unstable_example_simps)
  from unstable_tree_search_insert_installs [OF nomatch alloc] ne
  have "\<exists>s'. unstable_tree_search_insert willing_host 1 9 unstable_example = Inr (None, s')
          \<and> rmap_items s' = (rmap_items unstable_example)
                 (1 := (rmap_items unstable_example 1)
                    \<lparr>hash_max := fst (rmap_item_hash_max 1 9 unstable_example),
                     tree_node := Some 1,
                     address := address (rmap_items unstable_example 1) OR UNSTABLE_FLAG,
                     append_round := ksm_scan_round unstable_example\<rparr>)
          \<and> tree_nodes s' = (tree_nodes unstable_example)
                 (1 := (tree_nodes unstable_example 1)
                    \<lparr>sub_root := rb_insert (\<lambda>i. hash_max (rmap_items s' i))
                                    (hash_max (rmap_items s' 1)) 1
                                    (sub_root (tree_nodes unstable_example 1))\<rparr>)
          \<and> rb_set (sub_root (tree_nodes s' 1))
               = insert 1 (rb_set (sub_root (tree_nodes unstable_example 1)))
          \<and> root_unstable_tree s' = root_unstable_tree unstable_example
          \<and> unstable_tree_node_list s' = unstable_tree_node_list unstable_example
          \<and> ksm_pages_unshared s' = ksm_pages_unshared unstable_example + 1"
    unfolding search option.case by (simp only: if_not_P if_False)
  then obtain s' where
    run: "unstable_tree_search_insert willing_host 1 9 unstable_example = Inr (None, s')"
    and items: "rmap_items s' = (rmap_items unstable_example)
                 (1 := (rmap_items unstable_example 1)
                    \<lparr>hash_max := fst (rmap_item_hash_max 1 9 unstable_example),
                     tree_node := Some 1,
                     address := address (rmap_items unstable_example 1) OR UNSTABLE_FLAG,
                     append_round := ksm_scan_round unstable_example\<rparr>)"
    and nodes: "tree_nodes s' = (tree_nodes unstable_example)
                 (1 := (tree_nodes unstable_example 1)
                    \<lparr>sub_root := rb_insert (\<lambda>i. hash_max (rmap_items s' i))
                                    (hash_max (rmap_items s' 1)) 1
                                    (sub_root (tree_nodes unstable_example 1))\<rparr>)"
    and root: "root_unstable_tree s' = root_unstable_tree unstable_example"
    and unshared: "ksm_pages_unshared s' = ksm_pages_unshared unstable_example + 1"
    by blast
  have keys: "hash_max (rmap_items s' 1) = 5" "hash_max (rmap_items s' 2) = 3"
    "hash_max (rmap_items s' 3) = 7"
    by (simp_all add: items hm hm [unfolded One_nat_def] unstable_example_simps)
  have "rmap_items s' 1 =
          \<lparr>slot = 1, address = 4097, page = 1, hash_max = 5, append_round = 1,
           tree_node = Some 1, head = None\<rparr>"
    by (simp add: items hm hm [unfolded One_nat_def] unstable_example_simps UNSTABLE_FLAG_def)
  moreover have "sub_root (tree_nodes s' 1)
               = RB_NODE RB_NULL 2 (RB_NODE (RB_NODE RB_NULL 1 RB_NULL) 3 RB_NULL)"
    by (simp add: nodes unstable_example_simps hash_cmp_def keys keys [unfolded One_nat_def])
  moreover have "hash (tree_nodes s' 1) = 9"
    by (simp add: nodes unstable_example_simps)
  ultimately show ?thesis
    using nomatch run root unshared by (simp add: unstable_example_simps)
qed

section \<open>What a search of the stable tree compares\<close>

lemma stable_collision_example_fields:
  "page (rmap_items stable_collision_example 1) = 1"
  "random_nums stable_collision_example = (\<lambda>i. 0)"
  "hash_strength stable_collision_example = 1"
  "page_data stable_collision_example 1 = (\<lambda>i. 0)"
  "page_data stable_collision_example 2 = (\<lambda>i. if i = 1 then 1 else 0)"
  "page_mapping stable_collision_example 1 = MAPPING_ANON"
  "page_mapping stable_collision_example 2 = MAPPING_KSM (Some 1)"
  "root_stable_tree stable_collision_example = RB_NODE RB_NULL 1 RB_NULL"
  "tree_nodes stable_collision_example 1 =
     \<lparr>hash = random_sample_hash (\<lambda>i. 0) (\<lambda>i. 0) 1, count = 1,
      sub_root = RB_NODE RB_NULL 1 RB_NULL\<rparr>"
  "kpfn (stable_nodes stable_collision_example 1) = 2"
  by (simp_all add: stable_collision_example_def ksm_init_def fun_eq_iff)

lemmas stable_collision_example_simps =
  stable_collision_example_fields stable_collision_example_fields [unfolded One_nat_def]

lemma sample_word_0:
  "random_sample_hash (\<lambda>i. 0) key 1 = random_sample_hash (\<lambda>i. 0) (\<lambda>i. key 0) 1"
  by (simp add: random_sample_hash_def HASH_FROM_TO.simps hash_mix_def HASH_STRENGTH_FULL_def
        PAGE_SIZE_def Let_def)

lemma pages_identical_refl [simp]: "pages_identical s p p"
  by (simp add: pages_identical_def)

lemma check_collision_nonzero:
  "check_collision it hsh s = Inr (r, s') \<Longrightarrow> r \<noteq> 0"
  by (auto simp add: check_collision_def Let_def ebind_eq_Inr page_hash_def
        MERGE_ERR_COLLI_def MERGE_ERR_CHANGED_def split: if_splits prod.splits)

lemma merge_with_ksm_page_compares:
  assumes "try_to_merge_with_ksm_page h it kpage hsh s1 = Inr (0, s2)"
  shows "pages_identical s1 (page (rmap_items s1 it)) kpage"
proof (rule ccontr)
  assume differ: "\<not> pages_identical s1 (page (rmap_items s1 it)) kpage"
  then have "page (rmap_items s1 it) \<noteq> kpage" by auto
  with assms differ show False
    by (auto simp add: try_to_merge_with_ksm_page_def Let_def MERGE_ERR_PGERR_def
          dest: check_collision_nonzero split: if_splits)
qed

lemma uint_1_u64 [simp]: "uint (1 :: u64) = 1"
  by simp

text \<open>
  Claim C4, as stated, fails: \<open>stable_tree_search\<close> compares hashes only.  In
  \<open>stable_collision_example\<close> the pages 1 and 2 have the same hash at the current strength
  and different contents, the tree node for that hash has \<open>count = 1\<close>, and the search for
  the rmap item of page 1 reports the ksm page 2 as found.
\<close>

theorem stable_tree_search_reports_unequal_page:
  "page_hash 1 (hash_strength stable_collision_example) False stable_collision_example
     = Inr (random_sample_hash (\<lambda>i. 0) (\<lambda>i. 0) 1, stable_collision_example)
   \<and> page_hash 2 (hash_strength stable_collision_example) False stable_collision_example
     = Inr (random_sample_hash (\<lambda>i. 0) (\<lambda>i. 0) 1, stable_collision_example)
   \<and> count (tree_nodes stable_collision_example 1) = 1
   \<and> stable_tree_search willing_host 1 (random_sample_hash (\<lambda>i. 0) (\<lambda>i. 0) 1)
        stable_collision_example
     = Inr (Some 2, stable_collision_example)
   \<and> \<not> pages_identical stable_collision_example 1 2"
proof -
  have "random_sample_hash (\<lambda>i. 0) (\<lambda>i. if i = 1 then 1 else 0) 1
          = random_sample_hash (\<lambda>i. 0) (\<lambda>i. 0) 1"
    by (subst sample_word_0) simp
  moreover have "\<not> pages_identical stable_collision_example 1 2"
    by (auto simp add: pages_identical_def stable_collision_example_simps PAGE_SIZE_def
          intro!: exI [of _ 1])
  ultimately show ?thesis
    by (simp add: page_hash_def stable_tree_search_def get_ksm_page_def page_stable_node_def
          rb_root_entry_def hash_cmp_def willing_host_def stable_collision_example_simps)
qed

text \<open>
  Claim C4, amended.  For every stable-tree search whose query hash hits a first-level
  tree node with \<open>count = 1\<close>, the search returns what \<open>get_ksm_page\<close> returns for the
  stable node at the root of the sub-tree, without comparing contents: the stable page,
  with a reference acquired, when the page still belongs to the stable node, and otherwise
  \<open>NULL\<close> after the stale stable node has been removed (a tree node without a stable node
  stops the search at a \<open>BUG_ON\<close>).  The full comparison against the query page is made
  afterwards by \<open>try_to_merge_with_ksm_page\<close>: once the page is locked and
  write-protected, it replaces the page exactly when the contents are identical and
  otherwise classifies the collision, and it reports a merge only for identical pages,
  leaving the state of the engine as it was.
\<close>

theorem stable_tree_search_first_level:
  assumes "page_stable_node s (page (rmap_items s it)) = None"
    and "rb_search (\<lambda>t. hash (tree_nodes s t)) hsh (root_stable_tree s) = Some t"
    and "count (tree_nodes s t) = 1"
  shows "(case rb_root_entry (sub_root (tree_nodes s t)) of
            None \<Rightarrow> stable_tree_search h it hsh s = Inl BUG
          | Some sn \<Rightarrow>
              stable_tree_search h it hsh s = Inr (get_ksm_page h sn True True s)
              \<and> stable_tree_search h it hsh s =
                  (if page_mapping s (kpfn (stable_nodes s sn)) = MAPPING_KSM (Some sn)
                      \<and> get_page_unless_zero h (kpfn (stable_nodes s sn))
                   then Inr (Some (kpfn (stable_nodes s sn)), s)
                   else Inr (None, remove_node_from_stable_tree sn True True s)))
     \<and> (\<forall>kpage s1.
           \<not> ksm_test_exit h (slot (rmap_items s1 it)) \<and> page (rmap_items s1 it) \<noteq> kpage
           \<and> PageAnon s1 (page (rmap_items s1 it)) \<and> PageKsm s1 kpage
           \<and> trylock_page h (page (rmap_items s1 it))
           \<and> write_protect_page h (slot (rmap_items s1 it)) (page (rmap_items s1 it))
           \<longrightarrow> try_to_merge_with_ksm_page h it kpage hsh s1 =
                 (if pages_identical s1 (page (rmap_items s1 it)) kpage
                  then Inr (if replace_page h (slot (rmap_items s1 it))
                                 (page (rmap_items s1 it)) kpage
                            then 0 else MERGE_ERR_PGERR, s1)
                  else check_collision it hsh s1))
     \<and> (\<forall>kpage s1 s2. try_to_merge_with_ksm_page h it kpage hsh s1 = Inr (0, s2) \<longrightarrow>
           pages_identical s1 (page (rmap_items s1 it)) kpage \<and> s2 = s1)"
proof -
  have search: "case rb_root_entry (sub_root (tree_nodes s t)) of
            None \<Rightarrow> stable_tree_search h it hsh s = Inl BUG
          | Some sn \<Rightarrow>
              stable_tree_search h it hsh s = Inr (get_ksm_page h sn True True s)
              \<and> stable_tree_search h it hsh s =
                  (if page_mapping s (kpfn (stable_nodes s sn)) = MAPPING_KSM (Some sn)
                      \<and> get_page_unless_zero h (kpfn (stable_nodes s sn))
                   then Inr (Some (kpfn (stable_nodes s sn)), s)
                   else Inr (None, remove_node_from_stable_tree sn True True s))"
    using assms
    by (simp add: stable_tree_search_def get_ksm_page_def Let_def split: option.split)
  have same: "s2 = s1" if "try_to_merge_with_ksm_page h it kpage hsh s1 = Inr (0, s2)"
    for kpage s1 s2
    using that
    by (auto simp add: try_to_merge_with_ksm_page_def Let_def MERGE_ERR_PGERR_def
          dest: check_collision_nonzero split: if_splits)
  have compare: "try_to_merge_with_ksm_page h it kpage hsh s1 =
                 (if pages_identical s1 (page (rmap_items s1 it)) kpage
                  then Inr (if replace_page h (slot (rmap_items s1 it))
                                 (page (rmap_items s1 it)) kpage
                            then 0 else MERGE_ERR_PGERR, s1)
                  else check_collision it hsh s1)"
    if "\<not> ksm_test_exit h (slot (rmap_items s1 it)) \<and> page (rmap_items s1 it) \<noteq> kpage
           \<and> PageAnon s1 (page (rmap_items s1 it)) \<and> PageKsm s1 kpage
           \<and> trylock_page h (page (rmap_items s1 it))
           \<and> write_protect_page h (slot (rmap_items s1 it)) (page (rmap_items s1 it))"
    for kpage s1
    using that by (simp add: try_to_merge_with_ksm_page_def Let_def)
  have merged: "pages_identical s1 (page (rmap_items s1 it)) kpage \<and> s2 = s1"
    if "try_to_merge_with_ksm_page h it kpage hsh s1 = Inr (0, s2)" for kpage s1 s2
    using that merge_with_ksm_page_compares same by blast
  from compare have c: "\<forall>kpage s1.
           \<not> ksm_test_exit h (slot (rmap_items s1 it)) \<and> page (rmap_items s1 it) \<noteq> kpage
           \<and> PageAnon s1 (page (rmap_items s1 it)) \<and> PageKsm s1 kpage
           \<and> trylock_page h (page (rmap_items s1 it))
           \<and> write_protect_page h (slot (rmap_items s1 it)) (page (rmap_items s1 it))
           \<longrightarrow> try_to_merge_with_ksm_page h it kpage hsh s1 =
                 (if pages_identical s1 (page (rmap_items s1 it)) kpage
                  then Inr (if replace_page h (slot (rmap_items s1 it))
                                 (page (rmap_items s1 it)) kpage
                            then 0 else MERGE_ERR_PGERR, s1)
                  else check_collision it hsh s1)"
    by (intro allI impI)
  from merged have m: "\<forall>kpage s1 s2. try_to_merge_with_ksm_page h it kpage hsh s1 = Inr (0, s2) \<longrightarrow>
           pages_identical s1 (page (rmap_items s1 it)) kpage \<and> s2 = s1"
    by (intro allI impI)
  from search c m show ?thesis
    by (intro conjI)
qed

theorem stable_tree_search_first_level_witness:
  "page_stable_node stable_collision_example (page (rmap_items stable_collision_example 1)) = None
   \<and> rb_search (\<lambda>t. hash (tree_nodes stable_collision_example t))
        (random_sample_hash (\<lambda>i. 0) (\<lambda>i. 0) 1) (root_stable_tree stable_collision_example)
       = Some 1
   \<and> count (tree_nodes stable_collision_example 1) = 1
   \<and> stable_tree_search willing_host 1 (random_sample_hash (\<lambda>i. 0) (\<lambda>i. 0) 1)
       stable_collision_example
     = Inr (Some 2, stable_collision_example)
   \<and> try_to_merge_with_ksm_page willing_host 1 2 (random_sample_hash (\<lambda>i. 0) (\<lambda>i. 0) 1)
       stable_collision_example
     = check_collision 1 (random_sample_hash (\<lambda>i. 0) (\<lambda>i. 0) 1) stable_collision_example"
proof -
  have a: "page_stable_node stable_collision_example
             (page (rmap_items stable_collision_example 1)) = None"
    by (simp add: page_stable_node_def stable_collision_example_simps)
  have b: "rb_search (\<lambda>t. hash (tree_nodes stable_collision_example t))
        (random_sample_hash (\<lambda>i. 0) (\<lambda>i. 0) 1) (root_stable_tree stable_collision_example)
       = Some 1"
    by (simp add: hash_cmp_def stable_collision_example_simps)
  have c: "count (tree_nodes stable_collision_example 1) = 1"
    by (simp add: stable_collision_example_simps)
  have differ: "\<not> pages_identical stable_collision_example 1 2"
    by (auto simp add: pages_identical_def stable_collision_example_simps PAGE_SIZE_def
          intro!: exI [of _ 1])
  have pre: "\<not> ksm_test_exit willing_host (slot (rmap_items stable_collision_example 1))
           \<and> page (rmap_items stable_collision_example 1) \<noteq> 2
           \<and> PageAnon stable_collision_example (page (rmap_items stable_collision_example 1))
           \<and> PageKsm stable_collision_example 2
           \<and> trylock_page willing_host (page (rmap_items stable_collision_example 1))
           \<and> write_protect_page willing_host (slot (rmap_items stable_collision_example 1))
               (page (rmap_items stable_collision_example 1))"
    by (simp add: willing_host_def PageAnon_def PageKsm_def stable_collision_example_simps)
  have entry: "rb_root_entry (sub_root (tree_nodes stable_collision_example 1)) = Some 1"
    by (simp add: rb_root_entry_def stable_collision_example_simps)
  note inst = stable_tree_search_first_level [OF a b c, of willing_host,
      unfolded entry option.case]
  have live: "page_mapping stable_collision_example (kpfn (stable_nodes stable_collision_example 1))
               = MAPPING_KSM (Some 1)
             \<and> get_page_unless_zero willing_host (kpfn (stable_nodes stable_collision_example 1))"
    by (simp add: willing_host_def stable_collision_example_simps)
  have "stable_tree_search willing_host 1 (random_sample_hash (\<lambda>i. 0) (\<lambda>i. 0) 1)
       stable_collision_example = Inr (Some 2, stable_collision_example)"
    using inst [THEN conjunct1, THEN conjunct2] live
    by (simp add: stable_collision_example_simps)
  moreover
  have "try_to_merge_with_ksm_page willing_host 1 2 (random_sample_hash (\<lambda>i. 0) (\<lambda>i. 0) 1)
       stable_collision_example
     = check_collision 1 (random_sample_hash (\<lambda>i. 0) (\<lambda>i. 0) 1) stable_collision_example"
    using inst [THEN conjunct2, THEN conjunct1, rule_format, OF pre] differ
    by (simp add: stable_collision_example_simps)
  ultimately show ?thesis
    using a b c by simp
qed

section \<open>What the table functions and the merge functions leave unchanged\<close>

lemma bt_update [simp]:
  "beside_tables (s\<lparr>ksm_inter_vma_table := a\<rparr>) = beside_tables s"
  "beside_tables (s\<lparr>ksm_vma_table := b\<rparr>) = beside_tables s"
  "beside_tables (s\<lparr>ksm_vma_table_num := c\<rparr>) = beside_tables s"
  "beside_tables (s\<lparr>ksm_vma_table_index_end := d\<rparr>) = beside_tables s"
  "beside_tables (s\<lparr>slots := e\<rparr>) = beside_tables s"
  by (simp_all add: beside_tables_def)

lemma bt_vma_table_write:
  "returns (vma_table_write i v s) (\<lambda>s'. beside_tables s' = beside_tables s)"
  by (simp add: vma_table_write_def)

lemma bt_inter_vma_table_write:
  "returns (inter_vma_table_write k v s) (\<lambda>s'. beside_tables s' = beside_tables s)"
  by (simp add: inter_vma_table_write_def)

lemma returns_any: "(\<And>x. Q x) \<Longrightarrow> returns m Q"
  by (cases m) simp_all

lemma bt_enter_inter_vma_table:
  "returns (enter_inter_vma_table sl s) (\<lambda>s'. beside_tables s' = beside_tables s)"
  unfolding enter_inter_vma_table_def returns_ebind
  by (rule returns_any [of _ "first_free_index s 0"])
     (simp add: Let_def vma_table_write_def vma_table_read_def)

lemma bt_inc_vma_intertab_pair:
  "returns (inc_vma_intertab_pair a b s) (\<lambda>s'. beside_tables s' = beside_tables s)"
proof -
  have enter: "returns (if ksm_index (slots t x) = -1 then enter_inter_vma_table x t else Inr t)
                 (\<lambda>s'. beside_tables s' = beside_tables t)" for t x
    using bt_enter_inter_vma_table by simp
  show ?thesis
    unfolding inc_vma_intertab_pair_def Let_def returns_ebind
    apply (rule returns_mono [OF enter])
    apply (rule returns_mono [OF enter])
    apply (simp add: inter_vma_table_write_def inter_vma_table_read_def)
    done
qed

lemma bt_dec_vma_intertab_pair:
  "returns (dec_vma_intertab_pair a b s) (\<lambda>s'. beside_tables s' = beside_tables s)"
  by (simp add: dec_vma_intertab_pair_def Let_def inter_vma_table_write_def
        inter_vma_table_read_def)

lemma pv_update [simp]:
  "pos_view (s\<lparr>ksm_pages_scanned := a1\<rparr>) = pos_view s"
  "pos_view (s\<lparr>ksm_pages_scanned_last := a2\<rparr>) = pos_view s"
  "pos_view (s\<lparr>ksm_pages_shared := a3\<rparr>) = pos_view s"
  "pos_view (s\<lparr>ksm_pages_sharing := a4\<rparr>) = pos_view s"
  "pos_view (s\<lparr>ksm_pages_unshared := a5\<rparr>) = pos_view s"
  "pos_view (s\<lparr>root_unstable_tree := a6\<rparr>) = pos_view s"
  "pos_view (s\<lparr>unstable_tree_node_list := a7\<rparr>) = pos_view s"
  "pos_view (s\<lparr>root_stable_tree := a8\<rparr>) = pos_view s"
  "pos_view (s\<lparr>stable_tree_node_list := a9\<rparr>) = pos_view s"
  "pos_view (s\<lparr>stable_node_list := b1\<rparr>) = pos_view s"
  "pos_view (s\<lparr>rshash_neg := b2\<rparr>) = pos_view s"
  "pos_view (s\<lparr>slots := b3\<rparr>) = pos_view s"
  "pos_view (s\<lparr>rmap_items := b4\<rparr>) = pos_view s"
  "pos_view (s\<lparr>tree_nodes := b5\<rparr>) = pos_view s"
  "pos_view (s\<lparr>stable_nodes := b6\<rparr>) = pos_view s"
  "pos_view (s\<lparr>node_vmas := b7\<rparr>) = pos_view s"
  "pos_view (s\<lparr>page_mapping := b8\<rparr>) = pos_view s"
  "pos_view (s\<lparr>next_object := b9\<rparr>) = pos_view s"
  by (simp_all add: pos_view_def cost_view_def)

lemma bt_pos_view: "beside_tables s' = beside_tables s \<Longrightarrow> pos_view s' = pos_view s"
proof -
  have "pos_view (beside_tables t) = pos_view t" for t
    by (simp add: beside_tables_def pos_view_def cost_view_def)
  then show "beside_tables s' = beside_tables s \<Longrightarrow> pos_view s' = pos_view s"
    by metis
qed

lemma pv_drop_rmap_items [simp]: "pos_view (drop_rmap_items its s) = pos_view s"
  by (induction its arbitrary: s) simp_all

lemma pv_drop_node_vmas [simp]: "pos_view (drop_node_vmas nvs s) = pos_view s"
  by (induction nvs arbitrary: s) simp_all

lemma pv_free_tree_node [simp]: "pos_view (free_tree_node t s) = pos_view s"
  by (simp add: free_tree_node_def)

lemma pv_free_stable_node [simp]: "pos_view (free_stable_node n s) = pos_view s"
  by (simp add: free_stable_node_def)

lemma pv_remove_node_from_stable_tree [simp]:
  "pos_view (remove_node_from_stable_tree sn u r s) = pos_view s"
  by (simp add: remove_node_from_stable_tree_def Let_def split: option.split)

lemma pv_get_ksm_page [simp]: "pos_view (snd (get_ksm_page h sn u r s)) = pos_view s"
  by (simp add: get_ksm_page_def Let_def)

lemma pv_get_ksm_pageD:
  "get_ksm_page h sn u r s = (p, s') \<Longrightarrow> pos_view s' = pos_view s"
  using pv_get_ksm_page [of h sn u r s] by simp

lemma pv_remove_rmap_item_from_tree:
  "returns (remove_rmap_item_from_tree h it s) (\<lambda>s'. pos_view s' = pos_view s)"
  by (auto simp add: remove_rmap_item_from_tree_def Let_def split: option.split prod.split
        dest!: pv_get_ksm_pageD)

lemma remove_rmap_item_from_tree_wp:
  "(\<And>s'. pos_view s' = pos_view s \<Longrightarrow> Q s')
   \<Longrightarrow> returns (remove_rmap_item_from_tree h it s) Q"
  by (rule returns_mono [OF pv_remove_rmap_item_from_tree])

lemma page_hash_uncounted [simp]: "page_hash pg st False s = Inr (random_sample_hash (random_nums s) (page_data s pg) (uint st), s)"
  by (simp add: page_hash_def)

lemma pv_page_hash_max [simp]: "pos_view (snd (page_hash_max pg old s)) = pos_view s"
  by (simp add: page_hash_max_def Let_def)

lemma pv_rmap_item_hash_max [simp]: "pos_view (snd (rmap_item_hash_max it hsh s)) = pos_view s"
  by (simp add: rmap_item_hash_max_def Let_def split_beta)

lemma pv_stable_node_hash_max [simp]:
  "pos_view (stable_node_hash_max sn pg hsh s) = pos_view s"
  by (simp add: stable_node_hash_max_def Let_def split_beta)

lemma pv_memcmp_pages [simp]: "pos_view (snd (memcmp_pages p1 p2 acc s)) = pos_view s"
  by (simp add: memcmp_pages_def)

lemma pv_check_collision:
  "returns (check_collision it hsh s) (\<lambda>(r, s'). pos_view s' = pos_view s)"
  by (simp add: check_collision_def Let_def split_beta)

lemma pv_try_to_merge_with_ksm_page:
  "returns (try_to_merge_with_ksm_page h it kpage hsh s) (\<lambda>(r, s'). pos_view s' = pos_view s)"
  by (simp add: try_to_merge_with_ksm_page_def Let_def pv_check_collision)

lemma pv_set_page_stable_node [simp]: "pos_view (set_page_stable_node p n s) = pos_view s"
  by (simp add: set_page_stable_node_def)

lemma pv_try_to_merge_two_pages:
  "returns (try_to_merge_two_pages h it tree_it hsh s) (\<lambda>(r, s'). pos_view s' = pos_view s)"
  by (simp add: try_to_merge_two_pages_def Let_def)

lemma pv_stable_tree_search:
  "returns (stable_tree_search h it hsh s) (\<lambda>(r, s'). pos_view s' = pos_view s)"
  by (simp add: stable_tree_search_def Let_def split_beta split: option.split)

lemma pv_alloc_tree_node [simp]: "pos_view (snd (alloc_tree_node h st s)) = pos_view s"
  by (simp add: alloc_tree_node_def Let_def)

lemma pv_new_stable_node [simp]: "pos_view (snd (new_stable_node h t kpage hm s)) = pos_view s"
  by (simp add: new_stable_node_def Let_def)

lemma pv_link_stable_node [simp]: "pos_view (link_stable_node t sub s) = pos_view s"
  by (simp add: link_stable_node_def)

lemma pv_first_level_insert:
  "returns (first_level_insert h t it tree_it kpage hsh s)
     (\<lambda>(r, a, b, s'). pos_view s' = pos_view s)"
  by (simp add: first_level_insert_def Let_def split_beta split: option.split)

lemma pv_stable_subtree_insert:
  "returns (stable_subtree_insert h research t it tree_it kpage hsh s)
     (\<lambda>x. pos_view (snd (snd (snd x))) = pos_view s)"
proof (induction h research t it tree_it kpage hsh s rule: stable_subtree_insert.induct)
  case (1 h research t it tree_it kpage hsh s)
  note ih = 1 [OF _ prod.collapse _ prod.collapse]
  show ?case
    using ih
    by (subst stable_subtree_insert.simps) (simp add: split_beta split: option.split)
qed

lemma pv_stable_tree_insert:
  "returns (stable_tree_insert h kpage hsh it tree_it s)
     (\<lambda>x. pos_view (snd (snd (snd x))) = pos_view s)"
  by (simp add: stable_tree_insert_def Let_def split_beta
        pv_first_level_insert [unfolded split_beta]
        pv_stable_subtree_insert split: option.split)

lemma pv_get_tree_rmap_item_page:
  "returns (get_tree_rmap_item_page h tree_it s) (\<lambda>(r, s'). pos_view s' = pos_view s)"
  by (simp add: get_tree_rmap_item_page_def Let_def pv_remove_rmap_item_from_tree)

lemma pv_alloc_tree_nodeD:
  "alloc_tree_node h st s = (t, s') \<Longrightarrow> pos_view s' = pos_view s"
  using pv_alloc_tree_node [of h st s] by simp

lemma pv_unstable_tree_search_insert:
  "returns (unstable_tree_search_insert h it hsh s) (\<lambda>(r, s'). pos_view s' = pos_view s)"
  by (auto simp add: unstable_tree_search_insert_def Let_def split_beta
        split: option.split prod.split dest!: pv_alloc_tree_nodeD
        intro!: returns_mono [OF pv_get_tree_rmap_item_page])

lemma inc_vma_intertab_pair_pv:
  "(\<And>s'. pos_view s' = pos_view s \<Longrightarrow> Q s') \<Longrightarrow> returns (inc_vma_intertab_pair a b s) Q"
  by (rule returns_mono [OF bt_inc_vma_intertab_pair]) (drule bt_pos_view, simp)

lemma dec_vma_intertab_pair_pv:
  "(\<And>s'. pos_view s' = pos_view s \<Longrightarrow> Q s') \<Longrightarrow> returns (dec_vma_intertab_pair a b s) Q"
  by (rule returns_mono [OF bt_dec_vma_intertab_pair]) (drule bt_pos_view, simp)

lemma returns_sum_case [simp]:
  "returns (case m of Inl e \<Rightarrow> Inl e | Inr x \<Rightarrow> f x) P = returns m (\<lambda>x. returns (f x) P)"
  by (cases m) simp_all

lemma pv_scan_node_vmas:
  "returns (scan_node_vmas sl nvs nv s) (\<lambda>x. pos_view (snd (snd x)) = pos_view s)"
proof (induction nvs arbitrary: nv s)
  case Nil
  show ?case by simp
next
  case (Cons x nvs)
  have step: "returns (if last_update (node_vmas s x) = ksm_scan_round s
                       then inc_vma_intertab_pair sl (nv_slot (node_vmas s x)) s else Inr s)
                (\<lambda>s'. pos_view s' = pos_view s)"
    by (simp add: inc_vma_intertab_pair_pv)
  show ?case
    unfolding scan_node_vmas.simps returns_sum_case
  proof (rule returns_mono [OF step])
    fix s1 assume s1: "pos_view s1 = pos_view s"
    show "returns (if sl \<le> nv_slot (node_vmas s1 x) then Inr (Some x, Some nvs, s1)
                   else scan_node_vmas sl nvs (Some x) s1)
            (\<lambda>x. pos_view (snd (snd x)) = pos_view s)"
      using Cons [of "Some x" s1] s1 by simp
  qed
qed

lemma pv_cancel_updates:
  "returns (cancel_updates sl nvs s) (\<lambda>s'. pos_view s' = pos_view s)"
proof (induction nvs arbitrary: s)
  case Nil
  show ?case by simp
next
  case (Cons x nvs)
  show ?case
    by (auto intro!: dec_vma_intertab_pair_pv returns_mono [OF Cons])
qed

lemma pv_count_following:
  "returns (count_following sl rest s) (\<lambda>s'. pos_view s' = pos_view s)"
  unfolding count_following_def
  by (rule returns_for_each) (auto intro!: inc_vma_intertab_pair_pv)

lemma pv_node_vma_ok [simp]: "pos_view (node_vma_ok it nv s) = pos_view s"
  by (simp add: node_vma_ok_def Let_def)

lemma pv_node_vma_new:
  "returns (node_vma_new h it sn nv cont_p s) (\<lambda>x. pos_view (snd x) = pos_view s)"
  by (auto simp add: node_vma_new_def Let_def split: option.split
        intro!: returns_mono [OF pv_count_following])

lemma pv_stable_tree_append:
  "returns (stable_tree_append h it snode s) (\<lambda>s'. pos_view s' = pos_view s)"
  by (auto simp add: stable_tree_append_def Let_def split_beta split: option.split
        intro!: returns_mono [OF pv_node_vma_new] returns_mono [OF pv_scan_node_vmas]
          returns_mono [OF pv_cancel_updates] returns_mono [OF pv_count_following])

section \<open>The credit for the sampled hash\<close>

lemma pv_cmp_and_merge_page_promote:
  "returns (cmp_and_merge_page_promote h it tree_it kpage hsh s) (\<lambda>s'. pos_view s' = pos_view s)"
  unfolding cmp_and_merge_page_promote_def returns_ebind
  apply (rule returns_mono [OF pv_remove_rmap_item_from_tree])
  apply (rule returns_mono [OF pv_stable_tree_insert])
  apply (auto simp add: split_beta intro!: returns_mono [OF pv_stable_tree_append])
  done

lemma pv_cmp_and_merge_page_collision:
  "returns (cmp_and_merge_page_collision it tree_it hsh s) (\<lambda>s'. pos_view s' = pos_view s)"
  by (simp add: cmp_and_merge_page_collision_def Let_def split_beta split: option.split)

lemma pv_cmp_and_merge_page_unstable:
  "returns (cmp_and_merge_page_unstable h it pg hsh s) (\<lambda>s'. pos_view s' = pos_view s)"
  unfolding cmp_and_merge_page_unstable_def returns_ebind
  apply (rule returns_mono [OF pv_unstable_tree_search_insert])
  apply (clarsimp split: option.split)
  apply (rule returns_mono [OF pv_try_to_merge_two_pages])
  apply (auto intro!: returns_mono [OF pv_cmp_and_merge_page_promote]
      returns_mono [OF pv_cmp_and_merge_page_collision])
  done

lemma pos_view_credit:
  "pos_view s0 = pos_view s \<Longrightarrow>
   pos_view (s0\<lparr>rshash_pos := rshash_pos s0 + (word_of_int HASH_STRENGTH_FULL - hash_strength s0)\<rparr>)
     = pos_view (s\<lparr>rshash_pos := rshash_pos s + (word_of_int HASH_STRENGTH_FULL - hash_strength s)\<rparr>)"
  by (simp add: pos_view_def cost_view_def)

lemma pv_cmp_and_merge_page:
  "returns (cmp_and_merge_page h it s)
     (\<lambda>s'. pos_view s' = pos_view (s\<lparr>rshash_pos :=
                rshash_pos s + (word_of_int HASH_STRENGTH_FULL - hash_strength s)\<rparr>))"
  unfolding cmp_and_merge_page_def returns_ebind
proof (rule returns_mono [OF pv_remove_rmap_item_from_tree])
  fix s0 assume s0: "pos_view s0 = pos_view s"
  note credit = pos_view_credit [OF s0]
  show "returns (let pg = page (rmap_items s0 it)
         in ebind (page_hash pg (hash_strength s0) True s0) (\<lambda>(hsh, s).
        let s = s\<lparr>ksm_pages_scanned := ksm_pages_scanned s + 1\<rparr>
        in ebind (stable_tree_search h it hsh s) (\<lambda>(kpage, s).
           case kpage of
             None \<Rightarrow> cmp_and_merge_page_unstable h it pg hsh s
           | Some kp \<Rightarrow>
               ebind (try_to_merge_with_ksm_page h it kp hsh s) (\<lambda>(err, s).
               if err = 0 then stable_tree_append h it (page_stable_node s kp) s
               else if err = MERGE_ERR_COLLI \<and> hash_max (rmap_items s it) \<noteq> 0 then Inr s
               else cmp_and_merge_page_unstable h it pg hsh s))))
       (\<lambda>s'. pos_view s' = pos_view (s\<lparr>rshash_pos :=
                rshash_pos s + (word_of_int HASH_STRENGTH_FULL - hash_strength s)\<rparr>))"
    unfolding Let_def page_hash_def
    apply (simp add: split_beta)
    apply (intro impI)
    apply (rule returns_mono [OF pv_stable_tree_search])
    apply (clarsimp split: option.split)
    apply (intro conjI impI allI)
     apply (rule returns_mono [OF pv_cmp_and_merge_page_unstable])
     apply (simp add: credit)
    apply (rule returns_mono [OF pv_try_to_merge_with_ksm_page])
    apply (auto simp add: credit intro!: returns_mono [OF pv_cmp_and_merge_page_unstable]
        returns_mono [OF pv_stable_tree_append])
    done
qed

lemma cmp_and_merge_page_example:
  "\<exists>s'. cmp_and_merge_page willing_host 1 (ksm_init (\<lambda>i. 0) 0) = Inr s'
        \<and> ksm_pages_shared s' = 0 \<and> ksm_pages_sharing s' = 0 \<and> ksm_pages_unshared s' = 1
        \<and> rshash_pos s' = 960"
  by (simp add: cmp_and_merge_page_def remove_rmap_item_from_tree_def page_hash_def
        stable_tree_search_def page_stable_node_def cmp_and_merge_page_unstable_def
        unstable_tree_search_insert_def alloc_tree_node_def ksm_init_def willing_host_def
        BUG_ON_def Let_def HASH_STRENGTH_FULL_def PAGE_SIZE_def)

text \<open>
  Claim C5, as stated, fails: the credit does not wait for a match.  On the state after
  initialisation both trees are empty, so that the search of the stable tree finds nothing
  and the search of the unstable tree has no terminal match, whatever the hash is; still
  \<open>cmp_and_merge_page\<close> for the rmap item 1 returns with \<open>rshash_pos\<close> raised from 0 to
  \<open>HASH_STRENGTH_FULL - hash_strength = 1024 - 64\<close>, and nothing merged.
\<close>

theorem cmp_and_merge_page_credits_without_match:
  "root_stable_tree (ksm_init (\<lambda>i. 0) 0) = RB_NULL
   \<and> root_unstable_tree (ksm_init (\<lambda>i. 0) 0) = RB_NULL
   \<and> (\<forall>hsh. stable_tree_search willing_host 1 hsh (ksm_init (\<lambda>i. 0) 0)
               = Inr (None, ksm_init (\<lambda>i. 0) 0)
            \<and> no_terminal_match (ksm_init (\<lambda>i. 0) 0) 1 hsh)
   \<and> rshash_pos (ksm_init (\<lambda>i. 0) 0) = 0
   \<and> (\<exists>s'. cmp_and_merge_page willing_host 1 (ksm_init (\<lambda>i. 0) 0) = Inr s'
          \<and> ksm_pages_shared s' = 0 \<and> ksm_pages_sharing s' = 0
          \<and> rshash_pos s' = 960)"
  using cmp_and_merge_page_example
  by (auto simp add: ksm_init_def stable_tree_search_def page_stable_node_def
        no_terminal_match_def)

text \<open>
  Claim C5, amended.  The counter \<open>rshash_pos\<close> is credited by
  \<open>HASH_STRENGTH_FULL - hash_strength\<close> exactly once for every page that
  \<open>cmp_and_merge_page\<close> scans, when the first-level hash of the page is computed and before
  either tree is searched, whether or not the hash finds a match; nothing else in the merge
  step changes the counter or the strength.
\<close>

theorem cmp_and_merge_page_credits_pos:
  assumes "cmp_and_merge_page h it s = Inr s'"
  shows "rshash_pos s' = rshash_pos s + (word_of_int HASH_STRENGTH_FULL - hash_strength s)
       \<and> hash_strength s' = hash_strength s"
  using returnsD [OF pv_cmp_and_merge_page assms]
  by (simp add: pos_view_def cost_view_def)

theorem cmp_and_merge_page_credits_pos_witness:
  "\<exists>s'. cmp_and_merge_page willing_host 1 (ksm_init (\<lambda>i. 0) 0) = Inr s'
        \<and> rshash_pos s' = rshash_pos (ksm_init (\<lambda>i. 0) 0)
              + (word_of_int HASH_STRENGTH_FULL - hash_strength (ksm_init (\<lambda>i. 0) 0))
        \<and> hash_strength s' = hash_strength (ksm_init (\<lambda>i. 0) 0)"
proof -
  from cmp_and_merge_page_example obtain s' where
    run: "cmp_and_merge_page willing_host 1 (ksm_init (\<lambda>i. 0) 0) = Inr s'" by blast
  from cmp_and_merge_page_credits_pos [OF run] run show ?thesis by blast
qed

section \<open>Two pages with the same hash in the unstable tree\<close>

lemma page_hash_max_nonzero [simp]: "fst (page_hash_max pg old s) \<noteq> 0"
  by (simp add: page_hash_max_def Let_def)


lemma hash_cmp_refl [simp]: "hash_cmp x x = 0"
  by (simp add: hash_cmp_def)





lemma page_hash_max_linked_first [simp]:
  "fst (page_hash_max pg old (linked_first a hsh s)) = fst (page_hash_max pg old s)"
  by (simp add: page_hash_max_def linked_first_def scanned_page_def Let_def)












end
